(* ===== verification/Prelude.thy ===== *)
theory Prelude
  imports Main "HOL-Library.Word"
begin

text \<open>
  Types, automation and generic lemmas shared by every component of the model.

  Go's fixed-width integers are words, byte slices are lists of 8-bit words and Go strings are
  character lists. A Go \<open>float32\<close> is kept as its IEEE-754 bit pattern: the code under
  verification only stores, forwards and compares such values.

  Go errors are modelled as the tree that \<open>fmt.Errorf\<close> builds: a sentinel, or a format text
  wrapping the errors of its \<open>%w\<close> verbs. \<open>errors_is\<close> is \<open>errors.Is\<close> on that
  tree. Formatted values other than wrapped errors (names, numbers) are not part of the tree.
\<close>

unbundle bit_operations_syntax

section \<open>Types\<close>

type_synonym byte = "8 word"
type_synonym bytes = "byte list"
type_synonym u16 = "16 word"
type_synonym u32 = "32 word"
type_synonym u64 = "64 word"
type_synonym i32 = "32 word"
type_synonym f32 = "32 word"

text \<open>Characters and bytes: a Go string is the sequence of its bytes.\<close>

definition byte_of_char :: "char \<Rightarrow> byte" where
  "byte_of_char c = word_of_nat (of_char c)"

definition char_of_byte :: "byte \<Rightarrow> char" where
  "char_of_byte b = char_of (unat b)"

definition string_bytes :: "string \<Rightarrow> bytes" where
  "string_bytes s = map byte_of_char s"

definition bytes_string :: "bytes \<Rightarrow> string" where
  "bytes_string bs = map char_of_byte bs"

section \<open>Proof automation\<close>

named_theorems codec_simps \<open>evaluation rules of readers and writers\<close>
named_theorems error_simps \<open>classification of error values\<close>
named_theorems state_simps \<open>effect of the state-changing operations on each field\<close>
named_theorems inv_intros \<open>preservation of invariants\<close>

section \<open>Errors\<close>

datatype sentinel =
    EOF | UnexpectedEOF | NetClosed | DeadlineExceeded | OsDeadlineExceeded | Canceled | UvarintOverflow
  | ClosedPipe | OtherIO
  | ErrClosed | ErrMalformedFrame | ErrFrameTooLarge | ErrMessageType | ErrUnknownMessage
  | ErrNoiseHandshake | ErrPeerName | ErrNoiseKey | ErrNoiseKeyRejected | ErrTransportPolicy
  | ErrEntityNotFound | ErrEntityTypeMismatch | ErrClientClosed | ErrNameResolution | ErrHello
  | ErrPeerDisconnected | ErrEventQueueFull | ErrPing | ErrKeepalive | ErrDeviceInfo
  | ErrProbeNotStarted
  | ErrMalformedDNS | ErrNameTooLong
  | ErrNonLoopbackOnly | ErrConnectionLimit | ErrListenerLimit | ErrSimulatorBusy
  | ErrUnsupportedPush | ErrSimulatorClosed | ErrNetworkFrameQueueFull
  | ErrClockBackwards | ErrClockOverflow
  | ErrInvalidScenario | ErrCommandExpectation | ErrCommandMissing | ErrCommandUnexpected
  | ErrCommandOutOfOrder | ErrCommandOverflow
  | ErrThirdParty

datatype goerror =
    Err sentinel
  | Errorf string "goerror list"

fun errors_is :: "goerror \<Rightarrow> sentinel \<Rightarrow> bool" where
  "errors_is (Err s) t = (s = t)"
| "errors_is (Errorf _ es) t = list_ex (\<lambda>e. errors_is e t) es"

lemma errors_is_wrap [error_simps]:
  "errors_is (Errorf f (e # es)) t \<longleftrightarrow> errors_is e t \<or> errors_is (Errorf f es) t"
  by simp

lemma errors_is_member:
  "e \<in> set es \<Longrightarrow> errors_is e t \<Longrightarrow> errors_is (Errorf f es) t"
  by (auto simp: list_ex_iff)

section \<open>Results\<close>

text \<open>A Go function returning \<open>(value, error)\<close> is a sum with the error on the left.\<close>

type_synonym 'a result = "goerror + 'a"

abbreviation Fail :: "sentinel \<Rightarrow> 'a result" where
  "Fail s \<equiv> Inl (Err s)"

text \<open>
  \<open>unless_err r h k\<close> is the code's \<open>x, err := r; if err != nil { return h(err) }\<close>
  followed by \<open>k x\<close>.
\<close>

definition unless_err :: "'a result \<Rightarrow> (goerror \<Rightarrow> goerror) \<Rightarrow> ('a \<Rightarrow> 'b result) \<Rightarrow> 'b result" where
  "unless_err r h k = (case r of Inl e \<Rightarrow> Inl (h e) | Inr x \<Rightarrow> k x)"

lemma unless_err_simps [simp]:
  "unless_err (Inl e) h k = Inl (h e)"
  "unless_err (Inr x) h k = k x"
  by (simp_all add: unless_err_def)

lemma unless_err_eq_Inr:
  "unless_err r h k = Inr y \<longleftrightarrow> (\<exists>x. r = Inr x \<and> k x = Inr y)"
  by (auto simp: unless_err_def split: sum.splits)

lemma unless_err_eq_Inl:
  "unless_err r h k = Inl e \<longleftrightarrow>
    (\<exists>e'. r = Inl e' \<and> e = h e') \<or> (\<exists>x. r = Inr x \<and> k x = Inl e)"
  by (auto simp: unless_err_def split: sum.splits)

lemma unless_err_cong [fundef_cong]:
  "r = r' \<Longrightarrow> (\<And>x. r' = Inr x \<Longrightarrow> k x = k' x) \<Longrightarrow> unless_err r h k = unless_err r' h k'"
  by (cases r') (auto simp: unless_err_def)

section \<open>Bytes and characters\<close>

lemma char_of_byte_of_char [simp]: "char_of_byte (byte_of_char c) = c"
proof -
  have "(of_char c :: nat) < 256" by simp
  then show ?thesis
    by (simp add: char_of_byte_def byte_of_char_def unsigned_of_nat take_bit_nat_eq_self)
qed

lemma byte_of_char_of_byte [simp]: "byte_of_char (char_of_byte b) = b"
proof -
  have "unat b < 256" using unsigned_less [of b] by simp
  then show ?thesis
    by (simp add: char_of_byte_def byte_of_char_def of_char_of)
qed

lemma bytes_string_bytes [simp]: "bytes_string (string_bytes s) = s"
  by (simp add: bytes_string_def string_bytes_def comp_def)

lemma string_bytes_string [simp]: "string_bytes (bytes_string b) = b"
  by (simp add: bytes_string_def string_bytes_def comp_def)

lemma length_string_bytes [simp]: "length (string_bytes s) = length s"
  by (simp add: string_bytes_def)

lemma length_bytes_string [simp]: "length (bytes_string s) = length s"
  by (simp add: bytes_string_def)

lemma byte_lt_256 [simp]: "unat (b :: byte) < 256"
  using unsigned_less [of b] by simp

lemma byte_lt_65536 [simp]: "unat (b :: byte) < 65536"
  by (rule order.strict_trans [OF byte_lt_256]) simp

lemma u32_bound: "unat (t :: u32) < 2 ^ 32"
  using unsigned_less [of t] by simp

lemma u64_bound: "unat (t :: u64) < 2 ^ 64"
  using unsigned_less [of t] by simp

lemma unat_u32_u64: "unat (ucast (t :: u32) :: u64) = unat t"
  using u32_bound [of t] by (simp only: unsigned_ucast_eq) (simp add: take_bit_nat_eq_self)

lemma ucast_u32_u64 [simp]: "ucast (ucast (t :: u32) :: u64) = t"
  using u32_bound [of t]
  by (simp only: word_unat_eq_iff unsigned_ucast_eq)
    (simp add: unsigned_take_bit_eq take_bit_nat_eq_self)

section \<open>Lists\<close>

lemma list_update_append_len [simp]: "(xs @ y # ys)[length xs := z] = xs @ z # ys"
  by simp

lemma take_len_append [simp]: "take (length xs) (xs @ ys) = xs"
  by simp

lemma take_drop_split:
  "n + m \<le> length xs \<Longrightarrow> xs = take n xs @ take m (drop n xs) @ drop (n + m) xs"
  by (metis append_take_drop_id drop_drop add.commute)

text \<open>\<open>contains\<close> is \<open>bytes.Contains\<close>: the second list occurs as a contiguous part of the
  first.\<close>

fun is_prefix :: "'a list \<Rightarrow> 'a list \<Rightarrow> bool" where
  "is_prefix [] ys = True"
| "is_prefix (x # xs) [] = False"
| "is_prefix (x # xs) (y # ys) = (x = y \<and> is_prefix xs ys)"

fun contains :: "'a list \<Rightarrow> 'a list \<Rightarrow> bool" where
  "contains [] sub = (sub = [])"
| "contains (x # xs) sub = (is_prefix sub (x # xs) \<or> contains xs sub)"

lemma is_prefix_iff: "is_prefix xs ys \<longleftrightarrow> (\<exists>zs. ys = xs @ zs)"
  by (induction xs ys rule: is_prefix.induct) auto

lemma contains_iff: "contains xs sub \<longleftrightarrow> (\<exists>pre post. xs = pre @ sub @ post)"
proof (induction xs)
  case Nil
  then show ?case by auto
next
  case (Cons x xs)
  show ?case
  proof
    assume "contains (x # xs) sub"
    then consider "is_prefix sub (x # xs)" | "contains xs sub" by auto
    then show "\<exists>pre post. x # xs = pre @ sub @ post"
    proof cases
      case 1
      then show ?thesis by (auto simp: is_prefix_iff intro: exI [of _ "[]"])
    next
      case 2
      then obtain pre post where "xs = pre @ sub @ post" using Cons.IH by blast
      then have "x # xs = (x # pre) @ sub @ post" by simp
      then show ?thesis by blast
    qed
  next
    assume "\<exists>pre post. x # xs = pre @ sub @ post"
    then obtain pre post where eq: "x # xs = pre @ sub @ post" by blast
    show "contains (x # xs) sub"
    proof (cases pre)
      case Nil
      then have "is_prefix sub (x # xs)" using eq by (auto simp: is_prefix_iff)
      then show ?thesis by simp
    next
      case (Cons p ps)
      then have "xs = ps @ sub @ post" using eq by simp
      then show ?thesis using Cons.IH by auto
    qed
  qed
qed

lemma contains_mono: "contains ys sub \<Longrightarrow> contains (xs @ ys @ zs) sub"
  by (auto simp: contains_iff) (metis append.assoc)

end
