(* ===== verification/Go_IO.thy ===== *)
theory Go_IO
  imports Prelude
begin

text \<open>
  The parts of Go's standard library the framing code stands on: a byte stream as a reader
  sees it, \<open>io.ReadFull\<close>, \<open>binary.ReadUvarint\<close> and \<open>binary.PutUvarint\<close>, big-endian
  integers, and a writer that may accept a call only in part.

  A \<open>stream\<close> is what the peer has sent and not yet been read, with the error every read
  returns once those bytes are used up (end of file, a deadline, a closed connection).
\<close>

section \<open>Readers\<close>

record stream =
  pending :: bytes
  failing :: goerror

definition read_byte :: "stream \<Rightarrow> (byte \<times> stream) result" where
  "read_byte s = (case pending s of
     [] \<Rightarrow> Inl (failing s)
   | b # bs \<Rightarrow> Inr (b, s\<lparr>pending := bs\<rparr>))"

definition read_full :: "nat \<Rightarrow> stream \<Rightarrow> (bytes \<times> stream) result" where
  "read_full n s =
     (if n \<le> length (pending s)
      then Inr (take n (pending s), s\<lparr>pending := drop n (pending s)\<rparr>)
      else if pending s \<noteq> [] \<and> failing s = Err EOF then Inl (Err UnexpectedEOF)
      else Inl (failing s))"

text \<open>\<open>consumed cs s s'\<close>: reading took exactly the bytes \<open>cs\<close> off the front.\<close>

definition consumed :: "bytes \<Rightarrow> stream \<Rightarrow> stream \<Rightarrow> bool" where
  "consumed cs s s' \<longleftrightarrow> pending s = cs @ pending s' \<and> s' = s\<lparr>pending := pending s'\<rparr>"

lemma consumed_trans:
  "consumed cs s s1 \<Longrightarrow> consumed ds s1 s2 \<Longrightarrow> consumed (cs @ ds) s s2"
  by (auto simp: consumed_def intro: stream.equality)

lemma read_byte_Cons [codec_simps]:
  "read_byte (s\<lparr>pending := b # bs\<rparr>) = Inr (b, s\<lparr>pending := bs\<rparr>)"
  by (simp add: read_byte_def)

lemma read_full_append [codec_simps]:
  "length xs = n \<Longrightarrow> read_full n (s\<lparr>pending := xs @ ys\<rparr>) = Inr (xs, s\<lparr>pending := ys\<rparr>)"
  by (auto simp: read_full_def)

lemma read_byte_SomeD: "read_byte s = Inr (b, s') \<Longrightarrow> consumed [b] s s'"
  by (cases "pending s") (auto simp: read_byte_def consumed_def)

lemma read_full_SomeD: "read_full n s = Inr (xs, s') \<Longrightarrow> consumed xs s s' \<and> length xs = n"
  by (auto simp: read_full_def consumed_def split: if_splits)

lemma read_byte_extend:
  "read_byte s = Inr (b, s') \<Longrightarrow>
    read_byte (s\<lparr>pending := pending s @ ext\<rparr>) = Inr (b, s'\<lparr>pending := pending s' @ ext\<rparr>)"
  by (cases "pending s") (auto simp: read_byte_def)

lemma read_full_extend:
  "read_full n s = Inr (xs, s') \<Longrightarrow>
    read_full n (s\<lparr>pending := pending s @ ext\<rparr>) = Inr (xs, s'\<lparr>pending := pending s' @ ext\<rparr>)"
  by (auto simp: read_full_def split: if_splits)

lemma read_full_short:
  "length (pending s) < n \<Longrightarrow> \<exists>e. read_full n s = Inl e"
  by (simp add: read_full_def)

section \<open>Unsigned varints\<close>

text \<open>\<open>binary.PutUvarint\<close>: seven bits a byte, least significant group first.\<close>

function put_uvarint :: "u64 \<Rightarrow> bytes" where
  "put_uvarint x =
     (if 0x80 \<le> x then (ucast x OR 0x80) # put_uvarint (drop_bit 7 x) else [ucast x])"
  by pat_completeness auto
termination
proof (relation "measure unat")
  fix x :: u64
  assume "0x80 \<le> x"
  then have "0 < unat x" by (simp add: word_le_nat_alt)
  then have "unat x div 128 < unat x" by simp
  moreover have "unat (drop_bit 7 x) = unat x div 128"
    by (simp only: unat_drop_bit_eq) (simp add: drop_bit_eq_div)
  ultimately show "(drop_bit 7 x, x) \<in> measure unat" by simp
qed simp

declare put_uvarint.simps [simp del]

text \<open>\<open>binary.ReadUvarint\<close>: at most ten bytes, the tenth at most one.\<close>

function uvarint_from :: "nat \<Rightarrow> u64 \<Rightarrow> stream \<Rightarrow> (u64 \<times> stream) result" where
  "uvarint_from i x s =
     (if 10 \<le> i then Fail UvarintOverflow
      else case read_byte s of
        Inl e \<Rightarrow> Inl (if 0 < i \<and> e = Err EOF then Err UnexpectedEOF else e)
      | Inr (b, s') \<Rightarrow>
          if b < 0x80
          then if i = 9 \<and> 1 < b then Fail UvarintOverflow
               else Inr (x OR push_bit (7 * i) (ucast b), s')
          else uvarint_from (Suc i) (x OR push_bit (7 * i) (ucast (b AND 0x7f))) s')"
  by pat_completeness auto
termination by (relation "measure (\<lambda>(i, x, s). 10 - i)") auto

declare uvarint_from.simps [simp del]

definition read_uvarint :: "stream \<Rightarrow> (u64 \<times> stream) result" where
  "read_uvarint s = uvarint_from 0 0 s"

lemma uvarint_split_bits:
  "(y AND 0x7f) OR push_bit 7 (drop_bit 7 y) = (y :: u64)"
proof -
  have m: "(0x7f :: u64) = mask 7" by (simp add: mask_eq_exp_minus_1)
  show ?thesis
    unfolding m by (rule bit_word_eqI)
      (auto simp: bit_and_iff bit_or_iff bit_push_bit_iff bit_drop_bit_eq bit_mask_iff,
       metis le_add_diff_inverse not_less)
qed

lemma uvarint_low_bits:
  "ucast (((ucast y :: byte) OR 0x80) AND 0x7f) = (y AND 0x7f :: u64)"
proof -
  have m: "(0x7f :: byte) = mask 7" "(0x7f :: u64) = mask 7"
    by (simp_all add: mask_eq_exp_minus_1)
  have h: "\<not> bit (0x80 :: byte) n" if "n < 7" for n
  proof -
    from that have "n \<in> {0, 1, 2, 3, 4, 5, 6}" by auto
    then show ?thesis by auto
  qed
  show ?thesis
    unfolding m by (rule bit_word_eqI)
      (auto simp: bit_and_iff bit_or_iff bit_mask_iff bit_ucast_iff dest: h)
qed

lemma uvarint_high_bit: "\<not> ((ucast (y :: u64) :: byte) OR 0x80) < 0x80"
proof -
  have "(0x80 :: byte) \<le> 0x80 OR ucast y" by (rule le_word_or2)
  then show ?thesis by (simp add: or.commute)
qed

lemma put_uvarint_not_Nil [simp]: "put_uvarint x \<noteq> []"
  by (subst put_uvarint.simps) simp

text \<open>
  Reading back a varint from any position: \<open>x\<close> holds the groups read before group \<open>i\<close>,
  and the value still to be read fits the bits that are left.
\<close>

lemma uvarint_from_put:
  assumes "i \<le> 9" and "unat y < 2 ^ (64 - 7 * i)"
  shows "uvarint_from i x (s\<lparr>pending := put_uvarint y @ rest\<rparr>)
       = Inr (x OR push_bit (7 * i) y, s\<lparr>pending := rest\<rparr>)"
  using assms
proof (induction y arbitrary: i x rule: put_uvarint.induct)
  case (1 y)
  show ?case
  proof (cases "0x80 \<le> y")
    case False
    then have lt: "y < 0x80" by simp
    then have small: "unat y < 128" by (simp add: word_less_nat_alt)
    then have b: "(ucast y :: byte) < 0x80"
      by (simp add: word_less_nat_alt unsigned_ucast_eq take_bit_nat_eq_self)
    have byte: "unat (ucast y :: byte) = unat y"
      using small by (simp add: unsigned_ucast_eq take_bit_nat_eq_self)
    have cast_back: "ucast (ucast y :: byte) = y"
      using small by (simp only: word_unat_eq_iff unsigned_ucast_eq)
        (simp add: unsigned_take_bit_eq take_bit_nat_eq_self)
    have top: "\<not> (i = 9 \<and> 1 < (ucast y :: byte))"
      using 1(3) by (auto simp: word_less_nat_alt byte)
    show ?thesis
      using False b top 1(2) cast_back
      by (simp add: put_uvarint.simps [of y] uvarint_from.simps [of i] codec_simps)
  next
    case True
    then have ge: "128 \<le> unat y" by (simp add: word_le_nat_alt)
    have i8: "i \<le> 8"
    proof (rule ccontr)
      assume "\<not> i \<le> 8"
      with 1(2) have "i = 9" by simp
      with 1(3) ge show False by simp
    qed
    have half: "unat (drop_bit 7 y) = unat y div 128"
      by (simp only: unat_drop_bit_eq) (simp add: drop_bit_eq_div)
    have "(2::nat) ^ (64 - 7 * i) = 128 * 2 ^ (64 - 7 * Suc i)"
    proof -
      have "64 - 7 * i = 7 + (64 - 7 * Suc i)" using i8 by simp
      then show ?thesis by (simp only: power_add) simp
    qed
    then have lt: "unat (drop_bit 7 y) < 2 ^ (64 - 7 * Suc i)"
      using 1(3) half by (simp add: div_less_iff_less_mult mult.commute)
    have step: "uvarint_from i x (s\<lparr>pending := put_uvarint y @ rest\<rparr>) =
        uvarint_from (Suc i) (x OR push_bit (7 * i) (y AND 0x7f))
          (s\<lparr>pending := put_uvarint (drop_bit 7 y) @ rest\<rparr>)"
      using True i8 uvarint_high_bit [of y]
      by (simp add: put_uvarint.simps [of y] uvarint_from.simps [of i] codec_simps
          uvarint_low_bits)
    have "push_bit (7 * i) (y AND 0x7f) OR push_bit (7 * Suc i) (drop_bit 7 y)
        = push_bit (7 * i) ((y AND 0x7f) OR push_bit 7 (drop_bit 7 y))"
      by (simp add: push_bit_or add.commute)
    also have "\<dots> = push_bit (7 * i) y" by (simp only: uvarint_split_bits)
    finally have join: "push_bit (7 * i) (y AND 0x7f) OR push_bit (7 * Suc i) (drop_bit 7 y)
        = push_bit (7 * i) y" .
    have "uvarint_from (Suc i) (x OR push_bit (7 * i) (y AND 0x7f))
          (s\<lparr>pending := put_uvarint (drop_bit 7 y) @ rest\<rparr>)
        = Inr ((x OR push_bit (7 * i) (y AND 0x7f)) OR push_bit (7 * Suc i) (drop_bit 7 y),
            s\<lparr>pending := rest\<rparr>)"
      using 1(1) [OF True _ lt] i8 by simp
    then show ?thesis
      unfolding step by (simp only: or.assoc join)
  qed
qed

lemma read_uvarint_put [codec_simps]:
  "read_uvarint (s\<lparr>pending := put_uvarint x @ rest\<rparr>) = Inr (x, s\<lparr>pending := rest\<rparr>)"
proof -
  have "unat x < 2 ^ (64 - 7 * 0)" using unsigned_less [of x] by simp
  from uvarint_from_put [OF _ this] show ?thesis
    by (simp add: read_uvarint_def)
qed

text \<open>
  The buffer a varint needs: ten bytes for any value, five for a 32-bit one. \<open>PutUvarint\<close>
  panics on a shorter buffer.
\<close>

lemma length_put_uvarint:
  assumes "unat x < 2 ^ (7 * Suc k)"
  shows "length (put_uvarint x) \<le> Suc k"
  using assms
proof (induction k arbitrary: x)
  case 0
  then have "\<not> 0x80 \<le> x" by (simp add: word_le_nat_alt)
  then show ?case by (simp add: put_uvarint.simps [of x])
next
  case (Suc k)
  have "unat (drop_bit 7 x) = unat x div 128"
    by (simp only: unat_drop_bit_eq) (simp add: drop_bit_eq_div)
  moreover have "unat x < 2 ^ (7 * Suc k) * 128"
    using Suc.prems by (simp add: power_add mult.commute)
  ultimately have "unat (drop_bit 7 x) < 2 ^ (7 * Suc k)"
    by (simp add: div_less_iff_less_mult)
  then have "length (put_uvarint (drop_bit 7 x)) \<le> Suc k" by (rule Suc.IH)
  then show ?case by (simp add: put_uvarint.simps [of x])
qed

lemma length_put_uvarint_64: "length (put_uvarint x) \<le> 10"
proof -
  have "unat x < 2 ^ 64" using unsigned_less [of x] by simp
  also have "\<dots> < (2 :: nat) ^ (7 * Suc 9)" by simp
  finally have "unat x < 2 ^ (7 * Suc 9)" .
  from length_put_uvarint [OF this] show ?thesis by simp
qed

lemma length_put_uvarint_32: "length (put_uvarint (ucast (t :: u32))) \<le> 5"
proof -
  have "unat (ucast t :: u64) < 2 ^ 32" by (simp only: unat_u32_u64 u32_bound)
  then have "unat (ucast t :: u64) < 2 ^ (7 * Suc 4)" by simp
  from length_put_uvarint [OF this] show ?thesis by simp
qed

lemma uvarint_from_consumes:
  assumes "uvarint_from i x s = Inr (v, s')"
  shows "\<exists>cs. cs \<noteq> [] \<and> consumed cs s s'"
  using assms
proof (induction i x s rule: uvarint_from.induct)
  case (1 i x s)
  have lt: "\<not> 10 \<le> i" using 1(2) by (auto simp: uvarint_from.simps [of i x s] split: if_splits)
  then obtain b s1 where rb: "read_byte s = Inr (b, s1)"
    using 1(2) by (auto simp: uvarint_from.simps [of i x s] split: sum.splits)
  note rd = read_byte_SomeD [OF rb]
  show ?case
  proof (cases "b < 0x80")
    case True
    then have "s' = s1" using 1(2) lt rb
      by (auto simp: uvarint_from.simps [of i x s] split: if_splits)
    then show ?thesis using rd by blast
  next
    case False
    then have "uvarint_from (Suc i) (x OR push_bit (7 * i) (ucast (b AND 0x7f))) s1
        = Inr (v, s')"
      using 1(2) lt rb by (simp add: uvarint_from.simps [of i x s])
    from 1(1) [OF lt rb refl False this] obtain cs
      where "consumed cs s1 s'" by blast
    from consumed_trans [OF rd this] show ?thesis by (intro exI [of _ "b # cs"]) simp
  qed
qed

lemma read_uvarint_SomeD:
  "read_uvarint s = Inr (v, s') \<Longrightarrow> \<exists>cs. cs \<noteq> [] \<and> consumed cs s s'"
  unfolding read_uvarint_def by (rule uvarint_from_consumes)

lemma uvarint_from_extend:
  "uvarint_from i x s = Inr (v, s') \<Longrightarrow>
    uvarint_from i x (s\<lparr>pending := pending s @ ext\<rparr>) = Inr (v, s'\<lparr>pending := pending s' @ ext\<rparr>)"
proof (induction i x s rule: uvarint_from.induct)
  case (1 i x s)
  have lt: "\<not> 10 \<le> i" using 1(2) by (auto simp: uvarint_from.simps [of i x s] split: if_splits)
  then obtain b s1 where rb: "read_byte s = Inr (b, s1)"
    using 1(2) by (auto simp: uvarint_from.simps [of i x s] split: sum.splits)
  note re = read_byte_extend [OF rb, of ext]
  show ?case
  proof (cases "b < 0x80")
    case True
    then show ?thesis using 1(2) lt rb re
      by (auto simp: uvarint_from.simps [of i x] split: if_splits)
  next
    case False
    then have "uvarint_from (Suc i) (x OR push_bit (7 * i) (ucast (b AND 0x7f))) s1
        = Inr (v, s')"
      using 1(2) lt rb by (simp add: uvarint_from.simps [of i x s])
    from 1(1) [OF lt rb refl False this] show ?thesis using False lt re
      by (simp add: uvarint_from.simps [of i x])
  qed
qed

lemma read_uvarint_extend:
  "read_uvarint s = Inr (v, s') \<Longrightarrow>
    read_uvarint (s\<lparr>pending := pending s @ ext\<rparr>) = Inr (v, s'\<lparr>pending := pending s' @ ext\<rparr>)"
  unfolding read_uvarint_def by (rule uvarint_from_extend)

section \<open>Big-endian integers\<close>

definition be_put16 :: "u16 \<Rightarrow> bytes" where
  "be_put16 v = [ucast (drop_bit 8 v), ucast v]"

definition be_get16 :: "byte \<Rightarrow> byte \<Rightarrow> u16" where
  "be_get16 hi lo = push_bit 8 (ucast hi) OR ucast lo"

definition be_put32 :: "u32 \<Rightarrow> bytes" where
  "be_put32 v = [ucast (drop_bit 24 v), ucast (drop_bit 16 v), ucast (drop_bit 8 v), ucast v]"

lemma length_be_put16 [simp]: "length (be_put16 v) = 2"
  by (simp add: be_put16_def)

lemma length_be_put32 [simp]: "length (be_put32 v) = 4"
  by (simp add: be_put32_def)

lemma be_get16_put16 [simp]: "be_get16 (ucast (drop_bit 8 v)) (ucast v) = (v :: u16)"
proof (rule bit_word_eqI)
  fix n
  assume "n < LENGTH(16)"
  then show "bit (be_get16 (ucast (drop_bit 8 v)) (ucast v)) n = bit v n"
    by (cases "n < 8")
      (auto simp: be_get16_def bit_or_iff bit_push_bit_iff bit_ucast_iff bit_drop_bit_eq)
qed

lemma unat_be_get16: "unat (be_get16 hi lo) = 256 * unat hi + unat lo"
proof -
  have "push_bit 8 (ucast hi :: u16) AND ucast lo = 0"
    by (rule bit_word_eqI) (auto simp: bit_and_iff bit_push_bit_iff bit_ucast_iff
        dest: bit_imp_le_length)
  then have "be_get16 hi lo = push_bit 8 (ucast hi) + ucast lo"
    unfolding be_get16_def by (rule disjunctive_add_eq_or [symmetric])
  then have "be_get16 hi lo = 256 * ucast hi + ucast lo"
    by (simp add: push_bit_eq_mult mult.commute)
  moreover have "unat (ucast hi :: u16) = unat hi" "unat (ucast lo :: u16) = unat lo"
    by (simp_all add: unsigned_ucast_eq take_bit_nat_eq_self byte_lt_65536)
  moreover have "256 * unat hi + unat lo < 65536"
    using byte_lt_256 [of hi] byte_lt_256 [of lo] by linarith
  ultimately show ?thesis by (simp add: unat_word_ariths)
qed

section \<open>Writers\<close>

text \<open>
  A connection as a writer: what it has transmitted, and the outcome of each later call, a
  byte count and an error. A call that finds no outcome listed takes all it is given, so the
  empty list is a connection that never fails. By the \<open>io.Writer\<close> contract a call takes
  at most the bytes it is given.
\<close>

record writer =
  sent :: bytes
  outcomes :: "(nat \<times> goerror option) list"

definition write_once :: "writer \<Rightarrow> bytes \<Rightarrow> nat \<times> goerror option \<times> writer" where
  "write_once w data = (case outcomes w of
     [] \<Rightarrow> (length data, None, w\<lparr>sent := sent w @ data\<rparr>)
   | (n, e) # os \<Rightarrow>
       (min n (length data), e, w\<lparr>sent := sent w @ take n data, outcomes := os\<rparr>))"

text \<open>\<open>writeFull\<close> of the wire package.\<close>

function write_full :: "writer \<Rightarrow> bytes \<Rightarrow> goerror option \<times> writer" where
  "write_full w data =
     (if data = [] then (None, w)
      else case write_once w data of
        (n, Some e, w') \<Rightarrow> (Some e, w')
      | (n, None, w') \<Rightarrow>
          if n = 0 then (Some (Err UnexpectedEOF), w') else write_full w' (drop n data))"
  by pat_completeness auto
termination by (relation "measure (\<lambda>(w, data). length data)") auto

declare write_full.simps [simp del]

lemma write_once_sent:
  "write_once w data = (n, e, w') \<Longrightarrow> sent w' = sent w @ take n data \<and> n \<le> length data"
  by (auto simp: write_once_def min_def split: list.splits)

lemma write_full_sent:
  "write_full w data = (e, w') \<Longrightarrow>
     \<exists>k \<le> length data. sent w' = sent w @ take k data \<and> (e = None \<longrightarrow> k = length data)"
proof (induction w data arbitrary: e w' rule: write_full.induct)
  case (1 w data)
  show ?case
  proof (cases "data = []")
    case True
    then show ?thesis using 1(2) by (simp add: write_full.simps [of w "[]"])
  next
    case False
    obtain n r w1 where once: "write_once w data = (n, r, w1)" by (metis prod_cases3)
    note sent1 = write_once_sent [OF once]
    show ?thesis
    proof (cases "r = None \<and> n \<noteq> 0")
      case True
      then have "write_full w1 (drop n data) = (e, w')"
        using 1(2) False once by (simp add: write_full.simps [of w data])
      from 1(1) [OF False once [symmetric] refl _ _ this] True obtain k
        where k: "k \<le> length (drop n data)" "sent w' = sent w1 @ take k (drop n data)"
          "e = None \<longrightarrow> k = length (drop n data)" by auto
      then have "sent w' = sent w @ take (n + k) data"
        using sent1 by (simp add: take_add)
      then show ?thesis using k sent1 by (intro exI [of _ "n + k"]) auto
    next
      case stop: False
      then have "w' = w1" "e \<noteq> None" using 1(2) False once
        by (auto simp: write_full.simps [of w data] split: option.splits)
      then show ?thesis using sent1 by blast
    qed
  qed
qed

lemma write_full_ok: "outcomes w = [] \<Longrightarrow> write_full w data = (None, w\<lparr>sent := sent w @ data\<rparr>)"
  by (simp add: write_full.simps [of w data] write_full.simps [of _ "[]"] write_once_def)

section \<open>Codecs over a stream\<close>

text \<open>
  What every framing of the protocol promises: a value that encodes is read back from the head
  of the stream, whatever follows it, and a read that succeeds has consumed a non-empty prefix
  and nothing else.
\<close>

fun encode_all :: "('a \<Rightarrow> bytes result) \<Rightarrow> 'a list \<Rightarrow> bytes result" where
  "encode_all enc [] = Inr []"
| "encode_all enc (x # xs) =
     (case enc x of Inl e \<Rightarrow> Inl e
      | Inr bs \<Rightarrow> (case encode_all enc xs of Inl e \<Rightarrow> Inl e | Inr cs \<Rightarrow> Inr (bs @ cs)))"

fun decode_many :: "(stream \<Rightarrow> ('a \<times> stream) result) \<Rightarrow> nat \<Rightarrow> stream \<Rightarrow> ('a list \<times> stream) result"
  where
  "decode_many dec 0 s = Inr ([], s)"
| "decode_many dec (Suc n) s =
     (case dec s of Inl e \<Rightarrow> Inl e
      | Inr (x, s') \<Rightarrow> (case decode_many dec n s' of Inl e \<Rightarrow> Inl e
                         | Inr (xs, s'') \<Rightarrow> Inr (x # xs, s'')))"

locale stream_codec =
  fixes enc :: "'a \<Rightarrow> bytes result"
    and dec :: "stream \<Rightarrow> ('a \<times> stream) result"
    and valid :: "'a \<Rightarrow> bool"
  assumes dec_enc: "\<lbrakk>valid x; enc x = Inr bs\<rbrakk>
      \<Longrightarrow> dec (s\<lparr>pending := bs @ rest\<rparr>) = Inr (x, s\<lparr>pending := rest\<rparr>)"
    and dec_consumes: "dec s = Inr (x, s')
      \<Longrightarrow> \<exists>cs. cs \<noteq> [] \<and> consumed cs s s'"
    and dec_extend: "dec s = Inr (x, s') \<Longrightarrow>
      dec (s\<lparr>pending := pending s @ ext\<rparr>) = Inr (x, s'\<lparr>pending := pending s' @ ext\<rparr>)"
begin

lemma decode_encoded:
  assumes "\<forall>x \<in> set xs. valid x" and "encode_all enc xs = Inr bs"
  shows "decode_many dec (length xs) (s\<lparr>pending := bs @ rest\<rparr>) = Inr (xs, s\<lparr>pending := rest\<rparr>)"
  using assms
proof (induction xs arbitrary: bs)
  case Nil
  then show ?case by simp
next
  case (Cons x xs)
  then obtain b c where b: "enc x = Inr b" and c: "encode_all enc xs = Inr c" "bs = b @ c"
    by (auto split: sum.splits)
  have "dec (s\<lparr>pending := b @ c @ rest\<rparr>) = Inr (x, s\<lparr>pending := c @ rest\<rparr>)"
    using Cons.prems(1) b by (intro dec_enc) auto
  then show ?case using Cons c by simp
qed

text \<open>No encoding is a proper prefix of another: a receiver always knows where a value ends.\<close>

lemma enc_prefix_free:
  assumes "valid x" "valid y" "enc x = Inr bs" "enc y = Inr (bs @ cs)"
  shows "x = y \<and> cs = []"
proof -
  let ?s = "\<lparr>pending = [], failing = Err EOF\<rparr>"
  have "dec (?s\<lparr>pending := bs @ cs\<rparr>) = Inr (x, ?s\<lparr>pending := cs\<rparr>)"
    using assms(1,3) by (rule dec_enc)
  moreover have "dec (?s\<lparr>pending := (bs @ cs) @ []\<rparr>) = Inr (y, ?s\<lparr>pending := []\<rparr>)"
    using assms(2,4) by (rule dec_enc)
  ultimately show ?thesis by simp
qed

text \<open>A truncated encoding is an error, never some other value.\<close>

lemma truncated_fails:
  assumes "valid x" "enc x = Inr (bs @ cs)" "cs \<noteq> []"
  shows "\<exists>e. dec (s\<lparr>pending := bs\<rparr>) = Inl e"
proof (cases "dec (s\<lparr>pending := bs\<rparr>)")
  case (Inr r)
  then obtain y s' where "dec (s\<lparr>pending := bs\<rparr>) = Inr (y, s')" by (cases r) auto
  from dec_extend [OF this, of cs]
  have "dec (s\<lparr>pending := bs @ cs\<rparr>) = Inr (y, s'\<lparr>pending := pending s' @ cs\<rparr>)" by simp
  moreover have "dec (s\<lparr>pending := (bs @ cs) @ []\<rparr>) = Inr (x, s\<lparr>pending := []\<rparr>)"
    using assms(1,2) by (rule dec_enc)
  ultimately have "pending (s'\<lparr>pending := pending s' @ cs\<rparr>) = pending (s\<lparr>pending := []\<rparr>)"
    by simp
  with assms(3) show ?thesis by simp
qed simp

lemma dec_shrinks: "dec s = Inr (x, s') \<Longrightarrow> length (pending s') < length (pending s)"
  using dec_consumes [of s x s'] by (auto simp: consumed_def)

lemma decode_many_consumes:
  "decode_many dec n s = Inr (xs, s') \<Longrightarrow>
    length xs = n \<and> n + length (pending s') \<le> length (pending s)"
proof (induction n arbitrary: s xs)
  case 0
  then show ?case by simp
next
  case (Suc n)
  then obtain x s1 ys where "dec s = Inr (x, s1)" "decode_many dec n s1 = Inr (ys, s')" "xs = x # ys"
    by (auto split: sum.splits)
  then show ?case using Suc.IH [of s1 ys] dec_shrinks [of s x s1] by simp
qed

end

interpretation uvarint: stream_codec "\<lambda>x. Inr (put_uvarint x)" read_uvarint "\<lambda>_. True"
  by unfold_locales (auto simp: codec_simps dest: read_uvarint_SomeD read_uvarint_extend)

end
