(* ===== verification/Plain_Frame.thy ===== *)
theory Plain_Frame
  imports Go_IO
begin

text \<open>
  The plaintext framing of \<open>internal/wire/plain.go\<close>: a zero byte, the payload length and
  the message type as varints, the payload. The framer's only own state is its frame bound;
  the connection is the stream read from and the writer written to. A read error ends the
  session in every caller, so a failed read returns no stream.
\<close>

section \<open>The framer\<close>

definition DefaultMaxFrameSize :: int where
  "DefaultMaxFrameSize = 64 * 1024"

record plain_framer =
  pf_maxFrame :: u64

definition NewPlainFramer :: "int \<Rightarrow> plain_framer" where
  "NewPlainFramer maxFrame =
     (let m = (if maxFrame \<le> 0 \<or> DefaultMaxFrameSize < maxFrame
               then DefaultMaxFrameSize else maxFrame)
      in \<lparr>pf_maxFrame = word_of_int m\<rparr>)"

definition plain_ReadFrame :: "plain_framer \<Rightarrow> stream \<Rightarrow> ((u32 \<times> bytes) \<times> stream) result" where
  "plain_ReadFrame f s =
     unless_err (read_byte s) id (\<lambda>(preamble, s).
     if preamble \<noteq> 0 then Inl (Errorf ''%w: plaintext preamble'' [Err ErrMalformedFrame])
     else unless_err (read_uvarint s)
       (\<lambda>err. Errorf ''%w: payload length: %w'' [Err ErrMalformedFrame, err]) (\<lambda>(sz, s).
     if pf_maxFrame f < sz then Fail ErrFrameTooLarge
     else unless_err (read_uvarint s)
       (\<lambda>err. Errorf ''%w: message type: %w'' [Err ErrMalformedFrame, err]) (\<lambda>(messageType, s).
     if 0xFFFFFFFF < messageType
     then Inl (Errorf ''%w: message type'' [Err ErrMalformedFrame])
     else unless_err (read_full (unat sz) s)
       (\<lambda>err. Errorf ''%w: truncated payload: %w'' [Err ErrMalformedFrame, err]) (\<lambda>(payload, s).
     Inr ((ucast messageType, payload), s)))))"

text \<open>
  \<open>WriteFrame\<close> fills one buffer: \<open>copy\<close> stops at the end of the destination, and
  \<open>binary.PutUvarint\<close> and the final re-slicing panic (\<open>None\<close>) when the buffer is too
  short.
\<close>

definition copy_at :: "bytes \<Rightarrow> nat \<Rightarrow> bytes \<Rightarrow> bytes" where
  "copy_at buf off src =
     (let n = min (length src) (length buf - off)
      in take off buf @ take n src @ drop (off + n) buf)"

definition put_uvarint_at :: "bytes \<Rightarrow> nat \<Rightarrow> u64 \<Rightarrow> (bytes \<times> nat) option" where
  "put_uvarint_at buf off x =
     (if off + length (put_uvarint x) \<le> length buf
      then Some (copy_at buf off (put_uvarint x), length (put_uvarint x)) else None)"

definition plain_frame_buffer :: "u32 \<Rightarrow> bytes \<Rightarrow> bytes option" where
  "plain_frame_buffer messageType payload =
     (let buffer = replicate (1 + 10 + 5 + length payload) 0; offset = 1
      in case put_uvarint_at buffer offset (of_nat (length payload)) of
           None \<Rightarrow> None
         | Some (buffer, n) \<Rightarrow>
             (let offset = offset + n
              in case put_uvarint_at buffer offset (ucast messageType) of
                   None \<Rightarrow> None
                 | Some (buffer, n) \<Rightarrow>
                     (let offset = offset + n; buffer = copy_at buffer offset payload
                      in if offset + length payload \<le> length buffer
                         then Some (take (offset + length payload) buffer) else None)))"

definition plain_WriteFrame ::
    "plain_framer \<Rightarrow> u32 \<Rightarrow> bytes \<Rightarrow> writer \<Rightarrow> (goerror option \<times> writer) option" where
  "plain_WriteFrame f messageType payload w =
     (if unat (pf_maxFrame f) < length payload then Some (Some (Err ErrFrameTooLarge), w)
      else map_option (write_full w) (plain_frame_buffer messageType payload))"

section \<open>The frame as a value\<close>

text \<open>The bytes a frame is on the wire, as one expression.\<close>

definition plain_encode :: "plain_framer \<Rightarrow> u32 \<times> bytes \<Rightarrow> bytes result" where
  "plain_encode f m =
     (if unat (pf_maxFrame f) < length (snd m) then Fail ErrFrameTooLarge
      else Inr (0 # put_uvarint (of_nat (length (snd m))) @ put_uvarint (ucast (fst m)) @ snd m))"

lemma copy_at_zeros:
  "length src \<le> k \<Longrightarrow>
    copy_at (pre @ replicate k 0) (length pre) src = pre @ src @ replicate (k - length src) 0"
  by (simp add: copy_at_def drop_replicate)

lemma put_uvarint_at_zeros:
  "length (put_uvarint x) \<le> k \<Longrightarrow>
    put_uvarint_at (pre @ replicate k 0) (length pre) x =
      Some (pre @ put_uvarint x @ replicate (k - length (put_uvarint x)) 0, length (put_uvarint x))"
  by (simp add: put_uvarint_at_def copy_at_zeros)

lemma plain_frame_buffer_eq:
  "plain_frame_buffer t p =
     Some (0 # put_uvarint (of_nat (length p)) @ put_uvarint (ucast t) @ p)"
proof -
  define a where "a = put_uvarint (of_nat (length p))"
  define b where "b = put_uvarint (ucast t)"
  have la: "length a \<le> 10" and lb: "length b \<le> 5"
    unfolding a_def b_def by (rule length_put_uvarint_64, rule length_put_uvarint_32)
  have start: "replicate (1 + 10 + 5 + length p) (0::byte) = [0] @ replicate (15 + length p) 0"
    by (simp add: numeral_eq_Suc)
  have one: "put_uvarint_at ([0] @ replicate (15 + length p) 0) 1 (of_nat (length p)) =
      Some (([0] @ a) @ replicate (15 + length p - length a) 0, length a)"
    using put_uvarint_at_zeros [of "of_nat (length p)" "15 + length p" "[0]"] la
    by (simp add: a_def)
  have two: "put_uvarint_at (([0] @ a) @ replicate (15 + length p - length a) 0)
      (1 + length a) (ucast t) =
      Some ((([0] @ a) @ b) @ replicate (15 + length p - length a - length b) 0, length b)"
    using put_uvarint_at_zeros [of "ucast t" "15 + length p - length a" "[0] @ a"] la lb
    by (simp add: b_def)
  have three: "copy_at ((([0] @ a) @ b) @ replicate (15 + length p - length a - length b) 0)
      (1 + length a + length b) p =
      ((([0] @ a) @ b) @ p) @ replicate (15 + length p - length a - length b - length p) 0"
    using copy_at_zeros [of p "15 + length p - length a - length b" "([0] @ a) @ b"] la lb
    by simp
  show ?thesis
    unfolding plain_frame_buffer_def Let_def start one two prod.case option.case three
    using la lb by (simp add: a_def b_def)
qed

lemma plain_WriteFrame_encode:
  "plain_WriteFrame f t p w =
     Some (case plain_encode f (t, p) of Inl e \<Rightarrow> (Some e, w) | Inr bs \<Rightarrow> write_full w bs)"
  by (simp add: plain_WriteFrame_def plain_encode_def plain_frame_buffer_eq)

lemma plain_dec_enc:
  assumes "plain_encode f m = Inr bs"
  shows "plain_ReadFrame f (s\<lparr>pending := bs @ rest\<rparr>) = Inr (m, s\<lparr>pending := rest\<rparr>)"
proof -
  obtain t p where m: "m = (t, p)" by (cases m)
  let ?n = "of_nat (length p) :: u64"
  from assms m have fit: "length p \<le> unat (pf_maxFrame f)"
    and bs: "bs = 0 # put_uvarint ?n @ put_uvarint (ucast t) @ p"
    by (auto simp: plain_encode_def split: if_splits)
  have "length p < 2 ^ 64" using fit u64_bound by (rule order.strict_trans1)
  then have n: "unat ?n = length p" by (simp add: unsigned_of_nat take_bit_nat_eq_self)
  then have le: "\<not> pf_maxFrame f < ?n" using fit by (simp add: word_less_nat_alt)
  have ty: "\<not> 0xFFFFFFFF < (ucast t :: u64)"
    using u32_bound [of t] by (simp add: word_less_nat_alt unat_u32_u64)
  show ?thesis
    unfolding m bs plain_ReadFrame_def
    using le ty n by (simp add: codec_simps)
qed

text \<open>The path of every successful read.\<close>

lemma plain_ReadFrame_SomeD:
  assumes "plain_ReadFrame f s = Inr ((t, p), s')"
  obtains s1 sz s2 mt s3 where "read_byte s = Inr (0, s1)" "read_uvarint s1 = Inr (sz, s2)"
    "sz \<le> pf_maxFrame f" "read_uvarint s2 = Inr (mt, s3)" "mt \<le> 0xFFFFFFFF"
    "read_full (unat sz) s3 = Inr (p, s')" "t = ucast mt"
  using assms by (auto simp: plain_ReadFrame_def unless_err_eq_Inr not_less split: if_splits)

lemma plain_ReadFrame_consumes:
  assumes "plain_ReadFrame f s = Inr (m, s')"
  shows "\<exists>cs. cs \<noteq> [] \<and> consumed cs s s'"
proof -
  obtain t p where "m = (t, p)" by (cases m)
  with assms obtain s1 sz s2 mt s3 where steps: "read_byte s = Inr (0, s1)"
    "read_uvarint s1 = Inr (sz, s2)" "read_uvarint s2 = Inr (mt, s3)"
    "read_full (unat sz) s3 = Inr (p, s')"
    by (auto elim: plain_ReadFrame_SomeD)
  from read_byte_SomeD [OF steps(1)] read_uvarint_SomeD [OF steps(2)]
    read_uvarint_SomeD [OF steps(3)] read_full_SomeD [OF steps(4)]
  obtain cs where "consumed ([0] @ cs) s s'" by (meson consumed_trans)
  then show ?thesis by (intro exI [of _ "[0] @ cs"]) simp
qed

lemma plain_ReadFrame_extend:
  assumes "plain_ReadFrame f s = Inr (m, s')"
  shows "plain_ReadFrame f (s\<lparr>pending := pending s @ ext\<rparr>) = Inr (m, s'\<lparr>pending := pending s' @ ext\<rparr>)"
proof -
  obtain t p where m: "m = (t, p)" by (cases m)
  with assms obtain s1 sz s2 mt s3 where steps: "read_byte s = Inr (0, s1)"
    "read_uvarint s1 = Inr (sz, s2)" "sz \<le> pf_maxFrame f" "read_uvarint s2 = Inr (mt, s3)"
    "mt \<le> 0xFFFFFFFF" "read_full (unat sz) s3 = Inr (p, s')" "t = ucast mt"
    by (auto elim: plain_ReadFrame_SomeD)
  then show ?thesis
    by (simp add: plain_ReadFrame_def m read_byte_extend read_uvarint_extend read_full_extend
        leD)
qed

interpretation plain: stream_codec "plain_encode f" "plain_ReadFrame f" "\<lambda>_. True" for f
  by unfold_locales
    (auto intro: plain_dec_enc plain_ReadFrame_consumes plain_ReadFrame_extend)

section \<open>Properties\<close>



text \<open>A frame accepted from the peer has a payload of at most the configured bound, never more
  than 64 KiB whatever bound the caller asked for, and the frame took at least its three header
  bytes and its payload off the stream.\<close>

theorem plain_read_bounds:
  assumes "plain_ReadFrame (NewPlainFramer n) s = Inr ((t, p), s')"
  shows "int (length p) \<le> (if 0 < n \<and> n \<le> DefaultMaxFrameSize then n else DefaultMaxFrameSize)
       \<and> length p + 3 + length (pending s') \<le> length (pending s)"
proof -
  from assms obtain s1 sz s2 mt s3 where steps: "read_byte s = Inr (0, s1)"
    "read_uvarint s1 = Inr (sz, s2)" "sz \<le> pf_maxFrame (NewPlainFramer n)"
    "read_uvarint s2 = Inr (mt, s3)" "read_full (unat sz) s3 = Inr (p, s')"
    by (rule plain_ReadFrame_SomeD)
  have "length (pending s) = Suc (length (pending s1))" "length (pending s2) < length (pending s1)"
    "length (pending s3) < length (pending s2)" "length (pending s3) = length p + length (pending s')"
    using read_byte_SomeD [OF steps(1)] read_uvarint_SomeD [OF steps(2)]
      read_uvarint_SomeD [OF steps(4)] read_full_SomeD [OF steps(5)]
    by (auto simp: consumed_def)
  moreover have "length p \<le> unat (pf_maxFrame (NewPlainFramer n))"
    using steps(3) read_full_SomeD [OF steps(5)] by (simp add: word_le_nat_alt)
  moreover have "int (unat (pf_maxFrame (NewPlainFramer n))) =
      (if 0 < n \<and> n \<le> DefaultMaxFrameSize then n else DefaultMaxFrameSize)"
    by (auto simp: NewPlainFramer_def DefaultMaxFrameSize_def Let_def unsigned_of_int
        take_bit_int_eq_self)
  ultimately show ?thesis by linarith
qed

theorem plain_read_bounds_witness:
  "int (length [8 :: byte, 1]) \<le> DefaultMaxFrameSize \<and> length [8 :: byte, 1] + 3 + 0 \<le> (5 :: nat)"
proof -
  have "plain_ReadFrame (NewPlainFramer 0) \<lparr>pending = [0, 2, 33, 8, 1], failing = Err EOF\<rparr>
      = Inr ((33, [8, 1]), \<lparr>pending = [], failing = Err EOF\<rparr>)"
    by (simp add: plain_ReadFrame_def NewPlainFramer_def DefaultMaxFrameSize_def read_byte_def
        read_uvarint_def uvarint_from.simps read_full_def)
  from plain_read_bounds [OF this] show ?thesis by (simp add: DefaultMaxFrameSize_def)
qed

text \<open>C32. Writing a frame never overruns the buffer it is built in. A payload over the bound is
  refused and nothing is transmitted; otherwise, however the connection splits the write, what is
  transmitted is a prefix of one frame, all of it when the write reports success, and the peer then
  reads back the same type and payload.\<close>

theorem plain_write_correct:
  "\<exists>e w'. plain_WriteFrame f t p w = Some (e, w') \<and>
     (if unat (pf_maxFrame f) < length p then e = Some (Err ErrFrameTooLarge) \<and> w' = w
      else \<exists>frame k. sent w' = sent w @ take k frame \<and>
        (case e of None \<Rightarrow> k = length frame | Some _ \<Rightarrow> True) \<and>
        (\<forall>s rest. plain_ReadFrame f (s\<lparr>pending := frame @ rest\<rparr>)
           = Inr ((t, p), s\<lparr>pending := rest\<rparr>)))"
proof (cases "plain_encode f (t, p)")
  case (Inl e)
  then show ?thesis by (simp add: plain_WriteFrame_encode plain_encode_def split: if_splits)
next
  case (Inr frame)
  then have fits: "\<not> unat (pf_maxFrame f) < length p"
    by (simp add: plain_encode_def split: if_splits)
  obtain e w' where w: "write_full w frame = (e, w')" by (cases "write_full w frame")
  from write_full_sent [OF this] obtain k
    where "sent w' = sent w @ take k frame" "e = None \<longrightarrow> k = length frame" by blast
  then show ?thesis
    using w Inr fits plain_dec_enc [OF Inr]
    by (cases e; auto simp: plain_WriteFrame_encode intro!: exI [of _ frame] exI [of _ k])
qed

text \<open>C31. A frame cut short anywhere is reported as an error; it is never delivered as some
  other message.\<close>

theorem plain_truncated_rejected:
  assumes "plain_encode f m = Inr (bs @ cs)" and "cs \<noteq> []"
  shows "\<exists>e. plain_ReadFrame f (s\<lparr>pending := bs\<rparr>) = Inl e"
  by (rule plain.truncated_fails [OF _ assms]) simp

theorem plain_truncated_rejected_witness:
  "\<exists>e. plain_ReadFrame (NewPlainFramer 0) \<lparr>pending = [0, 2, 33, 8], failing = Err EOF\<rparr> = Inl e"
proof -
  have "plain_encode (NewPlainFramer 0) (33, [8, 1]) = Inr ([0, 2, 33, 8] @ [1])"
    by (simp add: plain_encode_def NewPlainFramer_def DefaultMaxFrameSize_def
        put_uvarint.simps)
  from plain_truncated_rejected [OF this, of "\<lparr>pending = [], failing = Err EOF\<rparr>"]
  show ?thesis by simp
qed

text \<open>A header that announces more than the bound is refused on the header alone, before any
  of the payload is read, and the refusal is the frame-too-large error.\<close>

theorem plain_oversized_rejected:
  assumes "pf_maxFrame f < sz"
  shows "plain_ReadFrame f (s\<lparr>pending := 0 # put_uvarint sz @ rest\<rparr>) = Fail ErrFrameTooLarge"
  using assms by (simp add: plain_ReadFrame_def codec_simps)

theorem plain_oversized_rejected_witness:
  "plain_ReadFrame (NewPlainFramer 16)
     (\<lparr>pending = [], failing = Err EOF\<rparr>\<lparr>pending := 0 # put_uvarint 17 @ []\<rparr>)
   = Fail ErrFrameTooLarge"
proof -
  have "pf_maxFrame (NewPlainFramer 16) < 17"
    by (simp add: NewPlainFramer_def DefaultMaxFrameSize_def)
  then show ?thesis by (rule plain_oversized_rejected)
qed

end
