(* ===== verification/Base64.thy ===== *)
theory Base64
  imports Prelude
begin

text \<open>
  Go's \<open>base64.StdEncoding\<close>: \<open>EncodeToString\<close> and the \<open>Strict\<close> decoder, which skips
  carriage returns and line feeds, requires padding, and refuses non-zero trailing bits. Keys are
  configured, compared and redacted in this encoding.
\<close>

section \<open>Alphabet\<close>

definition b64_pad :: byte where
  "b64_pad = 61"

definition b64_char :: "nat \<Rightarrow> byte" where
  "b64_char n =
     (if n < 26 then of_nat (65 + n) else if n < 52 then of_nat (71 + n)
      else if n < 62 then of_nat (n - 4) else if n = 62 then 43 else 47)"

definition b64_val :: "byte \<Rightarrow> nat option" where
  "b64_val c =
     (let n = unat c
      in if 65 \<le> n \<and> n \<le> 90 then Some (n - 65)
         else if 97 \<le> n \<and> n \<le> 122 then Some (n - 71)
         else if 48 \<le> n \<and> n \<le> 57 then Some (n + 4)
         else if n = 43 then Some 62 else if n = 47 then Some 63 else None)"

lemma unat_of_nat_byte: "n < 256 \<Longrightarrow> unat (of_nat n :: byte) = n"
  by (simp add: unsigned_of_nat take_bit_nat_eq_self)

lemma unat_b64_char:
  "unat (b64_char n) =
     (if n < 26 then 65 + n else if n < 52 then 71 + n
      else if n < 62 then n - 4 else if n = 62 then 43 else 47)"
proof -
  consider "n < 26" | "26 \<le> n" "n < 52" | "52 \<le> n" "n < 62" | "62 \<le> n" by linarith
  then show ?thesis
  proof cases
    case 3
    then have "unat (of_nat (n - 4) :: byte) = n - 4" by (intro unat_of_nat_byte) simp
    with 3 show ?thesis by (simp add: b64_char_def)
  qed (use unat_of_nat_byte [of "65 + n"] unat_of_nat_byte [of "71 + n"]
       in \<open>simp_all add: b64_char_def\<close>)
qed

lemma b64_val_char: "n < 64 \<Longrightarrow> b64_val (b64_char n) = Some n"
  by (auto simp: b64_val_def Let_def unat_b64_char)

lemma b64_val_SomeD:
  assumes "b64_val c = Some n"
  shows "n < 64 \<and> b64_char n = c"
proof -
  have "n < 64 \<and> unat (b64_char n) = unat c"
    using assms by (auto simp: b64_val_def Let_def unat_b64_char split: if_splits)
  then show ?thesis by (simp add: word_unat_eq_iff)
qed

lemma b64_val_pad [simp]: "b64_val b64_pad = None"
  by (simp add: b64_val_def b64_pad_def)

section \<open>Encoder and strict decoder\<close>

text \<open>Three bytes as four sextets, and back.\<close>

definition sextets :: "nat \<Rightarrow> nat \<times> nat \<times> nat \<times> nat" where
  "sextets n = (n div 262144, n div 4096 mod 64, n div 64 mod 64, n mod 64)"

definition group24 :: "byte \<Rightarrow> byte \<Rightarrow> byte \<Rightarrow> nat" where
  "group24 a b c = 65536 * unat a + 256 * unat b + unat c"

fun b64_encode :: "bytes \<Rightarrow> bytes" where
  "b64_encode [] = []"
| "b64_encode [a] =
     (case sextets (group24 a 0 0) of (p, q, _, _) \<Rightarrow> [b64_char p, b64_char q, b64_pad, b64_pad])"
| "b64_encode [a, b] =
     (case sextets (group24 a b 0) of (p, q, r, _) \<Rightarrow>
        [b64_char p, b64_char q, b64_char r, b64_pad])"
| "b64_encode (a # b # c # rest) =
     (case sextets (group24 a b c) of (p, q, r, s) \<Rightarrow>
        [b64_char p, b64_char q, b64_char r, b64_char s] @ b64_encode rest)"

definition bytes24 :: "nat \<Rightarrow> nat \<Rightarrow> nat \<Rightarrow> nat \<Rightarrow> byte \<times> byte \<times> byte" where
  "bytes24 p q r s =
     (let n = 262144 * p + 4096 * q + 64 * r + s
      in (of_nat (n div 65536), of_nat (n div 256 mod 256), of_nat (n mod 256)))"

definition b64_strip :: "bytes \<Rightarrow> bytes" where
  "b64_strip = filter (\<lambda>v. v \<noteq> 13 \<and> v \<noteq> 10)"

fun b64_groups :: "bytes \<Rightarrow> bytes option" where
  "b64_groups [] = Some []"
| "b64_groups (c0 # c1 # c2 # c3 # rest) =
     (case (b64_val c0, b64_val c1) of
        (Some p, Some q) \<Rightarrow>
          if c2 = b64_pad then
            (if c3 = b64_pad \<and> rest = [] \<and> q mod 16 = 0
             then Some [fst (bytes24 p q 0 0)] else None)
          else (case b64_val c2 of
            None \<Rightarrow> None
          | Some r \<Rightarrow>
              if c3 = b64_pad then
                (if rest = [] \<and> r mod 4 = 0
                 then Some [fst (bytes24 p q r 0), fst (snd (bytes24 p q r 0))] else None)
              else (case (b64_val c3, b64_groups rest) of
                (Some s, Some bs) \<Rightarrow>
                  (case bytes24 p q r s of (x, y, z) \<Rightarrow> Some (x # y # z # bs))
              | _ \<Rightarrow> None))
      | _ \<Rightarrow> None)"
| "b64_groups _ = None"

definition b64_decode_strict :: "bytes \<Rightarrow> bytes option" where
  "b64_decode_strict txt = b64_groups (b64_strip txt)"

section \<open>The encoding is canonical\<close>

lemma digit_split: "n = k * a + b \<Longrightarrow> b < k \<Longrightarrow> n div k = a \<and> n mod k = (b :: nat)"
  by auto

lemma group24_bytes24:
  assumes "p < 64" "q < 64" "r < 64" "s < 64" "bytes24 p q r s = (x, y, z)"
  shows "sextets (group24 x y z) = (p, q, r, s)"
proof -
  define n where "n = 262144 * p + 4096 * q + 64 * r + s"
  have n: "n < 16777216" using assms(1-4) by (simp add: n_def)
  have xyz: "unat x = n div 65536" "unat y = n div 256 mod 256" "unat z = n mod 256"
    using assms(5) n unat_of_nat_byte [of "n div 65536"] unat_of_nat_byte [of "n div 256 mod 256"]
      unat_of_nat_byte [of "n mod 256"]
    by (auto simp: bytes24_def Let_def n_def [symmetric] div_less_iff_less_mult)
  have "n div 65536 = n div 256 div 256" by (simp add: div_mult2_eq [symmetric])
  moreover have "n = 256 * (n div 256) + n mod 256"
    "n div 256 = 256 * (n div 256 div 256) + n div 256 mod 256"
    by simp_all
  ultimately have "group24 x y z = n" unfolding group24_def xyz by linarith
  moreover have "n = 64 * (64 * (64 * p + q) + r) + s" by (simp add: n_def)
  from digit_split [OF this assms(4)]
  have one: "n mod 64 = s" "n div 64 = 64 * (64 * p + q) + r" by simp_all
  moreover from digit_split [OF one(2) assms(3)]
  have two: "n div 64 mod 64 = r" "n div 64 div 64 = 64 * p + q" by simp_all
  moreover from digit_split [OF two(2) assms(2)]
  have "n div 64 div 64 mod 64 = q" "n div 64 div 64 div 64 = p" by simp_all
  moreover have "n div 4096 = n div 64 div 64" "n div 262144 = n div 64 div 64 div 64"
    by (simp_all add: div_mult2_eq [symmetric])
  ultimately show ?thesis by (simp add: sextets_def)
qed

lemma bytes24_group24:
  assumes "sextets (group24 a b c) = (p, q, r, s)"
  shows "bytes24 p q r s = (a, b, c)"
proof -
  let ?n = "group24 a b c"
  have pqrs: "p = ?n div 64 div 64 div 64" "q = ?n div 64 div 64 mod 64"
    "r = ?n div 64 mod 64" "s = ?n mod 64"
    using assms by (auto simp: sextets_def div_mult2_eq [symmetric])
  have "?n = 64 * (?n div 64) + ?n mod 64" "?n div 64 = 64 * (?n div 64 div 64) + ?n div 64 mod 64"
    "?n div 64 div 64 = 64 * (?n div 64 div 64 div 64) + ?n div 64 div 64 mod 64"
    by simp_all
  then have n: "262144 * p + 4096 * q + 64 * r + s = ?n" unfolding pqrs by linarith
  have "?n = 256 * (256 * unat a + unat b) + unat c" by (simp add: group24_def)
  from digit_split [OF this] have one: "?n mod 256 = unat c" "?n div 256 = 256 * unat a + unat b"
    by simp_all
  from digit_split [OF one(2)] have "?n div 256 mod 256 = unat b" "?n div 256 div 256 = unat a"
    by simp_all
  moreover have "?n div 65536 = ?n div 256 div 256" by (simp add: div_mult2_eq [symmetric])
  ultimately show ?thesis by (simp add: bytes24_def n one)
qed

lemma sextets_lt:
  assumes "sextets (group24 a b c) = (p, q, r, s)"
  shows "p < 64 \<and> q < 64 \<and> r < 64 \<and> s < 64"
proof -
  have "group24 a b c < 64 * 262144"
    using byte_lt_256 [of a] byte_lt_256 [of b] byte_lt_256 [of c]
    unfolding group24_def by linarith
  then have "group24 a b c div 262144 < 64" by (simp add: div_less_iff_less_mult)
  then show ?thesis using assms by (auto simp: sextets_def)
qed

text \<open>The groups that end in padding: the sextets that are not written are zero.\<close>

lemma sextets_pad2:
  assumes "sextets (group24 a 0 0) = (p, q, r, s)"
  shows "q mod 16 = 0 \<and> r = 0 \<and> s = 0"
proof -
  let ?a = "unat a"
  have "group24 a 0 0 = 64 * (64 * (16 * ?a) + 0) + 0" by (simp add: group24_def)
  from digit_split [OF this] have one: "group24 a 0 0 mod 64 = 0"
    "group24 a 0 0 div 64 = 64 * (16 * ?a) + 0" by simp_all
  from digit_split [OF one(2)] have two: "group24 a 0 0 div 64 mod 64 = 0"
    "group24 a 0 0 div 64 div 64 = 16 * ?a" by simp_all
  have "q = 16 * ?a mod 64" "r = 0" "s = 0"
    using assms one two by (auto simp: sextets_def div_mult2_eq [symmetric])
  moreover have "16 * ?a mod 64 mod 16 = 0" by (simp add: mod_mod_cancel)
  ultimately show ?thesis by simp
qed

lemma sextets_pad1:
  assumes "sextets (group24 a b 0) = (p, q, r, s)"
  shows "r mod 4 = 0 \<and> s = 0"
proof -
  let ?n = "256 * unat a + unat b"
  have "group24 a b 0 = 64 * (4 * ?n) + 0" by (simp add: group24_def)
  from digit_split [OF this] have "group24 a b 0 mod 64 = 0" "group24 a b 0 div 64 = 4 * ?n"
    by simp_all
  then have "r = 4 * ?n mod 64" "s = 0" using assms by (auto simp: sextets_def)
  moreover have "4 * ?n mod 64 mod 4 = 0" by (simp add: mod_mod_cancel)
  ultimately show ?thesis by simp
qed

lemma bytes24_pad2:
  assumes "q mod 16 = 0" "bytes24 p q 0 0 = (x, y, z)"
  shows "y = 0 \<and> z = 0"
proof -
  from assms(1) obtain k where q: "q = 16 * k" by auto
  have "262144 * p + 4096 * q + 64 * 0 + 0 = 256 * (256 * (4 * p + k) + 0) + 0"
    by (simp add: q)
  from digit_split [OF this] have one: "(262144 * p + 4096 * q + 64 * 0 + 0) mod 256 = 0"
    "(262144 * p + 4096 * q + 64 * 0 + 0) div 256 = 256 * (4 * p + k) + 0" by simp_all
  from digit_split [OF one(2)]
  have "(262144 * p + 4096 * q + 64 * 0 + 0) div 256 mod 256 = 0" by simp
  with one show ?thesis using assms(2) by (auto simp: bytes24_def Let_def)
qed

lemma bytes24_pad1:
  assumes "r mod 4 = 0" "bytes24 p q r 0 = (x, y, z)"
  shows "z = 0"
proof -
  from assms(1) obtain k where r: "r = 4 * k" by auto
  have "262144 * p + 4096 * q + 64 * r + 0 = 256 * (1024 * p + 16 * q + k) + 0" by (simp add: r)
  from digit_split [OF this] have "(262144 * p + 4096 * q + 64 * r + 0) mod 256 = 0" by simp
  then show ?thesis using assms(2) by (auto simp: bytes24_def Let_def)
qed

lemma b64_char_not_pad: "n < 64 \<Longrightarrow> b64_char n \<noteq> b64_pad"
  using b64_val_char [of n] by auto

text \<open>Decoding reverses encoding, and every text the strict decoder accepts is, once its line
  breaks are dropped, the encoding of the bytes it yields.\<close>

lemma b64_groups_encode: "b64_groups (b64_encode bs) = Some bs"
proof (induction bs rule: b64_encode.induct)
  case 1
  then show ?case by simp
next
  case (2 a)
  obtain p q r s where x: "sextets (group24 a 0 0) = (p, q, r, s)" by (metis prod_cases4)
  show ?case
    using sextets_lt [OF x] sextets_pad2 [OF x] bytes24_group24 [OF x]
    by (simp add: x b64_val_char)
next
  case (3 a b)
  obtain p q r s where x: "sextets (group24 a b 0) = (p, q, r, s)" by (metis prod_cases4)
  show ?case
    using sextets_lt [OF x] sextets_pad1 [OF x] bytes24_group24 [OF x]
    by (simp add: x b64_val_char b64_char_not_pad)
next
  case (4 a b c rest)
  obtain p q r s where x: "sextets (group24 a b c) = (p, q, r, s)" by (metis prod_cases4)
  show ?case
    using sextets_lt [OF x] bytes24_group24 [OF x] 4
    by (simp add: x b64_val_char b64_char_not_pad)
qed

lemma b64_groups_canonical: "b64_groups cs = Some bs \<Longrightarrow> b64_encode bs = cs"
proof (induction cs arbitrary: bs rule: b64_groups.induct)
  case (2 c0 c1 c2 c3 rest)
  then obtain p q where pq: "b64_val c0 = Some p" "b64_val c1 = Some q"
    by (auto split: option.splits)
  note c01 = b64_val_SomeD [OF pq(1)] b64_val_SomeD [OF pq(2)]
  show ?case
  proof (cases "c2 = b64_pad")
    case True
    obtain x y z where b: "bytes24 p q 0 0 = (x, y, z)" by (metis prod_cases3)
    from 2(2) True pq b have "c3 = b64_pad" "rest = []" "q mod 16 = 0" "bs = [x]"
      by (auto split: if_splits)
    moreover from this have "y = 0 \<and> z = 0" using b by (intro bytes24_pad2)
    ultimately show ?thesis
      using True b c01 group24_bytes24 [of p q 0 0 x y z] by auto
  next
    case nopad: False
    with 2(2) pq obtain r where r: "b64_val c2 = Some r" by (auto split: option.splits)
    note c2 = b64_val_SomeD [OF r]
    show ?thesis
    proof (cases "c3 = b64_pad")
      case True
      obtain x y z where b: "bytes24 p q r 0 = (x, y, z)" by (metis prod_cases3)
      from 2(2) True nopad pq r b have "rest = []" "r mod 4 = 0" "bs = [x, y]"
        by (auto split: if_splits)
      moreover from this have "z = 0" using b by (intro bytes24_pad1)
      ultimately show ?thesis
        using True b c01 c2 group24_bytes24 [of p q r 0 x y z] by auto
    next
      case False
      with 2(2) nopad pq r obtain s ds where s: "b64_val c3 = Some s" "b64_groups rest = Some ds"
        by (auto split: option.splits)
      obtain x y z where b: "bytes24 p q r s = (x, y, z)" by (metis prod_cases3)
      have "b64_encode ds = rest" using "2.IH" pq nopad r False s by auto
      moreover from 2(2) nopad pq r False s b have "bs = x # y # z # ds" by simp
      ultimately show ?thesis
        using b c01 c2 b64_val_SomeD [OF s(1)] group24_bytes24 [of p q r s x y z] by auto
    qed
  qed
qed auto

lemma b64_decode_strict_canonical:
  "b64_decode_strict txt = Some key \<Longrightarrow> b64_strip txt = b64_encode key"
  unfolding b64_decode_strict_def by (rule b64_groups_canonical [symmetric])

text \<open>The letters an encoding is written in are printable, and no line break is among them.\<close>

definition b64_letter :: "byte \<Rightarrow> bool" where
  "b64_letter c \<longleftrightarrow> c = b64_pad \<or> b64_val c \<noteq> None"

lemma b64_letter_char: "n < 64 \<Longrightarrow> b64_letter (b64_char n)"
  by (simp add: b64_letter_def b64_val_char)

lemma b64_encode_letters: "c \<in> set (b64_encode bs) \<Longrightarrow> b64_letter c"
proof (induction bs rule: b64_encode.induct)
  case 1
  then show ?case by simp
next
  case (2 a)
  obtain p q r s where x: "sextets (group24 a 0 0) = (p, q, r, s)" by (metis prod_cases4)
  then show ?case using 2 sextets_lt [OF x] by (auto simp: x b64_letter_char b64_letter_def b64_val_char)
next
  case (3 a b)
  obtain p q r s where x: "sextets (group24 a b 0) = (p, q, r, s)" by (metis prod_cases4)
  then show ?case using 3 sextets_lt [OF x] by (auto simp: x b64_letter_char b64_letter_def b64_val_char)
next
  case (4 a b c rest)
  obtain p q r s where x: "sextets (group24 a b c) = (p, q, r, s)" by (metis prod_cases4)
  then show ?case using 4 sextets_lt [OF x] by (auto simp: x b64_letter_char)
qed

lemma b64_letter_range: "b64_letter c \<Longrightarrow> 43 \<le> unat c \<and> unat c \<le> 122 \<and> c \<noteq> 63"
  by (auto simp: b64_letter_def b64_pad_def b64_val_def Let_def split: if_splits)

lemma b64_strip_encode: "b64_strip (b64_encode bs) = b64_encode bs"
  unfolding b64_strip_def
  by (rule filter_True) (auto dest!: b64_encode_letters b64_letter_range)

lemma b64_decode_encode: "b64_decode_strict (b64_encode bs) = Some bs"
  by (simp add: b64_decode_strict_def b64_strip_encode b64_groups_encode)

lemma length_b64_encode: "length (b64_encode bs) = 4 * ((length bs + 2) div 3)"
proof (induction bs rule: b64_encode.induct)
  case (4 a b c rest)
  obtain p q r s where x: "sextets (group24 a b c) = (p, q, r, s)" by (metis prod_cases4)
  have "(5 + length rest) div 3 = Suc ((2 + length rest) div 3)" by linarith
  with 4 x show ?case by simp
qed (simp_all split: prod.splits)

end
