(* ===== verification/Noise_Frame.thy ===== *)
theory Noise_Frame
  imports Plain_Frame Base64
begin

text \<open>
  The encrypted framing of \<open>internal/wire/noise.go\<close>: the three-byte packet header, frames
  inside encrypted packets, the client and server handshakes and the text shown for a rejected
  key.

  The Noise cryptography (\<open>github.com/flynn/noise\<close>) is a parameter, a record of the library
  calls the code makes. A handshake state and a cipher state are values of unspecified types; a
  call returns the state after it.
\<close>

section \<open>Packets\<close>

definition maxNoisePacketSize :: nat where
  "maxNoisePacketSize = 65535"

definition noise_header :: "bytes \<Rightarrow> bytes" where
  "noise_header payload = [1, of_nat (drop_bit 8 (length payload)), of_nat (length payload)]"

definition writeNoisePacket :: "writer \<Rightarrow> bytes \<Rightarrow> goerror option \<times> writer" where
  "writeNoisePacket w payload =
     (if maxNoisePacketSize < length payload then (Some (Err ErrFrameTooLarge), w)
      else case write_full w (noise_header payload) of
        (Some e, w') \<Rightarrow> (Some e, w')
      | (None, w') \<Rightarrow> write_full w' payload)"

definition readNoisePacket :: "stream \<Rightarrow> (bytes \<times> stream) result" where
  "readNoisePacket s =
     unless_err (read_full 3 s) id (\<lambda>(header, s).
     if header ! 0 \<noteq> 1 then Inl (Errorf ''%w: Noise preamble'' [Err ErrMalformedFrame])
     else let len = unat (be_get16 (header ! 1) (header ! 2))
       in if len = 0 then Fail ErrMalformedFrame
          else unless_err (read_full len s)
            (\<lambda>err. Errorf ''%w: Noise payload: %w'' [Err ErrMalformedFrame, err]) (\<lambda>(payload, s).
          Inr (payload, s)))"

text \<open>The packet as a value.\<close>

definition noise_packet :: "bytes \<Rightarrow> bytes result" where
  "noise_packet payload =
     (if maxNoisePacketSize < length payload then Fail ErrFrameTooLarge
      else Inr (noise_header payload @ payload))"

lemma write_full_append:
  assumes "write_full w xs = (None, w1)" and "write_full w1 ys = (e, w2)"
  shows "\<exists>k \<le> length (xs @ ys). sent w2 = sent w @ take k (xs @ ys) \<and> (e = None \<longrightarrow> k = length (xs @ ys))"
proof -
  from write_full_sent [OF assms(1)] have "sent w1 = sent w @ xs" by auto
  moreover from write_full_sent [OF assms(2)] obtain k where "k \<le> length ys"
    "sent w2 = sent w1 @ take k ys" "e = None \<longrightarrow> k = length ys" by auto
  ultimately show ?thesis by (intro exI [of _ "length xs + k"]) auto
qed

lemma writeNoisePacket_sent:
  assumes "writeNoisePacket w payload = (e, w')" and "length payload \<le> maxNoisePacketSize"
  shows "\<exists>k. sent w' = sent w @ take k (noise_header payload @ payload) \<and>
     (e = None \<longrightarrow> k = length (noise_header payload @ payload))"
proof (cases "write_full w (noise_header payload)")
  case (Pair r w1)
  show ?thesis
  proof (cases r)
    case None
    with assms Pair have "write_full w1 payload = (e, w')" by (simp add: writeNoisePacket_def)
    from write_full_append [OF _ this, of w "noise_header payload"] Pair None show ?thesis by blast
  next
    case (Some e1)
    with assms Pair have "w' = w1" "e \<noteq> None" by (auto simp: writeNoisePacket_def)
    moreover from write_full_sent [OF Pair] obtain k where
      "k \<le> length (noise_header payload)" "sent w1 = sent w @ take k (noise_header payload)"
      by blast
    ultimately show ?thesis by (intro exI [of _ k]) auto
  qed
qed

lemma noise_header_length:
  assumes "length payload \<le> maxNoisePacketSize"
  shows "unat (be_get16 (of_nat (drop_bit 8 (length payload))) (of_nat (length payload)))
       = length payload"
proof -
  let ?n = "length payload"
  have "?n < 65536" using assms by (simp add: maxNoisePacketSize_def)
  then have "?n div 256 < 256" by (simp add: div_less_iff_less_mult)
  then have "unat (of_nat (drop_bit 8 ?n) :: byte) = ?n div 256"
    by (simp add: drop_bit_eq_div unat_of_nat_byte)
  moreover have "unat (of_nat ?n :: byte) = ?n mod 256"
    by (simp add: unsigned_of_nat take_bit_eq_mod)
  ultimately show ?thesis by (simp add: unat_be_get16)
qed

lemma readNoisePacket_encode:
  assumes "noise_packet payload = Inr bs" and "payload \<noteq> []"
  shows "readNoisePacket (s\<lparr>pending := bs @ rest\<rparr>) = Inr (payload, s\<lparr>pending := rest\<rparr>)"
proof -
  from assms(1) have len: "length payload \<le> maxNoisePacketSize"
    and bs: "bs = noise_header payload @ payload"
    by (auto simp: noise_packet_def split: if_splits)
  have hd: "read_full 3 (s\<lparr>pending := noise_header payload @ payload @ rest\<rparr>)
      = Inr (noise_header payload, s\<lparr>pending := payload @ rest\<rparr>)"
    by (rule read_full_append) (simp add: noise_header_def)
  have body: "read_full (length payload) (s\<lparr>pending := payload @ rest\<rparr>)
      = Inr (payload, s\<lparr>pending := rest\<rparr>)"
    by (rule read_full_append) simp
  show ?thesis
    unfolding readNoisePacket_def bs append_assoc hd
    using noise_header_length [OF len] body assms(2) by (simp add: noise_header_def)
qed

lemma readNoisePacket_SomeD:
  assumes "readNoisePacket s = Inr (p, s')"
  obtains h s1 where "read_full 3 s = Inr (h, s1)" "h ! 0 = 1"
    "length p = unat (be_get16 (h ! 1) (h ! 2))" "p \<noteq> []"
    "read_full (unat (be_get16 (h ! 1) (h ! 2))) s1 = Inr (p, s')"
proof -
  from assms obtain h s1 where r: "read_full 3 s = Inr (h, s1)" "h ! 0 = 1"
    "unat (be_get16 (h ! 1) (h ! 2)) \<noteq> 0"
    "read_full (unat (be_get16 (h ! 1) (h ! 2))) s1 = Inr (p, s')"
    by (auto simp: readNoisePacket_def unless_err_eq_Inr Let_def split: if_splits)
  from read_full_SomeD [OF r(4)] have "length p = unat (be_get16 (h ! 1) (h ! 2))" by simp
  moreover from this r(3) have "p \<noteq> []" by (metis list.size(3))
  ultimately show ?thesis using that r by blast
qed

lemma readNoisePacket_consumes:
  assumes "readNoisePacket s = Inr (p, s')"
  shows "\<exists>cs. cs \<noteq> [] \<and> consumed cs s s'"
proof -
  from assms obtain h s1 where r: "read_full 3 s = Inr (h, s1)"
    "read_full (unat (be_get16 (h ! 1) (h ! 2))) s1 = Inr (p, s')" "p \<noteq> []"
    by (rule readNoisePacket_SomeD)
  have "consumed (h @ p) s s'"
    using read_full_SomeD [OF r(1)] read_full_SomeD [OF r(2)] by (blast intro: consumed_trans)
  with r(3) show ?thesis by blast
qed

lemma readNoisePacket_extend:
  assumes "readNoisePacket s = Inr (p, s')"
  shows "readNoisePacket (s\<lparr>pending := pending s @ ext\<rparr>) = Inr (p, s'\<lparr>pending := pending s' @ ext\<rparr>)"
proof -
  from assms obtain h s1 where r: "read_full 3 s = Inr (h, s1)" "h ! 0 = 1"
    "length p = unat (be_get16 (h ! 1) (h ! 2))" "p \<noteq> []"
    "read_full (unat (be_get16 (h ! 1) (h ! 2))) s1 = Inr (p, s')"
    by (rule readNoisePacket_SomeD)
  from r(3,4) have "unat (be_get16 (h ! 1) (h ! 2)) \<noteq> 0" by (metis length_0_conv)
  then show ?thesis
    using read_full_extend [OF r(1)] read_full_extend [OF r(5)] r(2)
    by (simp add: readNoisePacket_def Let_def)
qed

interpretation packet: stream_codec noise_packet readNoisePacket "\<lambda>payload. payload \<noteq> []"
  by unfold_locales
    (auto intro: readNoisePacket_encode readNoisePacket_consumes readNoisePacket_extend)

section \<open>Encrypted frames\<close>

record ('h, 'c) noise_lib =
  nl_new :: "bool \<Rightarrow> bytes \<Rightarrow> 'h result"
  nl_write :: "'h \<Rightarrow> ((bytes \<times> 'c option \<times> 'c option) \<times> 'h) result"
  nl_read :: "'h \<Rightarrow> bytes \<Rightarrow> ((bytes \<times> 'c option \<times> 'c option) \<times> 'h) result"
  nl_encrypt :: "'c \<Rightarrow> bytes \<Rightarrow> (bytes \<times> 'c) result"
  nl_decrypt :: "'c \<Rightarrow> bytes \<Rightarrow> (bytes \<times> 'c) result"

record 'c noise_framer =
  nf_encrypt :: 'c
  nf_decrypt :: 'c
  nf_maxFrame :: nat

definition noise_WriteFrame ::
    "('h, 'c) noise_lib \<Rightarrow> 'c noise_framer \<Rightarrow> u32 \<Rightarrow> bytes \<Rightarrow> writer
      \<Rightarrow> goerror option \<times> 'c noise_framer \<times> writer" where
  "noise_WriteFrame lib f messageType payload w =
     (if 0xFFFF < messageType then (Some (Err ErrMessageType), f, w)
      else if nf_maxFrame f < length payload then (Some (Err ErrFrameTooLarge), f, w)
      else let plain = be_put16 (ucast messageType) @ be_put16 (of_nat (length payload)) @ payload
        in case nl_encrypt lib (nf_encrypt f) plain of
             Inl err \<Rightarrow> (Some (Errorf ''%w: encrypt frame: %w'' [Err ErrClosed, err]), f, w)
           | Inr (ciphertext, c) \<Rightarrow>
               (let f = f\<lparr>nf_encrypt := c\<rparr>
                in if maxNoisePacketSize < length ciphertext
                   then (Some (Err ErrFrameTooLarge), f, w)
                   else case writeNoisePacket w ciphertext of (e, w) \<Rightarrow> (e, f, w)))"

definition noise_ReadFrame ::
    "('h, 'c) noise_lib \<Rightarrow> 'c noise_framer \<Rightarrow> stream
      \<Rightarrow> ((u32 \<times> bytes) \<times> 'c noise_framer \<times> stream) result" where
  "noise_ReadFrame lib f s =
     unless_err (readNoisePacket s) id (\<lambda>(ciphertext, s).
     unless_err (nl_decrypt lib (nf_decrypt f) ciphertext) (\<lambda>_. Err ErrMalformedFrame)
       (\<lambda>(plain, c).
     if length plain < 4 then Fail ErrMalformedFrame
     else let messageType = be_get16 (plain ! 0) (plain ! 1);
              declared = unat (be_get16 (plain ! 2) (plain ! 3))
       in if declared \<noteq> length plain - 4 \<or> nf_maxFrame f < declared then Fail ErrMalformedFrame
          else Inr ((ucast messageType, drop 4 plain), f\<lparr>nf_decrypt := c\<rparr>, s)))"

text \<open>
  What the code relies on of the two cipher states of one direction: while they are in step,
  decrypting the next ciphertext gives its plaintext and leaves them in step. A ciphertext
  carries an authentication tag, so it is never empty.
\<close>

definition cipher_in_step :: "('h, 'c) noise_lib \<Rightarrow> ('c \<Rightarrow> 'c \<Rightarrow> bool) \<Rightarrow> bool" where
  "cipher_in_step lib sync \<longleftrightarrow>
     (\<forall>e d pt ct e'. sync e d \<longrightarrow> nl_encrypt lib e pt = Inr (ct, e') \<longrightarrow>
        ct \<noteq> [] \<and> (\<exists>d'. nl_decrypt lib d ct = Inr (pt, d') \<and> sync e' d'))"

lemma noise_plain_fields:
  fixes p :: bytes and t :: u32
  assumes "\<not> 0xFFFF < t" and "length p < 65536"
  defines "plain \<equiv> be_put16 (ucast t) @ be_put16 (of_nat (length p)) @ p"
  shows "length plain = 4 + length p" "drop 4 plain = p"
    "ucast (be_get16 (plain ! 0) (plain ! 1)) = t"
    "unat (be_get16 (plain ! 2) (plain ! 3)) = length p"
proof -
  show "length plain = 4 + length p" by (simp add: plain_def)
  show "drop 4 plain = p" by (simp add: plain_def be_put16_def)
  have "unat t < 65536" using assms(1) by (simp add: word_less_nat_alt)
  then have "ucast (ucast t :: u16) = t"
    by (simp only: word_unat_eq_iff unsigned_ucast_eq)
      (simp add: unsigned_take_bit_eq take_bit_nat_eq_self)
  then show "ucast (be_get16 (plain ! 0) (plain ! 1)) = t"
    by (simp add: plain_def be_put16_def)
  show "unat (be_get16 (plain ! 2) (plain ! 3)) = length p"
  proof -
    define v :: u16 where "v = of_nat (length p)"
    have "be_get16 (plain ! 2) (plain ! 3) = v"
      unfolding plain_def v_def [symmetric] by (simp add: be_put16_def)
    then show ?thesis using assms(2) by (simp add: v_def unsigned_of_nat take_bit_nat_eq_self)
  qed
qed

lemma noise_frame_roundtrip:
  assumes chan: "cipher_in_step lib sync" and step: "sync (nf_encrypt a) (nf_decrypt b)"
    and max: "nf_maxFrame a \<le> nf_maxFrame b" "nf_maxFrame a < 65536"
    and w: "noise_WriteFrame lib a t p w = (None, a', w')"
  obtains bs b' where "sent w' = sent w @ bs"
    "\<And>s rest. noise_ReadFrame lib b (s\<lparr>pending := bs @ rest\<rparr>) = Inr ((t, p), b', s\<lparr>pending := rest\<rparr>)"
    "sync (nf_encrypt a') (nf_decrypt b')" "nf_maxFrame a' = nf_maxFrame a"
    "nf_maxFrame b' = nf_maxFrame b"
proof -
  let ?plain = "be_put16 (ucast t) @ be_put16 (of_nat (length p)) @ p"
  from w have t: "\<not> 0xFFFF < t" and p: "length p \<le> nf_maxFrame a"
    by (auto simp: noise_WriteFrame_def split: if_splits)
  with w obtain ct c where enc: "nl_encrypt lib (nf_encrypt a) ?plain = Inr (ct, c)"
    and ct: "length ct \<le> maxNoisePacketSize" and wp: "writeNoisePacket w ct = (None, w')"
    and a': "a' = a\<lparr>nf_encrypt := c\<rparr>"
    by (auto simp: noise_WriteFrame_def Let_def split: sum.splits prod.splits if_splits)
  from chan step enc obtain d where dec: "nl_decrypt lib (nf_decrypt b) ct = Inr (?plain, d)"
    and sync: "sync c d" and ne: "ct \<noteq> []"
    unfolding cipher_in_step_def by blast
  from writeNoisePacket_sent [OF wp ct] have sent: "sent w' = sent w @ (noise_header ct @ ct)"
    by auto
  have pk: "noise_packet ct = Inr (noise_header ct @ ct)" using ct by (simp add: noise_packet_def)
  have "length p < 65536" using p max by simp
  note fields = noise_plain_fields [OF t this]
  have "noise_ReadFrame lib b (s\<lparr>pending := (noise_header ct @ ct) @ rest\<rparr>)
      = Inr ((t, p), b\<lparr>nf_decrypt := d\<rparr>, s\<lparr>pending := rest\<rparr>)" for s rest
    using readNoisePacket_encode [OF pk ne, where s = s and rest = rest] dec fields p max
    by (simp add: noise_ReadFrame_def Let_def)
  then show ?thesis using that [OF sent, of "b\<lparr>nf_decrypt := d\<rparr>"] a' sync by simp
qed

text \<open>Frames sent one after the other, up to the first that fails, and read likewise.\<close>

fun noise_write_all ::
    "('h, 'c) noise_lib \<Rightarrow> 'c noise_framer \<Rightarrow> (u32 \<times> bytes) list \<Rightarrow> writer
      \<Rightarrow> goerror option \<times> 'c noise_framer \<times> writer" where
  "noise_write_all lib f [] w = (None, f, w)"
| "noise_write_all lib f ((t, p) # ms) w =
     (case noise_WriteFrame lib f t p w of
        (Some e, f, w) \<Rightarrow> (Some e, f, w)
      | (None, f, w) \<Rightarrow> noise_write_all lib f ms w)"

fun noise_read_many ::
    "('h, 'c) noise_lib \<Rightarrow> nat \<Rightarrow> 'c noise_framer \<Rightarrow> stream
      \<Rightarrow> ((u32 \<times> bytes) list \<times> 'c noise_framer \<times> stream) result" where
  "noise_read_many lib 0 f s = Inr ([], f, s)"
| "noise_read_many lib (Suc n) f s =
     unless_err (noise_ReadFrame lib f s) id (\<lambda>(m, f, s).
     unless_err (noise_read_many lib n f s) id (\<lambda>(ms, f, s). Inr (m # ms, f, s)))"

lemma noise_session:
  assumes "cipher_in_step lib sync" "sync (nf_encrypt a) (nf_decrypt b)"
    "nf_maxFrame a \<le> nf_maxFrame b" "nf_maxFrame a < 65536"
    "noise_write_all lib a ms w = (None, a', w')"
  shows "\<exists>bs b'. sent w' = sent w @ bs \<and>
     (\<forall>s rest. noise_read_many lib (length ms) b (s\<lparr>pending := bs @ rest\<rparr>)
        = Inr (ms, b', s\<lparr>pending := rest\<rparr>))"
  using assms(2-)
proof (induction ms arbitrary: a b w)
  case Nil
  then show ?case by auto
next
  case (Cons m ms)
  obtain t p where m: "m = (t, p)" by (cases m)
  from Cons.prems(4) obtain a1 w1 where w1: "noise_WriteFrame lib a t p w = (None, a1, w1)"
    and rest: "noise_write_all lib a1 ms w1 = (None, a', w')"
    by (auto simp: m split: prod.splits option.splits)
  from noise_frame_roundtrip [OF assms(1) Cons.prems(1-3) w1] obtain bs b1 where
    bs: "sent w1 = sent w @ bs"
    "\<And>s rest. noise_ReadFrame lib b (s\<lparr>pending := bs @ rest\<rparr>) = Inr ((t, p), b1, s\<lparr>pending := rest\<rparr>)"
    and b1: "sync (nf_encrypt a1) (nf_decrypt b1)" "nf_maxFrame a1 = nf_maxFrame a"
    "nf_maxFrame b1 = nf_maxFrame b" by blast
  from Cons.IH [OF b1(1) _ _ rest] b1 Cons.prems obtain cs b' where cs: "sent w' = sent w1 @ cs"
    "\<And>s rest. noise_read_many lib (length ms) b1 (s\<lparr>pending := cs @ rest\<rparr>)
       = Inr (ms, b', s\<lparr>pending := rest\<rparr>)" by auto
  show ?case
    by (intro exI [of _ "bs @ cs"] exI [of _ b']) (simp add: bs cs m)
qed

section \<open>The text of a rejected key\<close>

definition maxNoiseRejectionReason :: nat where
  "maxNoiseRejectionReason = 96"

definition containsBase64KeyEcho :: "bytes \<Rightarrow> bytes \<Rightarrow> bool" where
  "containsBase64KeyEcho raw psk =
     (let encoded = b64_encode psk
      in if contains raw encoded then True
         else contains (filter (\<lambda>value. value \<noteq> 13 \<and> value \<noteq> 10) raw) encoded)"

text \<open>\<open>strings.TrimSpace\<close> on ASCII text.\<close>

definition ascii_space :: "byte \<Rightarrow> bool" where
  "ascii_space b \<longleftrightarrow> b \<in> {9, 10, 11, 12, 13, 32}"

definition trim_space :: "bytes \<Rightarrow> bytes" where
  "trim_space bs = rev (dropWhile ascii_space (rev (dropWhile ascii_space bs)))"

definition printable_or_mark :: "byte \<Rightarrow> byte" where
  "printable_or_mark v = (if 0x20 \<le> v \<and> v \<le> 0x7e then v else 63)"

definition sanitizeNoiseRejection :: "bytes \<Rightarrow> bytes \<Rightarrow> bytes" where
  "sanitizeNoiseRejection raw psk =
     (if 0 < length psk \<and> (contains raw psk \<or> containsBase64KeyEcho raw psk)
      then string_bytes ''peer rejection reason redacted''
      else let raw = (if maxNoiseRejectionReason < length raw
                      then take maxNoiseRejectionReason raw else raw);
               clean = map printable_or_mark raw;
               reason = trim_space clean
        in if reason = [] then string_bytes ''unspecified rejection'' else reason)"

lemma trim_space_part: "\<exists>pre post. bs = pre @ trim_space bs @ post"
proof -
  obtain pre where "bs = pre @ dropWhile ascii_space bs"
    by (metis takeWhile_dropWhile_id)
  moreover obtain post where "rev (dropWhile ascii_space bs) =
      post @ dropWhile ascii_space (rev (dropWhile ascii_space bs))"
    by (metis takeWhile_dropWhile_id)
  then have "dropWhile ascii_space bs = trim_space bs @ rev post"
    unfolding trim_space_def by (metis rev_append rev_rev_ident)
  ultimately show ?thesis by metis
qed

lemma set_trim_space: "set (trim_space bs) \<subseteq> set bs"
  using trim_space_part [of bs] by (metis Un_iff set_append subsetI)

lemma length_trim_space: "length (trim_space bs) \<le> length bs"
  using trim_space_part [of bs] by (metis le_add1 le_add2 le_trans length_append)

lemma contains_map_unmarked:
  assumes "contains (map f ys) xs" "\<And>y. f y \<in> set xs \<Longrightarrow> f y = y"
  shows "contains ys xs"
proof -
  from assms(1) obtain pre post where "map f ys = pre @ xs @ post" by (auto simp: contains_iff)
  then obtain us zs where "ys = us @ zs" and zs: "xs @ post = map f zs"
    by (auto simp: map_eq_append_conv)
  moreover from zs [symmetric] obtain vs ws where "zs = vs @ ws" "map f vs = xs"
    by (auto simp: map_eq_append_conv)
  ultimately have "ys = us @ vs @ ws" "map f vs = xs" by simp_all
  moreover from this have "map f vs = vs" using assms(2) by (intro map_idI) auto
  ultimately show ?thesis by (auto simp: contains_iff)
qed

lemma printable_or_mark_letter:
  "b64_letter (printable_or_mark y) \<Longrightarrow> printable_or_mark y = y"
  using b64_letter_range [of "printable_or_mark y"] by (auto simp: printable_or_mark_def split: if_splits)

lemma contains_refl_long: "contains xs ys \<Longrightarrow> length ys \<le> length xs"
  by (auto simp: contains_iff)

section \<open>Handshakes\<close>

definition handshakeState :: "('h, 'c) noise_lib \<Rightarrow> bool \<Rightarrow> bytes \<Rightarrow> 'h result" where
  "handshakeState lib initiator psk =
     unless_err (nl_new lib initiator psk)
       (\<lambda>err. Errorf ''%w: initialize state: %w'' [Err ErrNoiseHandshake, err]) Inr"

definition clamp_noise_frame :: "int \<Rightarrow> nat" where
  "clamp_noise_frame maxFrame =
     (if maxFrame \<le> 0 \<or> int maxNoisePacketSize - 20 < maxFrame
      then maxNoisePacketSize - 20 else nat maxFrame)"

fun index_byte :: "bytes \<Rightarrow> byte \<Rightarrow> nat option" where
  "index_byte [] c = None"
| "index_byte (b # bs) c = (if b = c then Some 0 else map_option Suc (index_byte bs c))"

definition hs_error :: "string \<Rightarrow> goerror \<Rightarrow> goerror" where
  "hs_error what err = Errorf (''%w: '' @ what @ '': %w'') [Err ErrNoiseHandshake, err]"

text \<open>The client after its own messages are out: what it makes of the server's two packets.\<close>

definition noise_client_finish ::
    "('h, 'c) noise_lib \<Rightarrow> 'h \<Rightarrow> bytes \<Rightarrow> bytes \<Rightarrow> nat \<Rightarrow> stream
      \<Rightarrow> ('c noise_framer \<times> stream) result" where
  "noise_client_finish lib state psk expectedName maxFrame s =
     unless_err (readNoisePacket s) (hs_error ''read server name'') (\<lambda>(serverHello, s).
     if length serverHello < 2 \<or> serverHello ! 0 \<noteq> 1
     then Inl (Errorf ''%w: invalid server-name packet'' [Err ErrNoiseHandshake])
     else case index_byte (drop 1 serverHello) 0 of
       None \<Rightarrow> Inl (Errorf ''%w: unterminated server name'' [Err ErrNoiseHandshake])
     | Some nameEnd \<Rightarrow>
         if expectedName \<noteq> [] \<and> take nameEnd (drop 1 serverHello) \<noteq> expectedName
         then Fail ErrPeerName
         else unless_err (readNoisePacket s) (hs_error ''read server handshake message'')
           (\<lambda>(response, s).
         if 1 \<le> length response \<and> response ! 0 = 1
         then Inl (Errorf (''%w: %w: '' @ bytes_string (sanitizeNoiseRejection (drop 1 response) psk))
                [Err ErrNoiseHandshake, Err ErrNoiseKeyRejected])
         else if length response < 2 \<or> response ! 0 \<noteq> 0
         then Inl (Errorf ''%w: invalid server handshake packet'' [Err ErrNoiseHandshake])
         else unless_err (nl_read lib state (drop 1 response))
           (hs_error ''authenticate server handshake'') (\<lambda>((_, encrypt, decrypt), _).
         if encrypt = None \<or> decrypt = None
         then Inl (Errorf ''%w: incomplete client cipher state'' [Err ErrNoiseHandshake])
         else Inr (\<lparr>nf_encrypt = the encrypt, nf_decrypt = the decrypt, nf_maxFrame = maxFrame\<rparr>, s))))"

definition NewNoiseClientFramer ::
    "('h, 'c) noise_lib \<Rightarrow> bytes \<Rightarrow> bytes \<Rightarrow> int \<Rightarrow> goerror option \<Rightarrow> int \<Rightarrow> writer \<Rightarrow> stream
      \<Rightarrow> ('c noise_framer \<times> stream) result \<times> writer" where
  "NewNoiseClientFramer lib psk expectedName timeout setDeadline maxFrame w s =
     (if length psk \<noteq> 32 then (Fail ErrNoiseKey, w)
      else let maxFrame = clamp_noise_frame maxFrame in
      if 0 < timeout \<and> setDeadline \<noteq> None
      then (Inl (hs_error ''set client deadline'' (the setDeadline)), w)
      else case handshakeState lib True psk of
        Inl err \<Rightarrow> (Inl err, w)
      | Inr state \<Rightarrow> (case write_full w [1, 0, 0] of
          (Some err, w) \<Rightarrow> (Inl (hs_error ''write client preamble'' err), w)
        | (None, w) \<Rightarrow> (case nl_write lib state of
            Inl err \<Rightarrow> (Inl (hs_error ''create client handshake message'' err), w)
          | Inr ((first, _, _), state) \<Rightarrow> (case writeNoisePacket w (0 # first) of
              (Some err, w) \<Rightarrow> (Inl (hs_error ''write client handshake message'' err), w)
            | (None, w) \<Rightarrow> (noise_client_finish lib state psk expectedName maxFrame s, w)))))"

text \<open>The device side, as one function of what the client sends.\<close>

definition noise_server_respond ::
    "('h, 'c) noise_lib \<Rightarrow> 'h \<Rightarrow> bytes \<Rightarrow> nat \<Rightarrow> writer \<Rightarrow> stream
      \<Rightarrow> ('c noise_framer \<times> stream) result \<times> writer" where
  "noise_server_respond lib state serverName maxFrame w s =
     (case writeNoisePacket w ([1] @ serverName @ [0, 0]) of
        (Some err, w) \<Rightarrow> (Inl (hs_error ''write server name'' err), w)
      | (None, w) \<Rightarrow> (case nl_write lib state of
          Inl err \<Rightarrow> (Inl (hs_error ''create server handshake message'' err), w)
        | Inr ((response, decrypt, encrypt), _) \<Rightarrow>
            if encrypt = None \<or> decrypt = None
            then (Inl (Errorf ''%w: incomplete server cipher state'' [Err ErrNoiseHandshake]), w)
            else (case writeNoisePacket w (0 # response) of
              (Some err, w) \<Rightarrow> (Inl (hs_error ''write server handshake message'' err), w)
            | (None, w) \<Rightarrow>
                (Inr (\<lparr>nf_encrypt = the encrypt, nf_decrypt = the decrypt, nf_maxFrame = maxFrame\<rparr>, s), w))))"

definition NewNoiseServerFramer ::
    "('h, 'c) noise_lib \<Rightarrow> bytes \<Rightarrow> bytes \<Rightarrow> int \<Rightarrow> goerror option \<Rightarrow> int \<Rightarrow> writer \<Rightarrow> stream
      \<Rightarrow> ('c noise_framer \<times> stream) result \<times> writer" where
  "NewNoiseServerFramer lib psk serverName timeout setDeadline maxFrame w s =
     (if length psk \<noteq> 32 then (Fail ErrNoiseKey, w)
      else let maxFrame = clamp_noise_frame maxFrame in
      if 0 < timeout \<and> setDeadline \<noteq> None
      then (Inl (hs_error ''set server deadline'' (the setDeadline)), w)
      else case read_full 3 s of
        Inl err \<Rightarrow> (Inl (hs_error ''read client preamble'' err), w)
      | Inr (prefix, s) \<Rightarrow>
          if prefix \<noteq> [1, 0, 0]
          then (Inl (Errorf ''%w: invalid client preamble'' [Err ErrNoiseHandshake]), w)
          else (case handshakeState lib False psk of
            Inl err \<Rightarrow> (Inl err, w)
          | Inr state \<Rightarrow> (case readNoisePacket s of
              Inl err \<Rightarrow> (Inl (hs_error ''read client handshake message'' err), w)
            | Inr (request, s) \<Rightarrow>
                if length request < 2 \<or> request ! 0 \<noteq> 0
                then (Inl (Errorf ''%w: invalid client handshake packet'' [Err ErrNoiseHandshake]), w)
                else (case nl_read lib state (drop 1 request) of
                  Inl err \<Rightarrow> (Inl (hs_error ''authenticate client handshake'' err), w)
                | Inr (_, state) \<Rightarrow> noise_server_respond lib state serverName maxFrame w s))))"

lemma hs_error_is [error_simps]: "errors_is (hs_error what e) ErrNoiseHandshake"
  by (simp add: hs_error_def)

lemma noise_client_finish_errors:
  assumes "noise_client_finish lib state psk expectedName maxFrame s = Inl e"
  shows "errors_is e ErrNoiseHandshake \<or> (e = Err ErrPeerName \<and> expectedName \<noteq> [])"
  using assms
  by (auto simp: noise_client_finish_def unless_err_eq_Inl hs_error_is
      split: if_splits option.splits)

lemma index_byte_append:
  "c \<notin> set xs \<Longrightarrow> index_byte (xs @ c # ys) c = Some (length xs)"
  by (induction xs) auto

lemma noise_client_finish_SomeD:
  assumes "noise_client_finish lib state psk expectedName maxFrame s = Inr (f, s')"
  obtains hello s1 n response enc dec where
    "readNoisePacket s = Inr (hello, s1)" "index_byte (drop 1 hello) 0 = Some n"
    "expectedName \<noteq> [] \<longrightarrow> take n (drop 1 hello) = expectedName"
    "readNoisePacket s1 = Inr (response, s')" "response ! 0 = 0"
    "\<exists>p h. nl_read lib state (drop 1 response) = Inr ((p, Some enc, Some dec), h)"
    "f = \<lparr>nf_encrypt = enc, nf_decrypt = dec, nf_maxFrame = maxFrame\<rparr>"
  using assms
  by (auto simp: noise_client_finish_def unless_err_eq_Inr split: if_splits option.splits)

text \<open>
  What the two ends rely on of the library for one key: the NN handshake with a pre-shared key
  completes in two messages of moderate size and leaves both directions in step.
\<close>

definition noise_handshake_ok :: "('h, 'c) noise_lib \<Rightarrow> ('c \<Rightarrow> 'c \<Rightarrow> bool) \<Rightarrow> bytes \<Rightarrow> bool" where
  "noise_handshake_ok lib sync psk \<longleftrightarrow>
     (\<exists>h g first h1 g1 response g2 h2 ce cd se sd p q.
        nl_new lib True psk = Inr h \<and> nl_new lib False psk = Inr g \<and>
        nl_write lib h = Inr ((first, None, None), h1) \<and> 0 < length first \<and> length first < 65535 \<and>
        nl_read lib g first = Inr ((p, None, None), g1) \<and>
        nl_write lib g1 = Inr ((response, Some sd, Some se), g2) \<and>
        0 < length response \<and> length response < 65535 \<and>
        nl_read lib h1 response = Inr ((q, Some ce, Some cd), h2) \<and> sync ce sd \<and> sync se cd)"

lemma writeNoisePacket_ok:
  "outcomes w = [] \<Longrightarrow> noise_packet p = Inr bs \<Longrightarrow>
    writeNoisePacket w p = (None, w\<lparr>sent := sent w @ bs\<rparr>)"
  by (auto simp: writeNoisePacket_def noise_packet_def write_full_ok split: if_splits)

lemma handshake_agrees:
  assumes ok: "noise_handshake_ok lib sync psk" and psk: "length psk = 32"
    and name: "0 \<notin> set name" "length name \<le> 65532" "expected = [] \<or> expected = name"
    and w: "outcomes wc = []" "outcomes ws = []"
  shows "\<exists>cb sb fc fs.
     NewNoiseClientFramer lib psk expected tc None mc wc (sc\<lparr>pending := sb @ restc\<rparr>)
       = (Inr (fc, sc\<lparr>pending := restc\<rparr>), wc\<lparr>sent := sent wc @ cb\<rparr>) \<and>
     NewNoiseServerFramer lib psk name ts None ms ws (ss\<lparr>pending := cb @ rests\<rparr>)
       = (Inr (fs, ss\<lparr>pending := rests\<rparr>), ws\<lparr>sent := sent ws @ sb\<rparr>) \<and>
     sync (nf_encrypt fc) (nf_decrypt fs) \<and> sync (nf_encrypt fs) (nf_decrypt fc) \<and>
     nf_maxFrame fc = clamp_noise_frame mc \<and> nf_maxFrame fs = clamp_noise_frame ms"
proof -
  from ok obtain h g first h1 g1 response g2 h2 ce cd se sd p q where lib:
    "nl_new lib True psk = Inr h" "nl_new lib False psk = Inr g"
    "nl_write lib h = Inr ((first, None, None), h1)" "nl_read lib g first = Inr ((p, None, None), g1)"
    "nl_write lib g1 = Inr ((response, Some sd, Some se), g2)"
    "nl_read lib h1 response = Inr ((q, Some ce, Some cd), h2)"
    and sync: "sync ce sd" "sync se cd"
    and len: "0 < length first" "length first < 65535" "0 < length response" "length response < 65535"
    unfolding noise_handshake_ok_def by blast
  let ?hello = "[1] @ name @ [0, 0]"
  obtain b1 b2 b3 where b: "noise_packet (0 # first) = Inr b1" "noise_packet ?hello = Inr b2"
    "noise_packet (0 # response) = Inr b3"
    using len name(2) by (auto simp: noise_packet_def maxNoisePacketSize_def)
  let ?fc = "\<lparr>nf_encrypt = ce, nf_decrypt = cd, nf_maxFrame = clamp_noise_frame mc\<rparr>"
  let ?fs = "\<lparr>nf_encrypt = se, nf_decrypt = sd, nf_maxFrame = clamp_noise_frame ms\<rparr>"
  have idx: "index_byte (name @ [0, 0]) 0 = Some (length name)"
    using index_byte_append [OF name(1), of "[0]"] by simp
  have "noise_client_finish lib h1 psk expected (clamp_noise_frame mc)
      (sc\<lparr>pending := b2 @ b3 @ restc\<rparr>) = Inr (?fc, sc\<lparr>pending := restc\<rparr>)"
    using readNoisePacket_encode [OF b(2), where s = sc and rest = "b3 @ restc"]
      readNoisePacket_encode [OF b(3), where s = sc and rest = restc] idx name(3) lib(6) len(3)
    by (auto simp: noise_client_finish_def)
  then have client: "NewNoiseClientFramer lib psk expected tc None mc wc
      (sc\<lparr>pending := (b2 @ b3) @ restc\<rparr>)
      = (Inr (?fc, sc\<lparr>pending := restc\<rparr>), wc\<lparr>sent := sent wc @ ([1, 0, 0] @ b1)\<rparr>)"
    using psk lib(1,3) w(1) writeNoisePacket_ok [OF _ b(1), of "wc\<lparr>sent := sent wc @ [1, 0, 0]\<rparr>"]
    by (simp add: NewNoiseClientFramer_def handshakeState_def write_full_ok)
  have respond: "noise_server_respond lib g1 name (clamp_noise_frame ms) ws s
      = (Inr (?fs, s), ws\<lparr>sent := sent ws @ (b2 @ b3)\<rparr>)" for s
    using w(2) lib(5) writeNoisePacket_ok [OF w(2) b(2)]
      writeNoisePacket_ok [OF _ b(3), of "ws\<lparr>sent := sent ws @ b2\<rparr>"]
    by (simp add: noise_server_respond_def)
  have pre: "read_full 3 (ss\<lparr>pending := [1, 0, 0] @ b1 @ rests\<rparr>)
      = Inr ([1, 0, 0], ss\<lparr>pending := b1 @ rests\<rparr>)"
    by (rule read_full_append) simp
  have server: "NewNoiseServerFramer lib psk name ts None ms ws
      (ss\<lparr>pending := ([1, 0, 0] @ b1) @ rests\<rparr>)
      = (Inr (?fs, ss\<lparr>pending := rests\<rparr>), ws\<lparr>sent := sent ws @ (b2 @ b3)\<rparr>)"
    using psk lib(2,4) pre len(1) respond
      readNoisePacket_encode [OF b(1), where s = ss and rest = rests]
    by (simp add: NewNoiseServerFramer_def handshakeState_def)
  from client server sync show ?thesis by (intro exI conjI) (assumption | simp)+
qed

lemma sanitize_cases:
  obtains "sanitizeNoiseRejection raw psk = string_bytes ''peer rejection reason redacted''"
  | "sanitizeNoiseRejection raw psk = string_bytes ''unspecified rejection''"
  | "sanitizeNoiseRejection raw psk = trim_space (map printable_or_mark (take 96 raw))"
    "trim_space (map printable_or_mark (take 96 raw)) \<noteq> []"
    "length psk = 0 \<or> \<not> containsBase64KeyEcho raw psk"
proof -
  have "(if maxNoiseRejectionReason < length raw then take maxNoiseRejectionReason raw else raw)
      = take 96 raw"
    by (simp add: maxNoiseRejectionReason_def)
  then have eq: "sanitizeNoiseRejection raw psk =
     (if 0 < length psk \<and> (contains raw psk \<or> containsBase64KeyEcho raw psk)
      then string_bytes ''peer rejection reason redacted''
      else if trim_space (map printable_or_mark (take 96 raw)) = []
      then string_bytes ''unspecified rejection''
      else trim_space (map printable_or_mark (take 96 raw)))"
    unfolding sanitizeNoiseRejection_def Let_def by (simp only:)
  show ?thesis
  proof (cases "0 < length psk \<and> (contains raw psk \<or> containsBase64KeyEcho raw psk)")
    case True
    have "sanitizeNoiseRejection raw psk = string_bytes ''peer rejection reason redacted''"
      unfolding eq by (rule if_P [OF True])
    then show ?thesis by (rule that(1))
  next
    case False
    then show ?thesis
      using that(2,3) eq by (cases "trim_space (map printable_or_mark (take 96 raw)) = []") auto
  qed
qed

lemma sanitize_shape:
  "length (sanitizeNoiseRejection raw psk) \<le> 96 \<and> sanitizeNoiseRejection raw psk \<noteq> [] \<and>
     (\<forall>c \<in> set (sanitizeNoiseRejection raw psk). 0x20 \<le> c \<and> c \<le> 0x7e)"
proof (cases rule: sanitize_cases [of raw psk])
  case 3
  let ?m = "map printable_or_mark (take 96 raw)"
  have "length (trim_space ?m) \<le> 96" using length_trim_space [of ?m] by simp
  moreover have "0x20 \<le> c \<and> c \<le> 0x7e" if "c \<in> set (trim_space ?m)" for c
    using that set_trim_space [of ?m] by (auto simp: printable_or_mark_def)
  ultimately show ?thesis using 3 by simp
qed (auto simp: string_bytes_def byte_of_char_def)

lemma sanitize_no_encoded_key:
  assumes "length psk = 32"
  shows "\<not> contains (sanitizeNoiseRejection raw psk) (b64_encode psk)"
proof (cases rule: sanitize_cases [of raw psk])
  case 3
  show ?thesis
  proof
    assume "contains (sanitizeNoiseRejection raw psk) (b64_encode psk)"
    then have "contains (map printable_or_mark (take 96 raw)) (b64_encode psk)"
      unfolding 3(1) by (metis contains_mono trim_space_part)
    then have "contains (take 96 raw) (b64_encode psk)"
      by (rule contains_map_unmarked) (auto dest!: b64_encode_letters printable_or_mark_letter)
    then have "contains raw (b64_encode psk)"
      by (metis append_Nil append_take_drop_id contains_mono)
    with 3(3) assms show False by (simp add: containsBase64KeyEcho_def Let_def)
  qed
qed (auto dest!: contains_refl_long simp: length_b64_encode assms)

lemma contains_filter: "contains xs ys \<Longrightarrow> contains (filter P xs) (filter P ys)"
  by (metis contains_iff filter_append)

section \<open>Properties\<close>

text \<open>C7. Given that the two cipher states of a direction stay in step, whatever sequence of
  messages an encrypted framer sends without error, the peer reads back exactly that sequence,
  in order, and stops at the end of the last packet.\<close>

theorem noise_session_roundtrip:
  assumes "cipher_in_step lib sync" and "sync (nf_encrypt a) (nf_decrypt b)"
    and "nf_maxFrame a \<le> nf_maxFrame b" and "nf_maxFrame a < 65536"
    and "noise_write_all lib a ms w = (None, a', w')"
  shows "\<exists>bs b'. sent w' = sent w @ bs \<and>
     (\<forall>s rest. noise_read_many lib (length ms) b (s\<lparr>pending := bs @ rest\<rparr>)
        = Inr (ms, b', s\<lparr>pending := rest\<rparr>))"
  using assms by (rule noise_session)

text \<open>A small cipher and handshake that keep the promises, to exercise the theorems: the
  ciphertext is the message number followed by the plaintext.\<close>

definition counting_noise :: "(nat, nat) noise_lib" where
  "counting_noise =
     \<lparr>nl_new = (\<lambda>_ _. Inr 0),
      nl_write = (\<lambda>h. if h = 0 then Inr (([7], None, None), 1) else Inr (([8], Some 0, Some 0), 2)),
      nl_read = (\<lambda>h _. if h = 0 then Inr (([], None, None), 1) else Inr (([], Some 0, Some 0), 2)),
      nl_encrypt = (\<lambda>n pt. Inr (of_nat n # pt, Suc n)),
      nl_decrypt = (\<lambda>n ct. case ct of [] \<Rightarrow> Fail ErrThirdParty
         | c # pt \<Rightarrow> if c = of_nat n then Inr (pt, Suc n) else Fail ErrThirdParty)\<rparr>"

theorem noise_session_roundtrip_witness:
  "\<exists>bs b'. sent (snd (snd (noise_write_all counting_noise
        \<lparr>nf_encrypt = 0, nf_decrypt = 0, nf_maxFrame = 100\<rparr> [(7, []), (33, [1, 2])]
        \<lparr>sent = [], outcomes = []\<rparr>))) = sent \<lparr>sent = [], outcomes = []\<rparr> @ bs \<and>
     (\<forall>s rest. noise_read_many counting_noise (length [(7 :: u32, [] :: bytes), (33, [1, 2])])
        \<lparr>nf_encrypt = 0, nf_decrypt = 0, nf_maxFrame = 100\<rparr> (s\<lparr>pending := bs @ rest\<rparr>)
        = Inr ([(7, []), (33, [1, 2])], b', s\<lparr>pending := rest\<rparr>))"
proof -
  let ?f = "\<lparr>nf_encrypt = 0, nf_decrypt = 0, nf_maxFrame = 100\<rparr> :: nat noise_framer"
  have chan: "cipher_in_step counting_noise (=)"
    by (simp add: cipher_in_step_def counting_noise_def)
  obtain a' w' where w: "noise_write_all counting_noise ?f [(7, []), (33, [1, 2])]
      \<lparr>sent = [], outcomes = []\<rparr> = (None, a', w')"
    by (simp add: noise_WriteFrame_def counting_noise_def writeNoisePacket_def write_full_ok
        maxNoisePacketSize_def be_put16_def Let_def)
  from noise_session_roundtrip [OF chan _ _ _ w, of ?f]
  show ?thesis unfolding w snd_conv by simp
qed

text \<open>C16. When the library's handshake works for the key and the client expects no name or the
  device's name, the client and the device complete the handshake against each other: each accepts
  what the other sent, consumes exactly the handshake bytes, and the resulting cipher states are in
  step in both directions.\<close>

theorem noise_handshake_agrees:
  assumes "noise_handshake_ok lib sync psk" and "length psk = 32"
    and "0 \<notin> set name" and "length name \<le> 65532" and "expected = [] \<or> expected = name"
    and "outcomes wc = []" and "outcomes ws = []"
  shows "\<exists>cb sb fc fs.
     NewNoiseClientFramer lib psk expected tc None mc wc (sc\<lparr>pending := sb @ restc\<rparr>)
       = (Inr (fc, sc\<lparr>pending := restc\<rparr>), wc\<lparr>sent := sent wc @ cb\<rparr>) \<and>
     NewNoiseServerFramer lib psk name ts None ms ws (ss\<lparr>pending := cb @ rests\<rparr>)
       = (Inr (fs, ss\<lparr>pending := rests\<rparr>), ws\<lparr>sent := sent ws @ sb\<rparr>) \<and>
     sync (nf_encrypt fc) (nf_decrypt fs) \<and> sync (nf_encrypt fs) (nf_decrypt fc) \<and>
     nf_maxFrame fc = clamp_noise_frame mc \<and> nf_maxFrame fs = clamp_noise_frame ms"
  using assms by (rule handshake_agrees)

theorem noise_handshake_agrees_witness:
  "\<exists>cb sb fc fs.
     NewNoiseClientFramer counting_noise (replicate 32 5) [115, 105, 109] 5 None 0
       \<lparr>sent = [], outcomes = []\<rparr> (\<lparr>pending = [], failing = Err EOF\<rparr>\<lparr>pending := sb @ []\<rparr>)
       = (Inr (fc, \<lparr>pending = [], failing = Err EOF\<rparr>\<lparr>pending := []\<rparr>),
          \<lparr>sent = [], outcomes = []\<rparr>\<lparr>sent := [] @ cb\<rparr>) \<and>
     NewNoiseServerFramer counting_noise (replicate 32 5) [115, 105, 109] 5 None 0
       \<lparr>sent = [], outcomes = []\<rparr> (\<lparr>pending = [], failing = Err EOF\<rparr>\<lparr>pending := cb @ []\<rparr>)
       = (Inr (fs, \<lparr>pending = [], failing = Err EOF\<rparr>\<lparr>pending := []\<rparr>),
          \<lparr>sent = [], outcomes = []\<rparr>\<lparr>sent := [] @ sb\<rparr>) \<and>
     nf_encrypt fc = nf_decrypt fs \<and> nf_encrypt fs = nf_decrypt fc \<and>
     nf_maxFrame fc = 65515 \<and> nf_maxFrame fs = 65515"
proof -
  have "noise_handshake_ok counting_noise (=) (replicate 32 5)"
    by (simp add: noise_handshake_ok_def counting_noise_def)
  from noise_handshake_agrees [OF this, where name = "[115, 105, 109]"
      and expected = "[115, 105, 109]" and wc = "\<lparr>sent = [], outcomes = []\<rparr>"
      and ws = "\<lparr>sent = [], outcomes = []\<rparr>" and tc = 5 and ts = 5 and mc = 0 and ms = 0
      and sc = "\<lparr>pending = [], failing = Err EOF\<rparr>" and ss = "\<lparr>pending = [], failing = Err EOF\<rparr>"
      and restc = "[]" and rests = "[]"]
  show ?thesis by (simp add: clamp_noise_frame_def maxNoisePacketSize_def)
qed

text \<open>C18. The text shown for a rejected key never repeats the key: for every configuration text
  the strict decoder accepts as the key, line breaks included, the sanitized text does not contain
  that text, and a rejection that contains it is replaced by a fixed message. Whatever the peer
  sends, the result is 1 to 96 printable ASCII characters.\<close>

theorem noise_rejection_hides_key:
  assumes "b64_decode_strict txt = Some psk" and "length psk = 32"
  shows "\<not> contains (sanitizeNoiseRejection raw psk) txt \<and>
     (contains raw txt \<longrightarrow> sanitizeNoiseRejection raw psk = string_bytes ''peer rejection reason redacted'') \<and>
     0 < length (sanitizeNoiseRejection raw psk) \<and> length (sanitizeNoiseRejection raw psk) \<le> 96 \<and>
     (\<forall>c \<in> set (sanitizeNoiseRejection raw psk). 0x20 \<le> c \<and> c \<le> 0x7e)"
proof (intro conjI impI)
  let ?out = "sanitizeNoiseRejection raw psk"
  note strip = b64_decode_strict_canonical [OF assms(1)]
  show "\<not> contains ?out txt"
  proof
    assume c: "contains ?out txt"
    then have "set txt \<subseteq> set ?out" by (auto simp: contains_iff)
    then have "\<forall>v \<in> set txt. v \<noteq> 13 \<and> v \<noteq> 10" using sanitize_shape [of raw psk] by fastforce
    then have "b64_strip txt = txt" by (simp add: b64_strip_def)
    with c strip sanitize_no_encoded_key [OF assms(2), of raw] show False by simp
  qed
  assume "contains raw txt"
  then have "contains (b64_strip raw) (b64_encode psk)"
    unfolding strip [symmetric] b64_strip_def by (rule contains_filter)
  then have "containsBase64KeyEcho raw psk"
    by (simp add: containsBase64KeyEcho_def b64_strip_def Let_def)
  then show "?out = string_bytes ''peer rejection reason redacted''"
    using assms(2) by (simp add: sanitizeNoiseRejection_def)
qed (use sanitize_shape [of raw psk] in auto)

theorem noise_rejection_hides_key_witness:
  "\<not> contains (sanitizeNoiseRejection (110 # 10 # b64_encode (replicate 32 5)) (replicate 32 5))
       (10 # b64_encode (replicate 32 5)) \<and>
   sanitizeNoiseRejection (110 # 10 # b64_encode (replicate 32 5)) (replicate 32 5)
     = string_bytes ''peer rejection reason redacted''"
proof -
  let ?psk = "replicate 32 5 :: bytes"
  have "b64_decode_strict (10 # b64_encode ?psk) = Some ?psk"
    using b64_decode_encode [of ?psk] by (simp add: b64_decode_strict_def b64_strip_def)
  note hidden = noise_rejection_hides_key [OF this, of "110 # 10 # b64_encode ?psk"]
  have "contains (110 # 10 # b64_encode ?psk) (10 # b64_encode ?psk)"
    unfolding contains_iff by (rule exI [of _ "[110]"]) simp
  with hidden show ?thesis by (metis length_replicate)
qed

text \<open>Every failure of the client handshake is classified: it is a handshake error, or the
  peer-name error of a name check the caller asked for, or the key error of a key that is not 32
  bytes long, and the last one is decided before anything is sent.\<close>

theorem noise_client_errors_classified:
  assumes "NewNoiseClientFramer lib psk expectedName timeout dl maxFrame w s = (Inl e, w')"
  shows "errors_is e ErrNoiseHandshake \<or> (e = Err ErrPeerName \<and> expectedName \<noteq> []) \<or>
     (e = Err ErrNoiseKey \<and> length psk \<noteq> 32 \<and> w' = w)"
proof (cases "length psk = 32")
  case False
  then show ?thesis using assms by (auto simp: NewNoiseClientFramer_def)
next
  case True
  show ?thesis
    using assms True
    by (auto simp: NewNoiseClientFramer_def handshakeState_def unless_err_eq_Inl hs_error_is Let_def
        split: if_splits sum.splits prod.splits option.splits dest: noise_client_finish_errors)
qed

theorem noise_client_errors_classified_witness:
  "errors_is (Errorf ''%w: read server name: %w'' [Err ErrNoiseHandshake, Err EOF]) ErrNoiseHandshake"
proof -
  have "NewNoiseClientFramer counting_noise (replicate 32 5) [] 0 None 0 \<lparr>sent = [], outcomes = []\<rparr>
      \<lparr>pending = [], failing = Err EOF\<rparr>
    = (Inl (Errorf ''%w: read server name: %w'' [Err ErrNoiseHandshake, Err EOF]),
       \<lparr>sent = [1, 0, 0, 1, 0, 2, 0, 7], outcomes = []\<rparr>)"
    by (simp add: NewNoiseClientFramer_def handshakeState_def counting_noise_def write_full_ok
        writeNoisePacket_def noise_header_def maxNoisePacketSize_def noise_client_finish_def
        readNoisePacket_def read_full_def hs_error_def drop_bit_eq_div)
  from noise_client_errors_classified [OF this] show ?thesis by simp
qed

text \<open>C19. An encrypted session is only ever established with a peer that announced the name the
  caller expects: success means the first packet carried a terminated name, equal to the expected
  name whenever one was given, and the second one passed the library's authentication.\<close>

theorem noise_client_checks_name:
  assumes "NewNoiseClientFramer lib psk expectedName timeout dl maxFrame w s = (Inr (f, s'), w')"
  shows "\<exists>hello s1 n response state p h. readNoisePacket s = Inr (hello, s1) \<and>
     index_byte (drop 1 hello) 0 = Some n \<and>
     (expectedName \<noteq> [] \<longrightarrow> take n (drop 1 hello) = expectedName) \<and>
     readNoisePacket s1 = Inr (response, s') \<and>
     nl_read lib state (drop 1 response) = Inr ((p, Some (nf_encrypt f), Some (nf_decrypt f)), h)"
proof -
  from assms obtain state where
    "noise_client_finish lib state psk expectedName (clamp_noise_frame maxFrame) s = Inr (f, s')"
    by (auto simp: NewNoiseClientFramer_def Let_def
        split: if_splits sum.splits prod.splits option.splits)
  then show ?thesis by (elim noise_client_finish_SomeD) fastforce
qed

theorem noise_client_checks_name_witness:
  "\<exists>hello s1 n. readNoisePacket \<lparr>pending = [1, 0, 4, 1, 97, 0, 0, 1, 0, 2, 0, 8], failing = Err EOF\<rparr>
     = Inr (hello, s1) \<and> index_byte (drop 1 hello) 0 = Some n \<and> take n (drop 1 hello) = [97]"
proof -
  have "NewNoiseClientFramer counting_noise (replicate 32 5) [97] 0 None 0 \<lparr>sent = [], outcomes = []\<rparr>
      \<lparr>pending = [1, 0, 4, 1, 97, 0, 0, 1, 0, 2, 0, 8], failing = Err EOF\<rparr>
    = (Inr (\<lparr>nf_encrypt = 0, nf_decrypt = 0, nf_maxFrame = 65515\<rparr>,
          \<lparr>pending = [], failing = Err EOF\<rparr>), \<lparr>sent = [1, 0, 0, 1, 0, 2, 0, 7], outcomes = []\<rparr>)"
    by (simp add: NewNoiseClientFramer_def handshakeState_def counting_noise_def write_full_ok
        writeNoisePacket_def noise_header_def maxNoisePacketSize_def noise_client_finish_def
        readNoisePacket_def read_full_def be_get16_def clamp_noise_frame_def drop_bit_eq_div)
  from noise_client_checks_name [OF this] show ?thesis by auto
qed

end
