(* ===== verification/Messages.thy ===== *)
theory Messages
  imports Prelude
begin

text \<open>
  The Native API messages the library builds, inspects or stores, field by field as the generated
  structs of \<open>pb/api.pb.go\<close> declare them (enums and \<open>int32\<close> fields as 32-bit words,
  \<open>float32\<close> fields as their bit patterns). A message without fields is a nullary constructor, and
  every other message of the pinned protocol is \<open>OtherMessage\<close> with its descriptor name and its
  contents. \<open>zero_X\<close> is the Go zero value, from which the code's keyed composite literals start.

  A \<open>proto.Message\<close> that may be nil is a \<open>message option\<close>.
\<close>

section \<open>Message structs\<close>

record AreaInfo =
  Area_AreaId :: u32
  Area_Name :: string

definition zero_AreaInfo :: AreaInfo where
  "zero_AreaInfo =
    \<lparr>Area_AreaId = 0,
      Area_Name = ''''\<rparr>"

record DeviceInfo =
  SubDevice_DeviceId :: u32
  SubDevice_Name :: string
  SubDevice_AreaId :: u32

definition zero_DeviceInfo :: DeviceInfo where
  "zero_DeviceInfo =
    \<lparr>SubDevice_DeviceId = 0,
      SubDevice_Name = '''',
      SubDevice_AreaId = 0\<rparr>"

record SerialProxyInfo =
  SerialProxy_Name :: string
  SerialProxy_PortType :: i32

definition zero_SerialProxyInfo :: SerialProxyInfo where
  "zero_SerialProxyInfo =
    \<lparr>SerialProxy_Name = '''',
      SerialProxy_PortType = 0\<rparr>"

record HelloRequest =
  HelloReq_ClientInfo :: string
  HelloReq_ApiVersionMajor :: u32
  HelloReq_ApiVersionMinor :: u32

definition zero_HelloRequest :: HelloRequest where
  "zero_HelloRequest =
    \<lparr>HelloReq_ClientInfo = '''',
      HelloReq_ApiVersionMajor = 0,
      HelloReq_ApiVersionMinor = 0\<rparr>"

record HelloResponse =
  Hello_ApiVersionMajor :: u32
  Hello_ApiVersionMinor :: u32
  Hello_ServerInfo :: string
  Hello_Name :: string

definition zero_HelloResponse :: HelloResponse where
  "zero_HelloResponse =
    \<lparr>Hello_ApiVersionMajor = 0,
      Hello_ApiVersionMinor = 0,
      Hello_ServerInfo = '''',
      Hello_Name = ''''\<rparr>"

record DisconnectRequest =
  DisconnectReq_Reason :: i32

definition zero_DisconnectRequest :: DisconnectRequest where
  "zero_DisconnectRequest =
    \<lparr>DisconnectReq_Reason = 0\<rparr>"

record DeviceInfoResponse =
  DevInfo_UsesPassword :: bool
  DevInfo_Name :: string
  DevInfo_MacAddress :: string
  DevInfo_EsphomeVersion :: string
  DevInfo_CompilationTime :: string
  DevInfo_Model :: string
  DevInfo_HasDeepSleep :: bool
  DevInfo_ProjectName :: string
  DevInfo_ProjectVersion :: string
  DevInfo_WebserverPort :: u32
  DevInfo_LegacyBluetoothProxyVersion :: u32
  DevInfo_BluetoothProxyFeatureFlags :: u32
  DevInfo_Manufacturer :: string
  DevInfo_FriendlyName :: string
  DevInfo_LegacyVoiceAssistantVersion :: u32
  DevInfo_VoiceAssistantFeatureFlags :: u32
  DevInfo_SuggestedArea :: string
  DevInfo_BluetoothMacAddress :: string
  DevInfo_ApiEncryptionSupported :: bool
  DevInfo_Devices :: "DeviceInfo list"
  DevInfo_Areas :: "AreaInfo list"
  DevInfo_Area :: "AreaInfo option"
  DevInfo_ZwaveProxyFeatureFlags :: u32
  DevInfo_ZwaveHomeId :: u32
  DevInfo_SerialProxies :: "SerialProxyInfo list"
  DevInfo_ApiEncryptionProvisionable :: bool

definition zero_DeviceInfoResponse :: DeviceInfoResponse where
  "zero_DeviceInfoResponse =
    \<lparr>DevInfo_UsesPassword = False,
      DevInfo_Name = '''',
      DevInfo_MacAddress = '''',
      DevInfo_EsphomeVersion = '''',
      DevInfo_CompilationTime = '''',
      DevInfo_Model = '''',
      DevInfo_HasDeepSleep = False,
      DevInfo_ProjectName = '''',
      DevInfo_ProjectVersion = '''',
      DevInfo_WebserverPort = 0,
      DevInfo_LegacyBluetoothProxyVersion = 0,
      DevInfo_BluetoothProxyFeatureFlags = 0,
      DevInfo_Manufacturer = '''',
      DevInfo_FriendlyName = '''',
      DevInfo_LegacyVoiceAssistantVersion = 0,
      DevInfo_VoiceAssistantFeatureFlags = 0,
      DevInfo_SuggestedArea = '''',
      DevInfo_BluetoothMacAddress = '''',
      DevInfo_ApiEncryptionSupported = False,
      DevInfo_Devices = [],
      DevInfo_Areas = [],
      DevInfo_Area = None,
      DevInfo_ZwaveProxyFeatureFlags = 0,
      DevInfo_ZwaveHomeId = 0,
      DevInfo_SerialProxies = [],
      DevInfo_ApiEncryptionProvisionable = False\<rparr>"

record SubscribeLogsRequest =
  LogsReq_Level :: i32
  LogsReq_DumpConfig :: bool

definition zero_SubscribeLogsRequest :: SubscribeLogsRequest where
  "zero_SubscribeLogsRequest =
    \<lparr>LogsReq_Level = 0,
      LogsReq_DumpConfig = False\<rparr>"

record SubscribeLogsResponse =
  Log_Level :: i32
  Log_Message :: bytes

definition zero_SubscribeLogsResponse :: SubscribeLogsResponse where
  "zero_SubscribeLogsResponse =
    \<lparr>Log_Level = 0,
      Log_Message = []\<rparr>"

record ListEntitiesBinarySensorResponse =
  BinarySensorInfo_ObjectId :: string
  BinarySensorInfo_Key :: u32
  BinarySensorInfo_Name :: string
  BinarySensorInfo_DeviceClass :: string
  BinarySensorInfo_IsStatusBinarySensor :: bool
  BinarySensorInfo_DisabledByDefault :: bool
  BinarySensorInfo_Icon :: string
  BinarySensorInfo_EntityCategory :: i32
  BinarySensorInfo_DeviceId :: u32

definition zero_ListEntitiesBinarySensorResponse :: ListEntitiesBinarySensorResponse where
  "zero_ListEntitiesBinarySensorResponse =
    \<lparr>BinarySensorInfo_ObjectId = '''',
      BinarySensorInfo_Key = 0,
      BinarySensorInfo_Name = '''',
      BinarySensorInfo_DeviceClass = '''',
      BinarySensorInfo_IsStatusBinarySensor = False,
      BinarySensorInfo_DisabledByDefault = False,
      BinarySensorInfo_Icon = '''',
      BinarySensorInfo_EntityCategory = 0,
      BinarySensorInfo_DeviceId = 0\<rparr>"

record ListEntitiesSensorResponse =
  SensorInfo_ObjectId :: string
  SensorInfo_Key :: u32
  SensorInfo_Name :: string
  SensorInfo_Icon :: string
  SensorInfo_UnitOfMeasurement :: string
  SensorInfo_AccuracyDecimals :: i32
  SensorInfo_ForceUpdate :: bool
  SensorInfo_DeviceClass :: string
  SensorInfo_StateClass :: i32
  SensorInfo_LegacyLastResetType :: i32
  SensorInfo_DisabledByDefault :: bool
  SensorInfo_EntityCategory :: i32
  SensorInfo_DeviceId :: u32

definition zero_ListEntitiesSensorResponse :: ListEntitiesSensorResponse where
  "zero_ListEntitiesSensorResponse =
    \<lparr>SensorInfo_ObjectId = '''',
      SensorInfo_Key = 0,
      SensorInfo_Name = '''',
      SensorInfo_Icon = '''',
      SensorInfo_UnitOfMeasurement = '''',
      SensorInfo_AccuracyDecimals = 0,
      SensorInfo_ForceUpdate = False,
      SensorInfo_DeviceClass = '''',
      SensorInfo_StateClass = 0,
      SensorInfo_LegacyLastResetType = 0,
      SensorInfo_DisabledByDefault = False,
      SensorInfo_EntityCategory = 0,
      SensorInfo_DeviceId = 0\<rparr>"

record ListEntitiesTextSensorResponse =
  TextSensorInfo_ObjectId :: string
  TextSensorInfo_Key :: u32
  TextSensorInfo_Name :: string
  TextSensorInfo_Icon :: string
  TextSensorInfo_DisabledByDefault :: bool
  TextSensorInfo_EntityCategory :: i32
  TextSensorInfo_DeviceClass :: string
  TextSensorInfo_DeviceId :: u32

definition zero_ListEntitiesTextSensorResponse :: ListEntitiesTextSensorResponse where
  "zero_ListEntitiesTextSensorResponse =
    \<lparr>TextSensorInfo_ObjectId = '''',
      TextSensorInfo_Key = 0,
      TextSensorInfo_Name = '''',
      TextSensorInfo_Icon = '''',
      TextSensorInfo_DisabledByDefault = False,
      TextSensorInfo_EntityCategory = 0,
      TextSensorInfo_DeviceClass = '''',
      TextSensorInfo_DeviceId = 0\<rparr>"

record ListEntitiesSwitchResponse =
  SwitchInfo_ObjectId :: string
  SwitchInfo_Key :: u32
  SwitchInfo_Name :: string
  SwitchInfo_Icon :: string
  SwitchInfo_AssumedState :: bool
  SwitchInfo_DisabledByDefault :: bool
  SwitchInfo_EntityCategory :: i32
  SwitchInfo_DeviceClass :: string
  SwitchInfo_DeviceId :: u32

definition zero_ListEntitiesSwitchResponse :: ListEntitiesSwitchResponse where
  "zero_ListEntitiesSwitchResponse =
    \<lparr>SwitchInfo_ObjectId = '''',
      SwitchInfo_Key = 0,
      SwitchInfo_Name = '''',
      SwitchInfo_Icon = '''',
      SwitchInfo_AssumedState = False,
      SwitchInfo_DisabledByDefault = False,
      SwitchInfo_EntityCategory = 0,
      SwitchInfo_DeviceClass = '''',
      SwitchInfo_DeviceId = 0\<rparr>"

record ListEntitiesNumberResponse =
  NumberInfo_ObjectId :: string
  NumberInfo_Key :: u32
  NumberInfo_Name :: string
  NumberInfo_Icon :: string
  NumberInfo_MinValue :: f32
  NumberInfo_MaxValue :: f32
  NumberInfo_Step :: f32
  NumberInfo_DisabledByDefault :: bool
  NumberInfo_EntityCategory :: i32
  NumberInfo_UnitOfMeasurement :: string
  NumberInfo_Mode :: i32
  NumberInfo_DeviceClass :: string
  NumberInfo_DeviceId :: u32

definition zero_ListEntitiesNumberResponse :: ListEntitiesNumberResponse where
  "zero_ListEntitiesNumberResponse =
    \<lparr>NumberInfo_ObjectId = '''',
      NumberInfo_Key = 0,
      NumberInfo_Name = '''',
      NumberInfo_Icon = '''',
      NumberInfo_MinValue = 0,
      NumberInfo_MaxValue = 0,
      NumberInfo_Step = 0,
      NumberInfo_DisabledByDefault = False,
      NumberInfo_EntityCategory = 0,
      NumberInfo_UnitOfMeasurement = '''',
      NumberInfo_Mode = 0,
      NumberInfo_DeviceClass = '''',
      NumberInfo_DeviceId = 0\<rparr>"

record ListEntitiesButtonResponse =
  ButtonInfo_ObjectId :: string
  ButtonInfo_Key :: u32
  ButtonInfo_Name :: string
  ButtonInfo_Icon :: string
  ButtonInfo_DisabledByDefault :: bool
  ButtonInfo_EntityCategory :: i32
  ButtonInfo_DeviceClass :: string
  ButtonInfo_DeviceId :: u32

definition zero_ListEntitiesButtonResponse :: ListEntitiesButtonResponse where
  "zero_ListEntitiesButtonResponse =
    \<lparr>ButtonInfo_ObjectId = '''',
      ButtonInfo_Key = 0,
      ButtonInfo_Name = '''',
      ButtonInfo_Icon = '''',
      ButtonInfo_DisabledByDefault = False,
      ButtonInfo_EntityCategory = 0,
      ButtonInfo_DeviceClass = '''',
      ButtonInfo_DeviceId = 0\<rparr>"

record ListEntitiesFanResponse =
  FanInfo_ObjectId :: string
  FanInfo_Key :: u32
  FanInfo_Name :: string
  FanInfo_SupportsOscillation :: bool
  FanInfo_SupportsSpeed :: bool
  FanInfo_SupportsDirection :: bool
  FanInfo_SupportedSpeedCount :: i32
  FanInfo_DisabledByDefault :: bool
  FanInfo_Icon :: string
  FanInfo_EntityCategory :: i32
  FanInfo_SupportedPresetModes :: "string list"
  FanInfo_DeviceId :: u32

definition zero_ListEntitiesFanResponse :: ListEntitiesFanResponse where
  "zero_ListEntitiesFanResponse =
    \<lparr>FanInfo_ObjectId = '''',
      FanInfo_Key = 0,
      FanInfo_Name = '''',
      FanInfo_SupportsOscillation = False,
      FanInfo_SupportsSpeed = False,
      FanInfo_SupportsDirection = False,
      FanInfo_SupportedSpeedCount = 0,
      FanInfo_DisabledByDefault = False,
      FanInfo_Icon = '''',
      FanInfo_EntityCategory = 0,
      FanInfo_SupportedPresetModes = [],
      FanInfo_DeviceId = 0\<rparr>"

record ListEntitiesLightResponse =
  LightInfo_ObjectId :: string
  LightInfo_Key :: u32
  LightInfo_Name :: string
  LightInfo_SupportedColorModes :: "i32 list"
  LightInfo_LegacySupportsBrightness :: bool
  LightInfo_LegacySupportsRgb :: bool
  LightInfo_LegacySupportsWhiteValue :: bool
  LightInfo_LegacySupportsColorTemperature :: bool
  LightInfo_MinMireds :: f32
  LightInfo_MaxMireds :: f32
  LightInfo_Effects :: "string list"
  LightInfo_DisabledByDefault :: bool
  LightInfo_Icon :: string
  LightInfo_EntityCategory :: i32
  LightInfo_DeviceId :: u32

definition zero_ListEntitiesLightResponse :: ListEntitiesLightResponse where
  "zero_ListEntitiesLightResponse =
    \<lparr>LightInfo_ObjectId = '''',
      LightInfo_Key = 0,
      LightInfo_Name = '''',
      LightInfo_SupportedColorModes = [],
      LightInfo_LegacySupportsBrightness = False,
      LightInfo_LegacySupportsRgb = False,
      LightInfo_LegacySupportsWhiteValue = False,
      LightInfo_LegacySupportsColorTemperature = False,
      LightInfo_MinMireds = 0,
      LightInfo_MaxMireds = 0,
      LightInfo_Effects = [],
      LightInfo_DisabledByDefault = False,
      LightInfo_Icon = '''',
      LightInfo_EntityCategory = 0,
      LightInfo_DeviceId = 0\<rparr>"

record BinarySensorStateResponse =
  BinarySensorState_Key :: u32
  BinarySensorState_State :: bool
  BinarySensorState_MissingState :: bool
  BinarySensorState_DeviceId :: u32

definition zero_BinarySensorStateResponse :: BinarySensorStateResponse where
  "zero_BinarySensorStateResponse =
    \<lparr>BinarySensorState_Key = 0,
      BinarySensorState_State = False,
      BinarySensorState_MissingState = False,
      BinarySensorState_DeviceId = 0\<rparr>"

record SensorStateResponse =
  SensorState_Key :: u32
  SensorState_State :: f32
  SensorState_MissingState :: bool
  SensorState_DeviceId :: u32

definition zero_SensorStateResponse :: SensorStateResponse where
  "zero_SensorStateResponse =
    \<lparr>SensorState_Key = 0,
      SensorState_State = 0,
      SensorState_MissingState = False,
      SensorState_DeviceId = 0\<rparr>"

record TextSensorStateResponse =
  TextSensorState_Key :: u32
  TextSensorState_State :: string
  TextSensorState_MissingState :: bool
  TextSensorState_DeviceId :: u32

definition zero_TextSensorStateResponse :: TextSensorStateResponse where
  "zero_TextSensorStateResponse =
    \<lparr>TextSensorState_Key = 0,
      TextSensorState_State = '''',
      TextSensorState_MissingState = False,
      TextSensorState_DeviceId = 0\<rparr>"

record SwitchStateResponse =
  SwitchState_Key :: u32
  SwitchState_State :: bool
  SwitchState_DeviceId :: u32

definition zero_SwitchStateResponse :: SwitchStateResponse where
  "zero_SwitchStateResponse =
    \<lparr>SwitchState_Key = 0,
      SwitchState_State = False,
      SwitchState_DeviceId = 0\<rparr>"

record NumberStateResponse =
  NumberState_Key :: u32
  NumberState_State :: f32
  NumberState_MissingState :: bool
  NumberState_DeviceId :: u32

definition zero_NumberStateResponse :: NumberStateResponse where
  "zero_NumberStateResponse =
    \<lparr>NumberState_Key = 0,
      NumberState_State = 0,
      NumberState_MissingState = False,
      NumberState_DeviceId = 0\<rparr>"

record FanStateResponse =
  FanState_Key :: u32
  FanState_State :: bool
  FanState_Oscillating :: bool
  FanState_Speed :: i32
  FanState_Direction :: i32
  FanState_SpeedLevel :: i32
  FanState_PresetMode :: string
  FanState_DeviceId :: u32

definition zero_FanStateResponse :: FanStateResponse where
  "zero_FanStateResponse =
    \<lparr>FanState_Key = 0,
      FanState_State = False,
      FanState_Oscillating = False,
      FanState_Speed = 0,
      FanState_Direction = 0,
      FanState_SpeedLevel = 0,
      FanState_PresetMode = '''',
      FanState_DeviceId = 0\<rparr>"

record LightStateResponse =
  LightState_Key :: u32
  LightState_State :: bool
  LightState_Brightness :: f32
  LightState_ColorMode :: i32
  LightState_ColorBrightness :: f32
  LightState_Red :: f32
  LightState_Green :: f32
  LightState_Blue :: f32
  LightState_White :: f32
  LightState_ColorTemperature :: f32
  LightState_ColdWhite :: f32
  LightState_WarmWhite :: f32
  LightState_Effect :: string
  LightState_DeviceId :: u32

definition zero_LightStateResponse :: LightStateResponse where
  "zero_LightStateResponse =
    \<lparr>LightState_Key = 0,
      LightState_State = False,
      LightState_Brightness = 0,
      LightState_ColorMode = 0,
      LightState_ColorBrightness = 0,
      LightState_Red = 0,
      LightState_Green = 0,
      LightState_Blue = 0,
      LightState_White = 0,
      LightState_ColorTemperature = 0,
      LightState_ColdWhite = 0,
      LightState_WarmWhite = 0,
      LightState_Effect = '''',
      LightState_DeviceId = 0\<rparr>"

record SwitchCommandRequest =
  SwitchCmd_Key :: u32
  SwitchCmd_State :: bool
  SwitchCmd_DeviceId :: u32

definition zero_SwitchCommandRequest :: SwitchCommandRequest where
  "zero_SwitchCommandRequest =
    \<lparr>SwitchCmd_Key = 0,
      SwitchCmd_State = False,
      SwitchCmd_DeviceId = 0\<rparr>"

record NumberCommandRequest =
  NumberCmd_Key :: u32
  NumberCmd_State :: f32
  NumberCmd_DeviceId :: u32

definition zero_NumberCommandRequest :: NumberCommandRequest where
  "zero_NumberCommandRequest =
    \<lparr>NumberCmd_Key = 0,
      NumberCmd_State = 0,
      NumberCmd_DeviceId = 0\<rparr>"

record ButtonCommandRequest =
  ButtonCmd_Key :: u32
  ButtonCmd_DeviceId :: u32

definition zero_ButtonCommandRequest :: ButtonCommandRequest where
  "zero_ButtonCommandRequest =
    \<lparr>ButtonCmd_Key = 0,
      ButtonCmd_DeviceId = 0\<rparr>"

record FanCommandRequest =
  FanCmd_Key :: u32
  FanCmd_HasState :: bool
  FanCmd_State :: bool
  FanCmd_HasSpeed :: bool
  FanCmd_Speed :: i32
  FanCmd_HasOscillating :: bool
  FanCmd_Oscillating :: bool
  FanCmd_HasDirection :: bool
  FanCmd_Direction :: i32
  FanCmd_HasSpeedLevel :: bool
  FanCmd_SpeedLevel :: i32
  FanCmd_HasPresetMode :: bool
  FanCmd_PresetMode :: string
  FanCmd_DeviceId :: u32

definition zero_FanCommandRequest :: FanCommandRequest where
  "zero_FanCommandRequest =
    \<lparr>FanCmd_Key = 0,
      FanCmd_HasState = False,
      FanCmd_State = False,
      FanCmd_HasSpeed = False,
      FanCmd_Speed = 0,
      FanCmd_HasOscillating = False,
      FanCmd_Oscillating = False,
      FanCmd_HasDirection = False,
      FanCmd_Direction = 0,
      FanCmd_HasSpeedLevel = False,
      FanCmd_SpeedLevel = 0,
      FanCmd_HasPresetMode = False,
      FanCmd_PresetMode = '''',
      FanCmd_DeviceId = 0\<rparr>"

record LightCommandRequest =
  LightCmd_Key :: u32
  LightCmd_HasState :: bool
  LightCmd_State :: bool
  LightCmd_HasBrightness :: bool
  LightCmd_Brightness :: f32
  LightCmd_HasColorMode :: bool
  LightCmd_ColorMode :: i32
  LightCmd_HasColorBrightness :: bool
  LightCmd_ColorBrightness :: f32
  LightCmd_HasRgb :: bool
  LightCmd_Red :: f32
  LightCmd_Green :: f32
  LightCmd_Blue :: f32
  LightCmd_HasWhite :: bool
  LightCmd_White :: f32
  LightCmd_HasColorTemperature :: bool
  LightCmd_ColorTemperature :: f32
  LightCmd_HasColdWhite :: bool
  LightCmd_ColdWhite :: f32
  LightCmd_HasWarmWhite :: bool
  LightCmd_WarmWhite :: f32
  LightCmd_HasTransitionLength :: bool
  LightCmd_TransitionLength :: u32
  LightCmd_HasFlashLength :: bool
  LightCmd_FlashLength :: u32
  LightCmd_HasEffect :: bool
  LightCmd_Effect :: string
  LightCmd_DeviceId :: u32

definition zero_LightCommandRequest :: LightCommandRequest where
  "zero_LightCommandRequest =
    \<lparr>LightCmd_Key = 0,
      LightCmd_HasState = False,
      LightCmd_State = False,
      LightCmd_HasBrightness = False,
      LightCmd_Brightness = 0,
      LightCmd_HasColorMode = False,
      LightCmd_ColorMode = 0,
      LightCmd_HasColorBrightness = False,
      LightCmd_ColorBrightness = 0,
      LightCmd_HasRgb = False,
      LightCmd_Red = 0,
      LightCmd_Green = 0,
      LightCmd_Blue = 0,
      LightCmd_HasWhite = False,
      LightCmd_White = 0,
      LightCmd_HasColorTemperature = False,
      LightCmd_ColorTemperature = 0,
      LightCmd_HasColdWhite = False,
      LightCmd_ColdWhite = 0,
      LightCmd_HasWarmWhite = False,
      LightCmd_WarmWhite = 0,
      LightCmd_HasTransitionLength = False,
      LightCmd_TransitionLength = 0,
      LightCmd_HasFlashLength = False,
      LightCmd_FlashLength = 0,
      LightCmd_HasEffect = False,
      LightCmd_Effect = '''',
      LightCmd_DeviceId = 0\<rparr>"

section \<open>The message interface\<close>

datatype message =
    HelloRequest HelloRequest
  | HelloResponse HelloResponse
  | DisconnectRequest DisconnectRequest
  | DisconnectResponse
  | PingRequest
  | PingResponse
  | DeviceInfoRequest
  | DeviceInfoResponse DeviceInfoResponse
  | ListEntitiesRequest
  | ListEntitiesDoneResponse
  | SubscribeStatesRequest
  | SubscribeLogsRequest SubscribeLogsRequest
  | SubscribeLogsResponse SubscribeLogsResponse
  | ListEntitiesBinarySensorResponse ListEntitiesBinarySensorResponse
  | ListEntitiesSensorResponse ListEntitiesSensorResponse
  | ListEntitiesTextSensorResponse ListEntitiesTextSensorResponse
  | ListEntitiesSwitchResponse ListEntitiesSwitchResponse
  | ListEntitiesNumberResponse ListEntitiesNumberResponse
  | ListEntitiesButtonResponse ListEntitiesButtonResponse
  | ListEntitiesFanResponse ListEntitiesFanResponse
  | ListEntitiesLightResponse ListEntitiesLightResponse
  | BinarySensorStateResponse BinarySensorStateResponse
  | SensorStateResponse SensorStateResponse
  | TextSensorStateResponse TextSensorStateResponse
  | SwitchStateResponse SwitchStateResponse
  | NumberStateResponse NumberStateResponse
  | FanStateResponse FanStateResponse
  | LightStateResponse LightStateResponse
  | SwitchCommandRequest SwitchCommandRequest
  | NumberCommandRequest NumberCommandRequest
  | ButtonCommandRequest ButtonCommandRequest
  | FanCommandRequest FanCommandRequest
  | LightCommandRequest LightCommandRequest
  | OtherMessage string bytes

text \<open>\<open>ProtoReflect().Descriptor().Name()\<close>.\<close>

primrec message_name :: "message \<Rightarrow> string" where
  "message_name (HelloRequest x) = ''HelloRequest''"
| "message_name (HelloResponse x) = ''HelloResponse''"
| "message_name (DisconnectRequest x) = ''DisconnectRequest''"
| "message_name DisconnectResponse = ''DisconnectResponse''"
| "message_name PingRequest = ''PingRequest''"
| "message_name PingResponse = ''PingResponse''"
| "message_name DeviceInfoRequest = ''DeviceInfoRequest''"
| "message_name (DeviceInfoResponse x) = ''DeviceInfoResponse''"
| "message_name ListEntitiesRequest = ''ListEntitiesRequest''"
| "message_name ListEntitiesDoneResponse = ''ListEntitiesDoneResponse''"
| "message_name SubscribeStatesRequest = ''SubscribeStatesRequest''"
| "message_name (SubscribeLogsRequest x) = ''SubscribeLogsRequest''"
| "message_name (SubscribeLogsResponse x) = ''SubscribeLogsResponse''"
| "message_name (ListEntitiesBinarySensorResponse x) = ''ListEntitiesBinarySensorResponse''"
| "message_name (ListEntitiesSensorResponse x) = ''ListEntitiesSensorResponse''"
| "message_name (ListEntitiesTextSensorResponse x) = ''ListEntitiesTextSensorResponse''"
| "message_name (ListEntitiesSwitchResponse x) = ''ListEntitiesSwitchResponse''"
| "message_name (ListEntitiesNumberResponse x) = ''ListEntitiesNumberResponse''"
| "message_name (ListEntitiesButtonResponse x) = ''ListEntitiesButtonResponse''"
| "message_name (ListEntitiesFanResponse x) = ''ListEntitiesFanResponse''"
| "message_name (ListEntitiesLightResponse x) = ''ListEntitiesLightResponse''"
| "message_name (BinarySensorStateResponse x) = ''BinarySensorStateResponse''"
| "message_name (SensorStateResponse x) = ''SensorStateResponse''"
| "message_name (TextSensorStateResponse x) = ''TextSensorStateResponse''"
| "message_name (SwitchStateResponse x) = ''SwitchStateResponse''"
| "message_name (NumberStateResponse x) = ''NumberStateResponse''"
| "message_name (FanStateResponse x) = ''FanStateResponse''"
| "message_name (LightStateResponse x) = ''LightStateResponse''"
| "message_name (SwitchCommandRequest x) = ''SwitchCommandRequest''"
| "message_name (NumberCommandRequest x) = ''NumberCommandRequest''"
| "message_name (ButtonCommandRequest x) = ''ButtonCommandRequest''"
| "message_name (FanCommandRequest x) = ''FanCommandRequest''"
| "message_name (LightCommandRequest x) = ''LightCommandRequest''"
| "message_name (OtherMessage n p) = n"

end
