(* ===== verification/Api_Table.thy ===== *)
theory Api_Table
  imports Prelude
begin

text \<open>
  The descriptor table of the pinned protocol (\<open>protocol/upstream/api.proto\<close>, which
  \<open>pb/api.pb.go\<close> embeds as its raw descriptor): message name, id, source and feature gate of
  every message in file order, and the proof that neither a name nor an id occurs twice.
\<close>

section \<open>Descriptors\<close>

datatype api_source = SOURCE_BOTH | SOURCE_SERVER | SOURCE_CLIENT

record descriptor =
  desc_Name :: string
  desc_id :: "u32 option"
  desc_source :: "api_source option"
  desc_ifdef :: "string option"

definition descr :: "string \<Rightarrow> u32 option \<Rightarrow> api_source option \<Rightarrow> string option \<Rightarrow> descriptor" where
  "descr n i s g = \<lparr>desc_Name = n, desc_id = i, desc_source = s, desc_ifdef = g\<rparr>"

lemma descr_simps [simp]:
  "desc_Name (descr n i s g) = n"
  "desc_id (descr n i s g) = i"
  "desc_source (descr n i s g) = s"
  "desc_ifdef (descr n i s g) = g"
  by (simp_all add: descr_def)

definition api_descriptors_1 :: "descriptor list" where
  "api_descriptors_1 = [
    descr ''HelloRequest'' (Some 1) (Some SOURCE_CLIENT) None,
    descr ''HelloResponse'' (Some 2) (Some SOURCE_SERVER) None,
    descr ''AuthenticationRequest'' (Some 3) (Some SOURCE_CLIENT) None,
    descr ''AuthenticationResponse'' (Some 4) (Some SOURCE_SERVER) None,
    descr ''DisconnectRequest'' (Some 5) (Some SOURCE_BOTH) None,
    descr ''DisconnectResponse'' (Some 6) (Some SOURCE_BOTH) None,
    descr ''PingRequest'' (Some 7) (Some SOURCE_BOTH) None,
    descr ''PingResponse'' (Some 8) (Some SOURCE_BOTH) None,
    descr ''DeviceInfoRequest'' (Some 9) (Some SOURCE_CLIENT) None,
    descr ''AreaInfo'' None None None,
    descr ''DeviceInfo'' None None None,
    descr ''SerialProxyInfo'' None None None,
    descr ''DeviceInfoResponse'' (Some 10) (Some SOURCE_SERVER) None,
    descr ''ListEntitiesRequest'' (Some 11) (Some SOURCE_CLIENT) None]"

definition api_descriptors_2 :: "descriptor list" where
  "api_descriptors_2 = [
    descr ''ListEntitiesDoneResponse'' (Some 19) (Some SOURCE_SERVER) None,
    descr ''SubscribeStatesRequest'' (Some 20) (Some SOURCE_CLIENT) None,
    descr ''ListEntitiesBinarySensorResponse'' (Some 12) (Some SOURCE_SERVER) (Some ''USE_BINARY_SENSOR''),
    descr ''BinarySensorStateResponse'' (Some 21) (Some SOURCE_SERVER) (Some ''USE_BINARY_SENSOR''),
    descr ''ListEntitiesCoverResponse'' (Some 13) (Some SOURCE_SERVER) (Some ''USE_COVER''),
    descr ''CoverStateResponse'' (Some 22) (Some SOURCE_SERVER) (Some ''USE_COVER''),
    descr ''CoverCommandRequest'' (Some 30) (Some SOURCE_CLIENT) (Some ''USE_COVER''),
    descr ''ListEntitiesFanResponse'' (Some 14) (Some SOURCE_SERVER) (Some ''USE_FAN''),
    descr ''FanStateResponse'' (Some 23) (Some SOURCE_SERVER) (Some ''USE_FAN''),
    descr ''FanCommandRequest'' (Some 31) (Some SOURCE_CLIENT) (Some ''USE_FAN''),
    descr ''ListEntitiesLightResponse'' (Some 15) (Some SOURCE_SERVER) (Some ''USE_LIGHT''),
    descr ''LightStateResponse'' (Some 24) (Some SOURCE_SERVER) (Some ''USE_LIGHT''),
    descr ''LightCommandRequest'' (Some 32) (Some SOURCE_CLIENT) (Some ''USE_LIGHT''),
    descr ''ListEntitiesSensorResponse'' (Some 16) (Some SOURCE_SERVER) (Some ''USE_SENSOR'')]"

definition api_descriptors_3 :: "descriptor list" where
  "api_descriptors_3 = [
    descr ''SensorStateResponse'' (Some 25) (Some SOURCE_SERVER) (Some ''USE_SENSOR''),
    descr ''ListEntitiesSwitchResponse'' (Some 17) (Some SOURCE_SERVER) (Some ''USE_SWITCH''),
    descr ''SwitchStateResponse'' (Some 26) (Some SOURCE_SERVER) (Some ''USE_SWITCH''),
    descr ''SwitchCommandRequest'' (Some 33) (Some SOURCE_CLIENT) (Some ''USE_SWITCH''),
    descr ''ListEntitiesTextSensorResponse'' (Some 18) (Some SOURCE_SERVER) (Some ''USE_TEXT_SENSOR''),
    descr ''TextSensorStateResponse'' (Some 27) (Some SOURCE_SERVER) (Some ''USE_TEXT_SENSOR''),
    descr ''SubscribeLogsRequest'' (Some 28) (Some SOURCE_CLIENT) None,
    descr ''SubscribeLogsResponse'' (Some 29) (Some SOURCE_SERVER) None,
    descr ''NoiseEncryptionSetKeyRequest'' (Some 124) (Some SOURCE_CLIENT) (Some ''USE_API_NOISE''),
    descr ''NoiseEncryptionSetKeyResponse'' (Some 125) (Some SOURCE_SERVER) (Some ''USE_API_NOISE''),
    descr ''SubscribeHomeassistantServicesRequest'' (Some 34) (Some SOURCE_CLIENT) (Some ''USE_API_HOMEASSISTANT_SERVICES''),
    descr ''HomeassistantServiceMap'' None None None,
    descr ''HomeassistantActionRequest'' (Some 35) (Some SOURCE_SERVER) (Some ''USE_API_HOMEASSISTANT_SERVICES''),
    descr ''HomeassistantActionResponse'' (Some 130) (Some SOURCE_CLIENT) (Some ''USE_API_HOMEASSISTANT_ACTION_RESPONSES'')]"

definition api_descriptors_4 :: "descriptor list" where
  "api_descriptors_4 = [
    descr ''SubscribeHomeAssistantStatesRequest'' (Some 38) (Some SOURCE_CLIENT) (Some ''USE_API_HOMEASSISTANT_STATES''),
    descr ''SubscribeHomeAssistantStateResponse'' (Some 39) (Some SOURCE_SERVER) (Some ''USE_API_HOMEASSISTANT_STATES''),
    descr ''HomeAssistantStateResponse'' (Some 40) (Some SOURCE_CLIENT) (Some ''USE_API_HOMEASSISTANT_STATES''),
    descr ''GetTimeRequest'' (Some 36) (Some SOURCE_SERVER) None,
    descr ''DSTRule'' None (Some SOURCE_CLIENT) None,
    descr ''ParsedTimezone'' None (Some SOURCE_CLIENT) None,
    descr ''GetTimeResponse'' (Some 37) (Some SOURCE_CLIENT) None,
    descr ''ListEntitiesServicesArgument'' None None (Some ''USE_API_USER_DEFINED_ACTIONS''),
    descr ''ListEntitiesServicesResponse'' (Some 41) (Some SOURCE_SERVER) (Some ''USE_API_USER_DEFINED_ACTIONS''),
    descr ''ExecuteServiceArgument'' None None (Some ''USE_API_USER_DEFINED_ACTIONS''),
    descr ''ExecuteServiceRequest'' (Some 42) (Some SOURCE_CLIENT) (Some ''USE_API_USER_DEFINED_ACTIONS''),
    descr ''ExecuteServiceResponse'' (Some 131) (Some SOURCE_SERVER) (Some ''USE_API_USER_DEFINED_ACTION_RESPONSES''),
    descr ''ListEntitiesCameraResponse'' (Some 43) (Some SOURCE_SERVER) (Some ''USE_CAMERA''),
    descr ''CameraImageResponse'' (Some 44) (Some SOURCE_SERVER) (Some ''USE_CAMERA'')]"

definition api_descriptors_5 :: "descriptor list" where
  "api_descriptors_5 = [
    descr ''CameraImageRequest'' (Some 45) (Some SOURCE_CLIENT) (Some ''USE_CAMERA''),
    descr ''ListEntitiesClimateResponse'' (Some 46) (Some SOURCE_SERVER) (Some ''USE_CLIMATE''),
    descr ''ClimateStateResponse'' (Some 47) (Some SOURCE_SERVER) (Some ''USE_CLIMATE''),
    descr ''ClimateCommandRequest'' (Some 48) (Some SOURCE_CLIENT) (Some ''USE_CLIMATE''),
    descr ''ListEntitiesWaterHeaterResponse'' (Some 132) (Some SOURCE_SERVER) (Some ''USE_WATER_HEATER''),
    descr ''WaterHeaterStateResponse'' (Some 133) (Some SOURCE_SERVER) (Some ''USE_WATER_HEATER''),
    descr ''WaterHeaterCommandRequest'' (Some 134) (Some SOURCE_CLIENT) (Some ''USE_WATER_HEATER''),
    descr ''ListEntitiesNumberResponse'' (Some 49) (Some SOURCE_SERVER) (Some ''USE_NUMBER''),
    descr ''NumberStateResponse'' (Some 50) (Some SOURCE_SERVER) (Some ''USE_NUMBER''),
    descr ''NumberCommandRequest'' (Some 51) (Some SOURCE_CLIENT) (Some ''USE_NUMBER''),
    descr ''ListEntitiesSelectResponse'' (Some 52) (Some SOURCE_SERVER) (Some ''USE_SELECT''),
    descr ''SelectStateResponse'' (Some 53) (Some SOURCE_SERVER) (Some ''USE_SELECT''),
    descr ''SelectCommandRequest'' (Some 54) (Some SOURCE_CLIENT) (Some ''USE_SELECT''),
    descr ''ListEntitiesSirenResponse'' (Some 55) (Some SOURCE_SERVER) (Some ''USE_SIREN'')]"

definition api_descriptors_6 :: "descriptor list" where
  "api_descriptors_6 = [
    descr ''SirenStateResponse'' (Some 56) (Some SOURCE_SERVER) (Some ''USE_SIREN''),
    descr ''SirenCommandRequest'' (Some 57) (Some SOURCE_CLIENT) (Some ''USE_SIREN''),
    descr ''ListEntitiesLockResponse'' (Some 58) (Some SOURCE_SERVER) (Some ''USE_LOCK''),
    descr ''LockStateResponse'' (Some 59) (Some SOURCE_SERVER) (Some ''USE_LOCK''),
    descr ''LockCommandRequest'' (Some 60) (Some SOURCE_CLIENT) (Some ''USE_LOCK''),
    descr ''ListEntitiesButtonResponse'' (Some 61) (Some SOURCE_SERVER) (Some ''USE_BUTTON''),
    descr ''ButtonCommandRequest'' (Some 62) (Some SOURCE_CLIENT) (Some ''USE_BUTTON''),
    descr ''MediaPlayerSupportedFormat'' None None (Some ''USE_MEDIA_PLAYER''),
    descr ''ListEntitiesMediaPlayerResponse'' (Some 63) (Some SOURCE_SERVER) (Some ''USE_MEDIA_PLAYER''),
    descr ''MediaPlayerStateResponse'' (Some 64) (Some SOURCE_SERVER) (Some ''USE_MEDIA_PLAYER''),
    descr ''MediaPlayerCommandRequest'' (Some 65) (Some SOURCE_CLIENT) (Some ''USE_MEDIA_PLAYER''),
    descr ''SubscribeBluetoothLEAdvertisementsRequest'' (Some 66) (Some SOURCE_CLIENT) (Some ''USE_BLUETOOTH_PROXY''),
    descr ''BluetoothServiceData'' None None None,
    descr ''BluetoothLEAdvertisementResponse'' (Some 67) (Some SOURCE_SERVER) (Some ''USE_BLUETOOTH_PROXY'')]"

definition api_descriptors_7 :: "descriptor list" where
  "api_descriptors_7 = [
    descr ''BluetoothLERawAdvertisement'' None None None,
    descr ''BluetoothLERawAdvertisementsResponse'' (Some 93) (Some SOURCE_SERVER) (Some ''USE_BLUETOOTH_PROXY''),
    descr ''BluetoothDeviceRequest'' (Some 68) (Some SOURCE_CLIENT) (Some ''USE_BLUETOOTH_PROXY''),
    descr ''BluetoothDeviceConnectionResponse'' (Some 69) (Some SOURCE_SERVER) (Some ''USE_BLUETOOTH_PROXY''),
    descr ''BluetoothGATTGetServicesRequest'' (Some 70) (Some SOURCE_CLIENT) (Some ''USE_BLUETOOTH_PROXY''),
    descr ''BluetoothGATTDescriptor'' None None None,
    descr ''BluetoothGATTCharacteristic'' None None None,
    descr ''BluetoothGATTService'' None None None,
    descr ''BluetoothGATTGetServicesResponse'' (Some 71) (Some SOURCE_SERVER) (Some ''USE_BLUETOOTH_PROXY''),
    descr ''BluetoothGATTGetServicesDoneResponse'' (Some 72) (Some SOURCE_SERVER) (Some ''USE_BLUETOOTH_PROXY''),
    descr ''BluetoothGATTReadRequest'' (Some 73) (Some SOURCE_CLIENT) (Some ''USE_BLUETOOTH_PROXY''),
    descr ''BluetoothGATTReadResponse'' (Some 74) (Some SOURCE_SERVER) (Some ''USE_BLUETOOTH_PROXY''),
    descr ''BluetoothGATTWriteRequest'' (Some 75) (Some SOURCE_CLIENT) (Some ''USE_BLUETOOTH_PROXY''),
    descr ''BluetoothGATTReadDescriptorRequest'' (Some 76) (Some SOURCE_CLIENT) (Some ''USE_BLUETOOTH_PROXY'')]"

definition api_descriptors_8 :: "descriptor list" where
  "api_descriptors_8 = [
    descr ''BluetoothGATTWriteDescriptorRequest'' (Some 77) (Some SOURCE_CLIENT) (Some ''USE_BLUETOOTH_PROXY''),
    descr ''BluetoothGATTNotifyRequest'' (Some 78) (Some SOURCE_CLIENT) (Some ''USE_BLUETOOTH_PROXY''),
    descr ''BluetoothGATTNotifyDataResponse'' (Some 79) (Some SOURCE_SERVER) (Some ''USE_BLUETOOTH_PROXY''),
    descr ''SubscribeBluetoothConnectionsFreeRequest'' (Some 80) (Some SOURCE_CLIENT) (Some ''USE_BLUETOOTH_PROXY''),
    descr ''BluetoothConnectionsFreeResponse'' (Some 81) (Some SOURCE_SERVER) (Some ''USE_BLUETOOTH_PROXY''),
    descr ''BluetoothGATTErrorResponse'' (Some 82) (Some SOURCE_SERVER) (Some ''USE_BLUETOOTH_PROXY''),
    descr ''BluetoothGATTWriteResponse'' (Some 83) (Some SOURCE_SERVER) (Some ''USE_BLUETOOTH_PROXY''),
    descr ''BluetoothGATTNotifyResponse'' (Some 84) (Some SOURCE_SERVER) (Some ''USE_BLUETOOTH_PROXY''),
    descr ''BluetoothDevicePairingResponse'' (Some 85) (Some SOURCE_SERVER) (Some ''USE_BLUETOOTH_PROXY''),
    descr ''BluetoothDeviceUnpairingResponse'' (Some 86) (Some SOURCE_SERVER) (Some ''USE_BLUETOOTH_PROXY''),
    descr ''UnsubscribeBluetoothLEAdvertisementsRequest'' (Some 87) (Some SOURCE_CLIENT) (Some ''USE_BLUETOOTH_PROXY''),
    descr ''BluetoothDeviceClearCacheResponse'' (Some 88) (Some SOURCE_SERVER) (Some ''USE_BLUETOOTH_PROXY''),
    descr ''BluetoothScannerStateResponse'' (Some 126) (Some SOURCE_SERVER) (Some ''USE_BLUETOOTH_PROXY''),
    descr ''BluetoothScannerSetModeRequest'' (Some 127) (Some SOURCE_CLIENT) (Some ''USE_BLUETOOTH_PROXY'')]"

definition api_descriptors_9 :: "descriptor list" where
  "api_descriptors_9 = [
    descr ''SubscribeVoiceAssistantRequest'' (Some 89) (Some SOURCE_CLIENT) (Some ''USE_VOICE_ASSISTANT''),
    descr ''VoiceAssistantAudioSettings'' None None None,
    descr ''VoiceAssistantRequest'' (Some 90) (Some SOURCE_SERVER) (Some ''USE_VOICE_ASSISTANT''),
    descr ''VoiceAssistantResponse'' (Some 91) (Some SOURCE_CLIENT) (Some ''USE_VOICE_ASSISTANT''),
    descr ''VoiceAssistantEventData'' None None None,
    descr ''VoiceAssistantEventResponse'' (Some 92) (Some SOURCE_CLIENT) (Some ''USE_VOICE_ASSISTANT''),
    descr ''VoiceAssistantAudio'' (Some 106) (Some SOURCE_BOTH) (Some ''USE_VOICE_ASSISTANT''),
    descr ''VoiceAssistantTimerEventResponse'' (Some 115) (Some SOURCE_CLIENT) (Some ''USE_VOICE_ASSISTANT''),
    descr ''VoiceAssistantAnnounceRequest'' (Some 119) (Some SOURCE_CLIENT) (Some ''USE_VOICE_ASSISTANT''),
    descr ''VoiceAssistantAnnounceFinished'' (Some 120) (Some SOURCE_SERVER) (Some ''USE_VOICE_ASSISTANT''),
    descr ''VoiceAssistantWakeWord'' None None None,
    descr ''VoiceAssistantExternalWakeWord'' None None None,
    descr ''VoiceAssistantConfigurationRequest'' (Some 121) (Some SOURCE_CLIENT) (Some ''USE_VOICE_ASSISTANT''),
    descr ''VoiceAssistantConfigurationResponse'' (Some 122) (Some SOURCE_SERVER) (Some ''USE_VOICE_ASSISTANT'')]"

definition api_descriptors_10 :: "descriptor list" where
  "api_descriptors_10 = [
    descr ''VoiceAssistantSetConfiguration'' (Some 123) (Some SOURCE_CLIENT) (Some ''USE_VOICE_ASSISTANT''),
    descr ''ListEntitiesAlarmControlPanelResponse'' (Some 94) (Some SOURCE_SERVER) (Some ''USE_ALARM_CONTROL_PANEL''),
    descr ''AlarmControlPanelStateResponse'' (Some 95) (Some SOURCE_SERVER) (Some ''USE_ALARM_CONTROL_PANEL''),
    descr ''AlarmControlPanelCommandRequest'' (Some 96) (Some SOURCE_CLIENT) (Some ''USE_ALARM_CONTROL_PANEL''),
    descr ''ListEntitiesTextResponse'' (Some 97) (Some SOURCE_SERVER) (Some ''USE_TEXT''),
    descr ''TextStateResponse'' (Some 98) (Some SOURCE_SERVER) (Some ''USE_TEXT''),
    descr ''TextCommandRequest'' (Some 99) (Some SOURCE_CLIENT) (Some ''USE_TEXT''),
    descr ''ListEntitiesDateResponse'' (Some 100) (Some SOURCE_SERVER) (Some ''USE_DATETIME_DATE''),
    descr ''DateStateResponse'' (Some 101) (Some SOURCE_SERVER) (Some ''USE_DATETIME_DATE''),
    descr ''DateCommandRequest'' (Some 102) (Some SOURCE_CLIENT) (Some ''USE_DATETIME_DATE''),
    descr ''ListEntitiesTimeResponse'' (Some 103) (Some SOURCE_SERVER) (Some ''USE_DATETIME_TIME''),
    descr ''TimeStateResponse'' (Some 104) (Some SOURCE_SERVER) (Some ''USE_DATETIME_TIME''),
    descr ''TimeCommandRequest'' (Some 105) (Some SOURCE_CLIENT) (Some ''USE_DATETIME_TIME''),
    descr ''ListEntitiesEventResponse'' (Some 107) (Some SOURCE_SERVER) (Some ''USE_EVENT'')]"

definition api_descriptors_11 :: "descriptor list" where
  "api_descriptors_11 = [
    descr ''EventResponse'' (Some 108) (Some SOURCE_SERVER) (Some ''USE_EVENT''),
    descr ''ListEntitiesValveResponse'' (Some 109) (Some SOURCE_SERVER) (Some ''USE_VALVE''),
    descr ''ValveStateResponse'' (Some 110) (Some SOURCE_SERVER) (Some ''USE_VALVE''),
    descr ''ValveCommandRequest'' (Some 111) (Some SOURCE_CLIENT) (Some ''USE_VALVE''),
    descr ''ListEntitiesDateTimeResponse'' (Some 112) (Some SOURCE_SERVER) (Some ''USE_DATETIME_DATETIME''),
    descr ''DateTimeStateResponse'' (Some 113) (Some SOURCE_SERVER) (Some ''USE_DATETIME_DATETIME''),
    descr ''DateTimeCommandRequest'' (Some 114) (Some SOURCE_CLIENT) (Some ''USE_DATETIME_DATETIME''),
    descr ''ListEntitiesUpdateResponse'' (Some 116) (Some SOURCE_SERVER) (Some ''USE_UPDATE''),
    descr ''UpdateStateResponse'' (Some 117) (Some SOURCE_SERVER) (Some ''USE_UPDATE''),
    descr ''UpdateCommandRequest'' (Some 118) (Some SOURCE_CLIENT) (Some ''USE_UPDATE''),
    descr ''ZWaveProxyFrame'' (Some 128) (Some SOURCE_BOTH) (Some ''USE_ZWAVE_PROXY''),
    descr ''ZWaveProxyRequest'' (Some 129) (Some SOURCE_BOTH) (Some ''USE_ZWAVE_PROXY''),
    descr ''ListEntitiesInfraredResponse'' (Some 135) (Some SOURCE_SERVER) (Some ''USE_INFRARED''),
    descr ''InfraredRFTransmitRawTimingsRequest'' (Some 136) (Some SOURCE_CLIENT) (Some ''USE_IR_RF || USE_RADIO_FREQUENCY'')]"

definition api_descriptors_12 :: "descriptor list" where
  "api_descriptors_12 = [
    descr ''InfraredRFReceiveEvent'' (Some 137) (Some SOURCE_SERVER) (Some ''USE_IR_RF || USE_RADIO_FREQUENCY''),
    descr ''ListEntitiesRadioFrequencyResponse'' (Some 148) (Some SOURCE_SERVER) (Some ''USE_RADIO_FREQUENCY''),
    descr ''SerialProxyConfigureRequest'' (Some 138) (Some SOURCE_CLIENT) (Some ''USE_SERIAL_PROXY''),
    descr ''SerialProxyDataReceived'' (Some 139) (Some SOURCE_SERVER) (Some ''USE_SERIAL_PROXY''),
    descr ''SerialProxyWriteRequest'' (Some 140) (Some SOURCE_CLIENT) (Some ''USE_SERIAL_PROXY''),
    descr ''SerialProxySetModemPinsRequest'' (Some 141) (Some SOURCE_CLIENT) (Some ''USE_SERIAL_PROXY''),
    descr ''SerialProxyGetModemPinsRequest'' (Some 142) (Some SOURCE_CLIENT) (Some ''USE_SERIAL_PROXY''),
    descr ''SerialProxyGetModemPinsResponse'' (Some 143) (Some SOURCE_SERVER) (Some ''USE_SERIAL_PROXY''),
    descr ''SerialProxyRequest'' (Some 144) (Some SOURCE_CLIENT) (Some ''USE_SERIAL_PROXY''),
    descr ''SerialProxyRequestResponse'' (Some 147) (Some SOURCE_SERVER) (Some ''USE_SERIAL_PROXY''),
    descr ''BluetoothSetConnectionParamsRequest'' (Some 145) (Some SOURCE_CLIENT) (Some ''USE_BLUETOOTH_PROXY''),
    descr ''BluetoothSetConnectionParamsResponse'' (Some 146) (Some SOURCE_SERVER) (Some ''USE_BLUETOOTH_PROXY'')]"

definition api_descriptors :: "descriptor list" where
  "api_descriptors =
    api_descriptors_1 @
    api_descriptors_2 @
    api_descriptors_3 @
    api_descriptors_4 @
    api_descriptors_5 @
    api_descriptors_6 @
    api_descriptors_7 @
    api_descriptors_8 @
    api_descriptors_9 @
    api_descriptors_10 @
    api_descriptors_11 @
    api_descriptors_12"

lemmas api_parts =
  api_descriptors_1_def
  api_descriptors_2_def
  api_descriptors_3_def
  api_descriptors_4_def
  api_descriptors_5_def
  api_descriptors_6_def
  api_descriptors_7_def
  api_descriptors_8_def
  api_descriptors_9_def
  api_descriptors_10_def
  api_descriptors_11_def
  api_descriptors_12_def


subsection \<open>The table has no duplicate names or ids\<close>

text \<open>
  Names are compared through a numeric fingerprint that has no collision on the table, which is
  cheaper for the simplifier than comparing the strings pairwise.
\<close>

definition letter_code :: "char \<Rightarrow> nat" where
  "letter_code c = of_char c"

definition name_hash :: "string \<Rightarrow> nat" where
  "name_hash s = foldl (\<lambda>h c. (h * 31 + letter_code c) mod 65521) 0 s"

lemma letter_codes:
  "letter_code (CHR ''A'') = 65"
  "letter_code (CHR ''B'') = 66"
  "letter_code (CHR ''C'') = 67"
  "letter_code (CHR ''D'') = 68"
  "letter_code (CHR ''E'') = 69"
  "letter_code (CHR ''F'') = 70"
  "letter_code (CHR ''G'') = 71"
  "letter_code (CHR ''H'') = 72"
  "letter_code (CHR ''I'') = 73"
  "letter_code (CHR ''K'') = 75"
  "letter_code (CHR ''L'') = 76"
  "letter_code (CHR ''M'') = 77"
  "letter_code (CHR ''N'') = 78"
  "letter_code (CHR ''P'') = 80"
  "letter_code (CHR ''R'') = 82"
  "letter_code (CHR ''S'') = 83"
  "letter_code (CHR ''T'') = 84"
  "letter_code (CHR ''U'') = 85"
  "letter_code (CHR ''V'') = 86"
  "letter_code (CHR ''W'') = 87"
  "letter_code (CHR ''Z'') = 90"
  "letter_code (CHR ''a'') = 97"
  "letter_code (CHR ''b'') = 98"
  "letter_code (CHR ''c'') = 99"
  "letter_code (CHR ''d'') = 100"
  "letter_code (CHR ''e'') = 101"
  "letter_code (CHR ''f'') = 102"
  "letter_code (CHR ''g'') = 103"
  "letter_code (CHR ''h'') = 104"
  "letter_code (CHR ''i'') = 105"
  "letter_code (CHR ''k'') = 107"
  "letter_code (CHR ''l'') = 108"
  "letter_code (CHR ''m'') = 109"
  "letter_code (CHR ''n'') = 110"
  "letter_code (CHR ''o'') = 111"
  "letter_code (CHR ''p'') = 112"
  "letter_code (CHR ''q'') = 113"
  "letter_code (CHR ''r'') = 114"
  "letter_code (CHR ''s'') = 115"
  "letter_code (CHR ''t'') = 116"
  "letter_code (CHR ''u'') = 117"
  "letter_code (CHR ''v'') = 118"
  "letter_code (CHR ''w'') = 119"
  "letter_code (CHR ''x'') = 120"
  "letter_code (CHR ''y'') = 121"
  "letter_code (CHR ''z'') = 122"
  by (simp_all add: letter_code_def)

lemma api_hash_1:
  "map (\<lambda>d. name_hash (desc_Name d)) api_descriptors_1 =
    [18605, 45491, 22884, 47098, 7064, 15325, 59276, 61393, 20222, 59939, 29528, 42024, 30097, 16730]"
  by (simp add: api_descriptors_1_def name_hash_def letter_codes)

lemma api_id_1:
  "List.map_filter desc_id api_descriptors_1 =
    [1, 2, 3, 4, 5, 6, 7, 8, 9, 10, 11]"
  by (simp add: api_descriptors_1_def map_filter_simps)

lemma api_hash_2:
  "map (\<lambda>d. name_hash (desc_Name d)) api_descriptors_2 =
    [33533, 967, 21384, 56879, 8744, 11318, 22785, 52879, 7650, 40119, 63370, 31782, 1959, 28756]"
  by (simp add: api_descriptors_2_def name_hash_def letter_codes)

lemma api_id_2:
  "List.map_filter desc_id api_descriptors_2 =
    [19, 20, 12, 21, 13, 22, 30, 14, 23, 31, 15, 24, 32, 16]"
  by (simp add: api_descriptors_2_def map_filter_simps)

lemma api_hash_3:
  "map (\<lambda>d. name_hash (desc_Name d)) api_descriptors_3 =
    [57744, 39, 18420, 46384, 45599, 16487, 32963, 31942, 8067, 46418, 34150, 38293, 1, 58456]"
  by (simp add: api_descriptors_3_def name_hash_def letter_codes)

lemma api_id_3:
  "List.map_filter desc_id api_descriptors_3 =
    [25, 17, 26, 33, 18, 27, 28, 29, 124, 125, 34, 35, 130]"
  by (simp add: api_descriptors_3_def map_filter_simps)

lemma api_hash_4:
  "map (\<lambda>d. name_hash (desc_Name d)) api_descriptors_4 =
    [49927, 16336, 50878, 33374, 8341, 34990, 44683, 39683, 2820, 44363, 4698, 7500, 54423, 51944]"
  by (simp add: api_descriptors_4_def name_hash_def letter_codes)

lemma api_id_4:
  "List.map_filter desc_id api_descriptors_4 =
    [38, 39, 40, 36, 37, 41, 42, 131, 43, 44]"
  by (simp add: api_descriptors_4_def map_filter_simps)

lemma api_hash_5:
  "map (\<lambda>d. name_hash (desc_Name d)) api_descriptors_5 =
    [14586, 65088, 55498, 16424, 11317, 32102, 11879, 8071, 2660, 16471, 14798, 1860, 57192, 50853]"
  by (simp add: api_descriptors_5_def name_hash_def letter_codes)

lemma api_id_5:
  "List.map_filter desc_id api_descriptors_5 =
    [45, 46, 47, 48, 132, 133, 134, 49, 50, 51, 52, 53, 54, 55]"
  by (simp add: api_descriptors_5_def map_filter_simps)

lemma api_hash_6:
  "map (\<lambda>d. name_hash (desc_Name d)) api_descriptors_6 =
    [5570, 41160, 48082, 48043, 47403, 57719, 34529, 31115, 64461, 36418, 14633, 20208, 18956, 51911]"
  by (simp add: api_descriptors_6_def name_hash_def letter_codes)

lemma api_id_6:
  "List.map_filter desc_id api_descriptors_6 =
    [56, 57, 58, 59, 60, 61, 62, 63, 64, 65, 66, 67]"
  by (simp add: api_descriptors_6_def map_filter_simps)

lemma api_hash_7:
  "map (\<lambda>d. name_hash (desc_Name d)) api_descriptors_7 =
    [47411, 50916, 21654, 6332, 13176, 53886, 24283, 63945, 8234, 50426, 55222, 1240, 48261, 12915]"
  by (simp add: api_descriptors_7_def name_hash_def letter_codes)

lemma api_id_7:
  "List.map_filter desc_id api_descriptors_7 =
    [93, 68, 69, 70, 71, 72, 73, 74, 75, 76]"
  by (simp add: api_descriptors_7_def map_filter_simps)

lemma api_hash_8:
  "map (\<lambda>d. name_hash (desc_Name d)) api_descriptors_8 =
    [26776, 53711, 2039, 39103, 25492, 30012, 47533, 19920, 63442, 43467, 49280, 3325, 49760, 87]"
  by (simp add: api_descriptors_8_def name_hash_def letter_codes)

lemma api_id_8:
  "List.map_filter desc_id api_descriptors_8 =
    [77, 78, 79, 80, 81, 82, 83, 84, 85, 86, 87, 88, 126, 127]"
  by (simp add: api_descriptors_8_def map_filter_simps)

lemma api_hash_9:
  "map (\<lambda>d. name_hash (desc_Name d)) api_descriptors_9 =
    [35303, 44303, 35925, 58243, 34768, 13749, 54779, 29214, 22301, 45222, 30716, 15049, 54532, 45371]"
  by (simp add: api_descriptors_9_def name_hash_def letter_codes)

lemma api_id_9:
  "List.map_filter desc_id api_descriptors_9 =
    [89, 90, 91, 92, 106, 115, 119, 120, 121, 122]"
  by (simp add: api_descriptors_9_def map_filter_simps)

lemma api_hash_10:
  "map (\<lambda>d. name_hash (desc_Name d)) api_descriptors_10 =
    [9183, 6737, 63267, 60700, 32839, 2120, 65252, 24164, 57384, 9369, 40102, 11493, 28210, 28957]"
  by (simp add: api_descriptors_10_def name_hash_def letter_codes)

lemma api_id_10:
  "List.map_filter desc_id api_descriptors_10 =
    [123, 94, 95, 96, 97, 98, 99, 100, 101, 102, 103, 104, 105, 107]"
  by (simp add: api_descriptors_10_def map_filter_simps)

lemma api_hash_11:
  "map (\<lambda>d. name_hash (desc_Name d)) api_descriptors_11 =
    [56397, 11469, 34555, 22401, 54311, 61176, 61400, 54174, 1083, 33105, 37344, 40698, 14673, 1201]"
  by (simp add: api_descriptors_11_def name_hash_def letter_codes)

lemma api_id_11:
  "List.map_filter desc_id api_descriptors_11 =
    [108, 109, 110, 111, 112, 113, 114, 116, 117, 118, 128, 129, 135, 136]"
  by (simp add: api_descriptors_11_def map_filter_simps)

lemma api_hash_12:
  "map (\<lambda>d. name_hash (desc_Name d)) api_descriptors_12 =
    [64055, 59454, 60568, 62232, 53243, 40024, 11112, 9771, 12891, 50512, 58412, 34609]"
  by (simp add: api_descriptors_12_def name_hash_def letter_codes)

lemma api_id_12:
  "List.map_filter desc_id api_descriptors_12 =
    [137, 148, 138, 139, 140, 141, 142, 143, 144, 147, 145, 146]"
  by (simp add: api_descriptors_12_def map_filter_simps)

lemmas api_hashes =
  api_hash_1 api_hash_2 api_hash_3 api_hash_4 api_hash_5 api_hash_6 api_hash_7 api_hash_8 api_hash_9 api_hash_10 api_hash_11 api_hash_12

lemmas api_id_parts =
  api_id_1 api_id_2 api_id_3 api_id_4 api_id_5 api_id_6 api_id_7 api_id_8 api_id_9 api_id_10 api_id_11 api_id_12

lemma map_filter_append [simp]:
  "List.map_filter f (xs @ ys) = List.map_filter f xs @ List.map_filter f ys"
  by (simp add: List.map_filter_def)

lemma api_names_distinct: "distinct (map desc_Name api_descriptors)"
proof -
  have "distinct (map name_hash (map desc_Name api_descriptors))"
    by (simp add: api_descriptors_def comp_def api_hashes)
  then show ?thesis using distinct_map by blast
qed

lemma api_ids_distinct: "distinct (List.map_filter desc_id api_descriptors)"
  by (simp add: api_descriptors_def api_id_parts)

lemma map_filter_mem:
  "x \<in> set ds \<Longrightarrow> f x = Some i \<Longrightarrow> i \<in> set (List.map_filter f ds)"
  by (force simp: List.map_filter_def)

end
