(* ===== verification/Registry.thy ===== *)
theory Registry
  imports Messages Api_Table
begin

text \<open>
  The message registry of \<open>internal/wire/wire.go\<close>: \<open>buildRegistry\<close> collects the
  descriptors that carry a Native API id into \<open>messageByID\<close> and \<open>idByName\<close>, which
  \<open>NewMessage\<close>, \<open>MessageID\<close> and \<open>Decode\<close> consult. The protobuf runtime
  (\<open>proto.Marshal\<close>, \<open>proto.Unmarshal\<close>, \<open>proto.Size\<close>) is third-party code and
  is a parameter.
\<close>

section \<open>The registry\<close>

record registry =
  messageByID :: "u32 \<rightharpoonup> string"
  idByName :: "string \<rightharpoonup> u32"

definition empty_registry :: registry where
  "empty_registry = \<lparr>messageByID = Map.empty, idByName = Map.empty\<rparr>"

text \<open>
  One iteration of the loop of \<open>buildRegistry\<close>. A descriptor without the id extension, with id
  zero, or unknown to the global type registry (\<open>find_type\<close>) is skipped. A message type is
  identified by its full name.
\<close>

definition register_descriptor ::
  "(string \<Rightarrow> string option) \<Rightarrow> descriptor \<Rightarrow> registry \<Rightarrow> registry" where
  "register_descriptor find_type d r =
    (case desc_id d of
      None \<Rightarrow> r
    | Some mid \<Rightarrow>
        if mid = 0 then r
        else (case find_type (desc_Name d) of
            None \<Rightarrow> r
          | Some t \<Rightarrow> r\<lparr>messageByID := (messageByID r)(mid \<mapsto> t),
                        idByName := (idByName r)(desc_Name d \<mapsto> mid)\<rparr>))"

definition buildRegistry :: "(string \<Rightarrow> string option) \<Rightarrow> descriptor list \<Rightarrow> registry" where
  "buildRegistry find_type ds = fold (register_descriptor find_type) ds empty_registry"

text \<open>The generated package registers every message of the file under its own name.\<close>

definition api_registry :: registry where
  "api_registry = buildRegistry Some api_descriptors"

text \<open>\<open>messageType.New().Interface()\<close>: the zero value of the named message.\<close>

definition zero_messages :: "message list" where
  "zero_messages = [
    HelloRequest zero_HelloRequest,
    HelloResponse zero_HelloResponse,
    DisconnectRequest zero_DisconnectRequest,
    DisconnectResponse,
    PingRequest,
    PingResponse,
    DeviceInfoRequest,
    DeviceInfoResponse zero_DeviceInfoResponse,
    ListEntitiesRequest,
    ListEntitiesDoneResponse,
    SubscribeStatesRequest,
    SubscribeLogsRequest zero_SubscribeLogsRequest,
    SubscribeLogsResponse zero_SubscribeLogsResponse,
    ListEntitiesBinarySensorResponse zero_ListEntitiesBinarySensorResponse,
    ListEntitiesSensorResponse zero_ListEntitiesSensorResponse,
    ListEntitiesTextSensorResponse zero_ListEntitiesTextSensorResponse,
    ListEntitiesSwitchResponse zero_ListEntitiesSwitchResponse,
    ListEntitiesNumberResponse zero_ListEntitiesNumberResponse,
    ListEntitiesButtonResponse zero_ListEntitiesButtonResponse,
    ListEntitiesFanResponse zero_ListEntitiesFanResponse,
    ListEntitiesLightResponse zero_ListEntitiesLightResponse,
    BinarySensorStateResponse zero_BinarySensorStateResponse,
    SensorStateResponse zero_SensorStateResponse,
    TextSensorStateResponse zero_TextSensorStateResponse,
    SwitchStateResponse zero_SwitchStateResponse,
    NumberStateResponse zero_NumberStateResponse,
    FanStateResponse zero_FanStateResponse,
    LightStateResponse zero_LightStateResponse,
    SwitchCommandRequest zero_SwitchCommandRequest,
    NumberCommandRequest zero_NumberCommandRequest,
    ButtonCommandRequest zero_ButtonCommandRequest,
    FanCommandRequest zero_FanCommandRequest,
    LightCommandRequest zero_LightCommandRequest]"

definition new_message :: "string \<Rightarrow> message" where
  "new_message n =
    (case find (\<lambda>m. message_name m = n) zero_messages of Some m \<Rightarrow> m | None \<Rightarrow> OtherMessage n [])"

definition NewMessage :: "registry \<Rightarrow> u32 \<Rightarrow> message result" where
  "NewMessage r mid =
    (case messageByID r mid of
      None \<Rightarrow> Inl (Errorf ''%w: id %d'' [Err ErrUnknownMessage])
    | Some t \<Rightarrow> Inr (new_message t))"

definition MessageID :: "registry \<Rightarrow> message option \<Rightarrow> u32 result" where
  "MessageID r m =
    (case m of
      None \<Rightarrow> Inl (Errorf ''%w: nil message'' [Err ErrUnknownMessage])
    | Some m' \<Rightarrow>
        (case idByName r (message_name m') of
          None \<Rightarrow> Inl (Errorf ''%w: %s'' [Err ErrUnknownMessage])
        | Some mid \<Rightarrow> Inr mid))"

text \<open>The protobuf runtime; \<open>pb_unmarshal\<close> decodes a payload into the given message.\<close>

record protobuf =
  pb_marshal :: "message \<Rightarrow> bytes result"
  pb_unmarshal :: "bytes \<Rightarrow> message \<Rightarrow> message result"
  pb_size :: "message \<Rightarrow> nat"

definition Decode :: "protobuf \<Rightarrow> registry \<Rightarrow> u32 \<Rightarrow> bytes \<Rightarrow> message result" where
  "Decode pb r mid payload =
    unless_err (NewMessage r mid) (\<lambda>e. e) (\<lambda>m.
      unless_err (pb_unmarshal pb payload m)
        (\<lambda>e. Errorf ''%w: protobuf payload: %w'' [Err ErrMalformedFrame, e]) Inr)"

text \<open>
  The documented contract of the protobuf runtime: what \<open>Marshal\<close> accepted, \<open>Unmarshal\<close> into a
  fresh message of the same type restores.
\<close>

definition protobuf_ok :: "protobuf \<Rightarrow> bool" where
  "protobuf_ok pb \<longleftrightarrow>
    (\<forall>m p. pb_marshal pb m = Inr p \<longrightarrow> pb_unmarshal pb p (new_message (message_name m)) = Inr m)"

section \<open>Lookups\<close>

lemma buildRegistry_snoc:
  "buildRegistry find_type (ds @ [d]) =
    register_descriptor find_type d (buildRegistry find_type ds)"
  by (simp add: buildRegistry_def)

lemma buildRegistry_lookup_aux:
  assumes "distinct (map desc_Name ds)" "distinct (List.map_filter desc_id ds)"
  shows "(\<forall>i n. messageByID (buildRegistry Some ds) i = Some n \<longleftrightarrow>
      i \<noteq> 0 \<and> (\<exists>d \<in> set ds. desc_id d = Some i \<and> desc_Name d = n)) \<and>
    (\<forall>i n. idByName (buildRegistry Some ds) n = Some i \<longleftrightarrow>
      i \<noteq> 0 \<and> (\<exists>d \<in> set ds. desc_id d = Some i \<and> desc_Name d = n))"
  using assms
proof (induction ds rule: rev_induct)
  case Nil
  then show ?case by (simp add: buildRegistry_def empty_registry_def)
next
  case (snoc d ds)
  have dn: "distinct (map desc_Name ds)" "desc_Name d \<notin> desc_Name ` set ds"
    and di: "distinct (List.map_filter desc_id ds)"
    using snoc.prems by simp_all
  have fresh: "desc_id d \<noteq> Some j" if "e \<in> set ds" "desc_id e = Some j" for e j
  proof
    assume "desc_id d = Some j"
    then have "distinct (List.map_filter desc_id ds @ [j])"
      using snoc.prems(2) by (simp add: map_filter_simps)
    moreover have "j \<in> set (List.map_filter desc_id ds)"
      using that by (rule map_filter_mem)
    ultimately show False by simp
  qed
  have diff: "desc_Name e \<noteq> desc_Name d" if "e \<in> set ds" for e
    using dn(2) imageI [OF that, of desc_Name] by metis
  note IH = snoc.IH [OF dn(1) di]
  show ?case
  proof (cases "desc_id d = None \<or> desc_id d = Some 0")
    case True
    then show ?thesis
      using IH by (auto simp: buildRegistry_snoc register_descriptor_def)
  next
    case False
    then obtain j where j: "desc_id d = Some j" "j \<noteq> 0" by auto
    have step: "buildRegistry Some (ds @ [d]) =
        (let r = buildRegistry Some ds in
         r\<lparr>messageByID := (messageByID r)(j \<mapsto> desc_Name d),
           idByName := (idByName r)(desc_Name d \<mapsto> j)\<rparr>)"
      using j by (simp add: buildRegistry_snoc register_descriptor_def Let_def)
    have "desc_id e \<noteq> Some j" if "e \<in> set ds" for e
      using fresh [OF that] j(1) by blast
    then show ?thesis
      using IH j diff by (auto simp: step Let_def)
  qed
qed

lemma buildRegistry_lookup:
  assumes "distinct (map desc_Name ds)" "distinct (List.map_filter desc_id ds)"
  shows "messageByID (buildRegistry Some ds) i = Some n \<longleftrightarrow>
      i \<noteq> 0 \<and> (\<exists>d \<in> set ds. desc_id d = Some i \<and> desc_Name d = n)"
    and "idByName (buildRegistry Some ds) n = Some i \<longleftrightarrow>
      i \<noteq> 0 \<and> (\<exists>d \<in> set ds. desc_id d = Some i \<and> desc_Name d = n)"
  using buildRegistry_lookup_aux [OF assms] by blast+

lemmas api_lookup =
  buildRegistry_lookup [OF api_names_distinct api_ids_distinct, folded api_registry_def]

text \<open>Ids of the modelled messages.\<close>

lemma api_part_subset:
  "\<forall>k \<in> {api_descriptors_1, api_descriptors_2, api_descriptors_3, api_descriptors_4,
    api_descriptors_5, api_descriptors_6, api_descriptors_7, api_descriptors_8,
    api_descriptors_9, api_descriptors_10, api_descriptors_11, api_descriptors_12}.
    set k \<subseteq> set api_descriptors"
  by (auto simp: api_descriptors_def)

lemma api_idI:
  assumes "d \<in> set p" "set p \<subseteq> set api_descriptors"
    and "desc_id d = Some i" "desc_Name d = n" "i \<noteq> 0"
  shows "idByName api_registry n = Some i"
  using assms by (auto simp: api_lookup)

lemma id_HelloRequest: "idByName api_registry ''HelloRequest'' = Some 1"
  by (rule api_idI [where d = "descr ''HelloRequest'' (Some 1) (Some SOURCE_CLIENT) None" and p = api_descriptors_1])
    (simp add: api_descriptors_1_def, simp_all add: api_part_subset)

lemma id_HelloResponse: "idByName api_registry ''HelloResponse'' = Some 2"
  by (rule api_idI [where d = "descr ''HelloResponse'' (Some 2) (Some SOURCE_SERVER) None" and p = api_descriptors_1])
    (simp add: api_descriptors_1_def, simp_all add: api_part_subset)

lemma id_DisconnectRequest: "idByName api_registry ''DisconnectRequest'' = Some 5"
  by (rule api_idI [where d = "descr ''DisconnectRequest'' (Some 5) (Some SOURCE_BOTH) None" and p = api_descriptors_1])
    (simp add: api_descriptors_1_def, simp_all add: api_part_subset)

lemma id_DisconnectResponse: "idByName api_registry ''DisconnectResponse'' = Some 6"
  by (rule api_idI [where d = "descr ''DisconnectResponse'' (Some 6) (Some SOURCE_BOTH) None" and p = api_descriptors_1])
    (simp add: api_descriptors_1_def, simp_all add: api_part_subset)

lemma id_PingRequest: "idByName api_registry ''PingRequest'' = Some 7"
  by (rule api_idI [where d = "descr ''PingRequest'' (Some 7) (Some SOURCE_BOTH) None" and p = api_descriptors_1])
    (simp add: api_descriptors_1_def, simp_all add: api_part_subset)

lemma id_PingResponse: "idByName api_registry ''PingResponse'' = Some 8"
  by (rule api_idI [where d = "descr ''PingResponse'' (Some 8) (Some SOURCE_BOTH) None" and p = api_descriptors_1])
    (simp add: api_descriptors_1_def, simp_all add: api_part_subset)

lemma id_DeviceInfoRequest: "idByName api_registry ''DeviceInfoRequest'' = Some 9"
  by (rule api_idI [where d = "descr ''DeviceInfoRequest'' (Some 9) (Some SOURCE_CLIENT) None" and p = api_descriptors_1])
    (simp add: api_descriptors_1_def, simp_all add: api_part_subset)

lemma id_DeviceInfoResponse: "idByName api_registry ''DeviceInfoResponse'' = Some 10"
  by (rule api_idI [where d = "descr ''DeviceInfoResponse'' (Some 10) (Some SOURCE_SERVER) None" and p = api_descriptors_1])
    (simp add: api_descriptors_1_def, simp_all add: api_part_subset)

lemma id_ListEntitiesRequest: "idByName api_registry ''ListEntitiesRequest'' = Some 11"
  by (rule api_idI [where d = "descr ''ListEntitiesRequest'' (Some 11) (Some SOURCE_CLIENT) None" and p = api_descriptors_1])
    (simp add: api_descriptors_1_def, simp_all add: api_part_subset)

lemma id_ListEntitiesDoneResponse: "idByName api_registry ''ListEntitiesDoneResponse'' = Some 19"
  by (rule api_idI [where d = "descr ''ListEntitiesDoneResponse'' (Some 19) (Some SOURCE_SERVER) None" and p = api_descriptors_2])
    (simp add: api_descriptors_2_def, simp_all add: api_part_subset)

lemma id_SubscribeStatesRequest: "idByName api_registry ''SubscribeStatesRequest'' = Some 20"
  by (rule api_idI [where d = "descr ''SubscribeStatesRequest'' (Some 20) (Some SOURCE_CLIENT) None" and p = api_descriptors_2])
    (simp add: api_descriptors_2_def, simp_all add: api_part_subset)

lemma id_SubscribeLogsRequest: "idByName api_registry ''SubscribeLogsRequest'' = Some 28"
  by (rule api_idI [where d = "descr ''SubscribeLogsRequest'' (Some 28) (Some SOURCE_CLIENT) None" and p = api_descriptors_3])
    (simp add: api_descriptors_3_def, simp_all add: api_part_subset)

lemma id_SubscribeLogsResponse: "idByName api_registry ''SubscribeLogsResponse'' = Some 29"
  by (rule api_idI [where d = "descr ''SubscribeLogsResponse'' (Some 29) (Some SOURCE_SERVER) None" and p = api_descriptors_3])
    (simp add: api_descriptors_3_def, simp_all add: api_part_subset)

lemma id_ListEntitiesBinarySensorResponse: "idByName api_registry ''ListEntitiesBinarySensorResponse'' = Some 12"
  by (rule api_idI [where d = "descr ''ListEntitiesBinarySensorResponse'' (Some 12) (Some SOURCE_SERVER) (Some ''USE_BINARY_SENSOR'')" and p = api_descriptors_2])
    (simp add: api_descriptors_2_def, simp_all add: api_part_subset)

lemma id_ListEntitiesSensorResponse: "idByName api_registry ''ListEntitiesSensorResponse'' = Some 16"
  by (rule api_idI [where d = "descr ''ListEntitiesSensorResponse'' (Some 16) (Some SOURCE_SERVER) (Some ''USE_SENSOR'')" and p = api_descriptors_2])
    (simp add: api_descriptors_2_def, simp_all add: api_part_subset)

lemma id_ListEntitiesTextSensorResponse: "idByName api_registry ''ListEntitiesTextSensorResponse'' = Some 18"
  by (rule api_idI [where d = "descr ''ListEntitiesTextSensorResponse'' (Some 18) (Some SOURCE_SERVER) (Some ''USE_TEXT_SENSOR'')" and p = api_descriptors_3])
    (simp add: api_descriptors_3_def, simp_all add: api_part_subset)

lemma id_ListEntitiesSwitchResponse: "idByName api_registry ''ListEntitiesSwitchResponse'' = Some 17"
  by (rule api_idI [where d = "descr ''ListEntitiesSwitchResponse'' (Some 17) (Some SOURCE_SERVER) (Some ''USE_SWITCH'')" and p = api_descriptors_3])
    (simp add: api_descriptors_3_def, simp_all add: api_part_subset)

lemma id_ListEntitiesNumberResponse: "idByName api_registry ''ListEntitiesNumberResponse'' = Some 49"
  by (rule api_idI [where d = "descr ''ListEntitiesNumberResponse'' (Some 49) (Some SOURCE_SERVER) (Some ''USE_NUMBER'')" and p = api_descriptors_5])
    (simp add: api_descriptors_5_def, simp_all add: api_part_subset)

lemma id_ListEntitiesButtonResponse: "idByName api_registry ''ListEntitiesButtonResponse'' = Some 61"
  by (rule api_idI [where d = "descr ''ListEntitiesButtonResponse'' (Some 61) (Some SOURCE_SERVER) (Some ''USE_BUTTON'')" and p = api_descriptors_6])
    (simp add: api_descriptors_6_def, simp_all add: api_part_subset)

lemma id_ListEntitiesFanResponse: "idByName api_registry ''ListEntitiesFanResponse'' = Some 14"
  by (rule api_idI [where d = "descr ''ListEntitiesFanResponse'' (Some 14) (Some SOURCE_SERVER) (Some ''USE_FAN'')" and p = api_descriptors_2])
    (simp add: api_descriptors_2_def, simp_all add: api_part_subset)

lemma id_ListEntitiesLightResponse: "idByName api_registry ''ListEntitiesLightResponse'' = Some 15"
  by (rule api_idI [where d = "descr ''ListEntitiesLightResponse'' (Some 15) (Some SOURCE_SERVER) (Some ''USE_LIGHT'')" and p = api_descriptors_2])
    (simp add: api_descriptors_2_def, simp_all add: api_part_subset)

lemma id_BinarySensorStateResponse: "idByName api_registry ''BinarySensorStateResponse'' = Some 21"
  by (rule api_idI [where d = "descr ''BinarySensorStateResponse'' (Some 21) (Some SOURCE_SERVER) (Some ''USE_BINARY_SENSOR'')" and p = api_descriptors_2])
    (simp add: api_descriptors_2_def, simp_all add: api_part_subset)

lemma id_SensorStateResponse: "idByName api_registry ''SensorStateResponse'' = Some 25"
  by (rule api_idI [where d = "descr ''SensorStateResponse'' (Some 25) (Some SOURCE_SERVER) (Some ''USE_SENSOR'')" and p = api_descriptors_3])
    (simp add: api_descriptors_3_def, simp_all add: api_part_subset)

lemma id_TextSensorStateResponse: "idByName api_registry ''TextSensorStateResponse'' = Some 27"
  by (rule api_idI [where d = "descr ''TextSensorStateResponse'' (Some 27) (Some SOURCE_SERVER) (Some ''USE_TEXT_SENSOR'')" and p = api_descriptors_3])
    (simp add: api_descriptors_3_def, simp_all add: api_part_subset)

lemma id_SwitchStateResponse: "idByName api_registry ''SwitchStateResponse'' = Some 26"
  by (rule api_idI [where d = "descr ''SwitchStateResponse'' (Some 26) (Some SOURCE_SERVER) (Some ''USE_SWITCH'')" and p = api_descriptors_3])
    (simp add: api_descriptors_3_def, simp_all add: api_part_subset)

lemma id_NumberStateResponse: "idByName api_registry ''NumberStateResponse'' = Some 50"
  by (rule api_idI [where d = "descr ''NumberStateResponse'' (Some 50) (Some SOURCE_SERVER) (Some ''USE_NUMBER'')" and p = api_descriptors_5])
    (simp add: api_descriptors_5_def, simp_all add: api_part_subset)

lemma id_FanStateResponse: "idByName api_registry ''FanStateResponse'' = Some 23"
  by (rule api_idI [where d = "descr ''FanStateResponse'' (Some 23) (Some SOURCE_SERVER) (Some ''USE_FAN'')" and p = api_descriptors_2])
    (simp add: api_descriptors_2_def, simp_all add: api_part_subset)

lemma id_LightStateResponse: "idByName api_registry ''LightStateResponse'' = Some 24"
  by (rule api_idI [where d = "descr ''LightStateResponse'' (Some 24) (Some SOURCE_SERVER) (Some ''USE_LIGHT'')" and p = api_descriptors_2])
    (simp add: api_descriptors_2_def, simp_all add: api_part_subset)

lemma id_SwitchCommandRequest: "idByName api_registry ''SwitchCommandRequest'' = Some 33"
  by (rule api_idI [where d = "descr ''SwitchCommandRequest'' (Some 33) (Some SOURCE_CLIENT) (Some ''USE_SWITCH'')" and p = api_descriptors_3])
    (simp add: api_descriptors_3_def, simp_all add: api_part_subset)

lemma id_NumberCommandRequest: "idByName api_registry ''NumberCommandRequest'' = Some 51"
  by (rule api_idI [where d = "descr ''NumberCommandRequest'' (Some 51) (Some SOURCE_CLIENT) (Some ''USE_NUMBER'')" and p = api_descriptors_5])
    (simp add: api_descriptors_5_def, simp_all add: api_part_subset)

lemma id_ButtonCommandRequest: "idByName api_registry ''ButtonCommandRequest'' = Some 62"
  by (rule api_idI [where d = "descr ''ButtonCommandRequest'' (Some 62) (Some SOURCE_CLIENT) (Some ''USE_BUTTON'')" and p = api_descriptors_6])
    (simp add: api_descriptors_6_def, simp_all add: api_part_subset)

lemma id_FanCommandRequest: "idByName api_registry ''FanCommandRequest'' = Some 31"
  by (rule api_idI [where d = "descr ''FanCommandRequest'' (Some 31) (Some SOURCE_CLIENT) (Some ''USE_FAN'')" and p = api_descriptors_2])
    (simp add: api_descriptors_2_def, simp_all add: api_part_subset)

lemma id_LightCommandRequest: "idByName api_registry ''LightCommandRequest'' = Some 32"
  by (rule api_idI [where d = "descr ''LightCommandRequest'' (Some 32) (Some SOURCE_CLIENT) (Some ''USE_LIGHT'')" and p = api_descriptors_2])
    (simp add: api_descriptors_2_def, simp_all add: api_part_subset)

lemmas known_ids [simp] =
  id_HelloRequest
  id_HelloResponse
  id_DisconnectRequest
  id_DisconnectResponse
  id_PingRequest
  id_PingResponse
  id_DeviceInfoRequest
  id_DeviceInfoResponse
  id_ListEntitiesRequest
  id_ListEntitiesDoneResponse
  id_SubscribeStatesRequest
  id_SubscribeLogsRequest
  id_SubscribeLogsResponse
  id_ListEntitiesBinarySensorResponse
  id_ListEntitiesSensorResponse
  id_ListEntitiesTextSensorResponse
  id_ListEntitiesSwitchResponse
  id_ListEntitiesNumberResponse
  id_ListEntitiesButtonResponse
  id_ListEntitiesFanResponse
  id_ListEntitiesLightResponse
  id_BinarySensorStateResponse
  id_SensorStateResponse
  id_TextSensorStateResponse
  id_SwitchStateResponse
  id_NumberStateResponse
  id_FanStateResponse
  id_LightStateResponse
  id_SwitchCommandRequest
  id_NumberCommandRequest
  id_ButtonCommandRequest
  id_FanCommandRequest
  id_LightCommandRequest

section \<open>Properties\<close>

lemma message_name_new_message [simp]: "message_name (new_message n) = n"
  by (auto simp: new_message_def find_Some_iff split: option.splits)

lemma MessageID_eq_Inr:
  "MessageID r (Some m) = Inr i \<longleftrightarrow> idByName r (message_name m) = Some i"
  by (simp add: MessageID_def split: option.splits)

lemma MessageID_None: "MessageID r None \<noteq> Inr i"
  by (simp add: MessageID_def)

lemma NewMessage_eq_Inr:
  "NewMessage r i = Inr m \<longleftrightarrow> (\<exists>n. messageByID r i = Some n \<and> m = new_message n)"
  by (auto simp: NewMessage_def split: option.splits)

lemma NewMessage_error: "NewMessage r i = Inl e \<Longrightarrow> errors_is e ErrUnknownMessage"
  by (auto simp: NewMessage_def split: option.splits)

lemma Decode_error_classified:
  assumes "Decode pb r i p = Inl e"
  shows "errors_is e ErrUnknownMessage \<and> messageByID r i = None \<or> errors_is e ErrMalformedFrame"
  using assms
  by (auto simp: Decode_def unless_err_eq_Inl NewMessage_def split: option.splits)

lemma api_ids_range:
  "set (List.map_filter desc_id api_descriptors) = {i. 1 \<le> unat i \<and> unat i \<le> 148}"
  (is "?ids = ?range")
proof (rule card_subset_eq)
  show "finite ?range" by simp
  show "?ids \<subseteq> ?range" by (simp add: api_descriptors_def api_id_parts)
  have "card ?ids = 148"
    by (subst distinct_card [OF api_ids_distinct]) (simp add: api_descriptors_def api_id_parts)
  moreover have "?range = word_of_nat ` {1..148}"
  proof
    show "?range \<subseteq> word_of_nat ` {1..148}"
      by (auto intro!: image_eqI [where x = "unat i" for i])
    show "word_of_nat ` {1..148} \<subseteq> ?range"
      by (auto simp: unat_of_nat take_bit_nat_eq_self)
  qed
  moreover have "inj_on (word_of_nat :: nat \<Rightarrow> u32) {1..148}"
    by (rule inj_onI) (auto simp: word_of_nat_eq_iff take_bit_nat_eq_self)
  ultimately show "card ?ids = card ?range" by (simp add: card_image)
qed

lemma decode_of_marshal:
  assumes "protobuf_ok pb" "MessageID api_registry (Some m) = Inr i" "pb_marshal pb m = Inr p"
  shows "Decode pb api_registry i p = Inr m"
proof -
  have "messageByID api_registry i = Some (message_name m)"
    using assms(2) by (simp add: MessageID_eq_Inr api_lookup)
  then have "NewMessage api_registry i = Inr (new_message (message_name m))"
    by (simp add: NewMessage_def)
  then show ?thesis
    using assms by (simp add: Decode_def protobuf_ok_def)
qed

text \<open>C21. Any message the protobuf runtime can marshal and the registry can identify is restored
  exactly by decoding its payload under its id.\<close>

theorem decode_restores_message:
  assumes "protobuf_ok pb" "MessageID api_registry (Some m) = Inr i" "pb_marshal pb m = Inr p"
  shows "Decode pb api_registry i p = Inr m"
  using assms by (rule decode_of_marshal)

text \<open>A protobuf runtime for the witnesses: exact on messages without fields, which encode as the
  empty payload, and on messages kept as their contents.\<close>

definition empty_messages :: "message list" where
  "empty_messages = [DisconnectResponse, PingRequest, PingResponse, DeviceInfoRequest,
    ListEntitiesRequest, ListEntitiesDoneResponse, SubscribeStatesRequest]"

definition fieldless_protobuf :: protobuf where
  "fieldless_protobuf =
    \<lparr>pb_marshal = (\<lambda>m. if m \<in> set empty_messages then Inr [] else Fail ErrThirdParty),
     pb_unmarshal = (\<lambda>p m. if m \<in> set empty_messages \<and> p = [] then Inr m else Fail ErrThirdParty),
     pb_size = (\<lambda>m. 0)\<rparr>"

lemma fieldless_protobuf_ok: "protobuf_ok fieldless_protobuf"
  unfolding protobuf_ok_def fieldless_protobuf_def
  by (auto simp: empty_messages_def new_message_def zero_messages_def)

lemma decode_restores_message_witness:
  "Decode fieldless_protobuf api_registry 7 [] = Inr PingRequest"
  by (rule decode_restores_message [OF fieldless_protobuf_ok])
    (simp_all add: MessageID_eq_Inr fieldless_protobuf_def empty_messages_def)

lemma messageByID_range:
  "(\<exists>n. messageByID api_registry i = Some n) \<longleftrightarrow> 1 \<le> unat i \<and> unat i \<le> 148"
proof -
  have "(\<exists>n. messageByID api_registry i = Some n) \<longleftrightarrow>
      i \<noteq> 0 \<and> i \<in> set (List.map_filter desc_id api_descriptors)"
    by (force simp: api_lookup List.map_filter_def)
  also have "\<dots> \<longleftrightarrow> 1 \<le> unat i \<and> unat i \<le> 148"
    by (auto simp: api_ids_range)
  finally show ?thesis .
qed

text \<open>C22. The registry of the pinned protocol is a bijection between the ids 1 to 148 and the
  message types that carry an id: exactly these ids give a message, the messages of its type are
  exactly those with that id, and every other id is \<open>ErrUnknownMessage\<close>.\<close>

theorem registry_bijection:
  "if 1 \<le> unat i \<and> unat i \<le> 148
   then \<exists>m. NewMessage api_registry i = Inr m \<and>
     (\<forall>m'. (MessageID api_registry (Some m') = Inr i) = (message_name m' = message_name m))
   else \<exists>e. NewMessage api_registry i = Inl e \<and> errors_is e ErrUnknownMessage"
proof (cases "messageByID api_registry i")
  case None
  then have "\<not> (1 \<le> unat i \<and> unat i \<le> 148)" using messageByID_range [of i] by auto
  then show ?thesis using None by (auto simp: NewMessage_def)
next
  case (Some n)
  then have "1 \<le> unat i \<and> unat i \<le> 148" using messageByID_range [of i] by auto
  moreover have "idByName api_registry n' = Some i \<longleftrightarrow> n' = n" for n'
    using Some by (auto simp: api_lookup)
      (metis api_lookup(1) option.inject)+
  ultimately show ?thesis
    using Some by (simp add: NewMessage_def MessageID_eq_Inr)
qed

end
