(* ===== verification/Framer.thy ===== *)
theory Framer
  imports Plain_Frame Noise_Frame Registry
begin

text \<open>
  The \<open>Framer\<close> interface of \<open>internal/wire/wire.go\<close> and its two implementations on a
  connection. A connection is the stream it is read from, the writer it is written to and whether it
  was closed; after \<open>Close\<close> both directions fail with \<open>net.ErrClosed\<close>.

  A framer whose read failed is never read again by its callers, so the connection is left as it was.
  The locale \<open>framer_peer\<close> states what one end may expect of the other: a frame written without
  an error is read back as the same frame and leaves the two ends ready for the next one.
\<close>

section \<open>The interface\<close>

record 'f framer =
  fr_ReadFrame :: "'f \<Rightarrow> (u32 \<times> bytes) result \<times> 'f"
  fr_WriteFrame :: "u32 \<Rightarrow> bytes \<Rightarrow> 'f \<Rightarrow> goerror option \<times> 'f"
  fr_Close :: "'f \<Rightarrow> 'f"

record conn =
  cn_in :: stream
  cn_out :: writer
  cn_closed :: bool

section \<open>Plaintext\<close>

definition plain_read :: "plain_framer \<times> conn \<Rightarrow> (u32 \<times> bytes) result \<times> plain_framer \<times> conn" where
  "plain_read fc =
    (case fc of (f, c) \<Rightarrow>
      if cn_closed c then (Fail NetClosed, f, c)
      else (case plain_ReadFrame f (cn_in c) of
          Inl err \<Rightarrow> (Inl err, f, c)
        | Inr (frame, s) \<Rightarrow> (Inr frame, f, c\<lparr>cn_in := s\<rparr>)))"

text \<open>\<open>WriteFrame\<close> never panics (\<open>plain_frame_buffer_eq\<close>), so \<open>the\<close> is defined.\<close>

definition plain_write ::
  "u32 \<Rightarrow> bytes \<Rightarrow> plain_framer \<times> conn \<Rightarrow> goerror option \<times> plain_framer \<times> conn" where
  "plain_write t p fc =
    (case fc of (f, c) \<Rightarrow>
      if cn_closed c \<and> length p \<le> unat (pf_maxFrame f) then (Some (Err NetClosed), f, c)
      else (case the (plain_WriteFrame f t p (cn_out c)) of
          (err, w) \<Rightarrow> (err, f, c\<lparr>cn_out := w\<rparr>)))"

definition plain_ops :: "(plain_framer \<times> conn) framer" where
  "plain_ops =
    \<lparr>fr_ReadFrame = plain_read, fr_WriteFrame = plain_write,
     fr_Close = (\<lambda>(f, c). (f, c\<lparr>cn_closed := True\<rparr>))\<rparr>"

section \<open>Noise\<close>

definition noise_read ::
  "('h, 'c) noise_lib \<Rightarrow> 'c noise_framer \<times> conn \<Rightarrow> (u32 \<times> bytes) result \<times> 'c noise_framer \<times> conn" where
  "noise_read lib fc =
    (case fc of (f, c) \<Rightarrow>
      if cn_closed c then (Fail NetClosed, f, c)
      else (case noise_ReadFrame lib f (cn_in c) of
          Inl err \<Rightarrow> (Inl err, f, c)
        | Inr (frame, f', s) \<Rightarrow> (Inr frame, f', c\<lparr>cn_in := s\<rparr>)))"

text \<open>On a closed connection the frame is still checked and encrypted; the first write fails.\<close>

definition noise_write ::
  "('h, 'c) noise_lib \<Rightarrow> u32 \<Rightarrow> bytes \<Rightarrow> 'c noise_framer \<times> conn
    \<Rightarrow> goerror option \<times> 'c noise_framer \<times> conn" where
  "noise_write lib t p fc =
    (case fc of (f, c) \<Rightarrow>
      (case noise_WriteFrame lib f t p (cn_out c) of
        (err, f', w) \<Rightarrow>
          if cn_closed c then (Some (case err of Some e \<Rightarrow> e | None \<Rightarrow> Err NetClosed), f', c)
          else (err, f', c\<lparr>cn_out := w\<rparr>)))"

definition noise_ops :: "('h, 'c) noise_lib \<Rightarrow> ('c noise_framer \<times> conn) framer" where
  "noise_ops lib =
    \<lparr>fr_ReadFrame = noise_read lib, fr_WriteFrame = noise_write lib,
     fr_Close = (\<lambda>(f, c). (f, c\<lparr>cn_closed := True\<rparr>))\<rparr>"

section \<open>What the peer reads\<close>

text \<open>
  \<open>out\<close> is everything the writing end has put on the wire, \<open>recv\<close> the reading end's
  \<open>ReadFrame\<close> on a stream, and \<open>ready a b\<close> says that the two ends are in step.
\<close>

locale framer_peer =
  fixes W :: "'f framer"
    and out :: "'f \<Rightarrow> bytes"
    and recv :: "'g \<Rightarrow> stream \<Rightarrow> ((u32 \<times> bytes) \<times> 'g \<times> stream) result"
    and ready :: "'f \<Rightarrow> 'g \<Rightarrow> bool"
  assumes deliver: "ready a b \<Longrightarrow> fr_WriteFrame W t p a = (None, a') \<Longrightarrow>
    \<exists>bs b'. out a' = out a @ bs \<and> ready a' b' \<and>
      (\<forall>s rest. recv b (s\<lparr>pending := bs @ rest\<rparr>) = Inr ((t, p), b', s\<lparr>pending := rest\<rparr>))"
begin

fun write_all :: "(u32 \<times> bytes) list \<Rightarrow> 'f \<Rightarrow> goerror option \<times> 'f" where
  "write_all [] a = (None, a)"
| "write_all ((t, p) # ms) a =
    (case fr_WriteFrame W t p a of (Some e, a) \<Rightarrow> (Some e, a) | (None, a) \<Rightarrow> write_all ms a)"

fun recv_many :: "nat \<Rightarrow> 'g \<Rightarrow> stream \<Rightarrow> ((u32 \<times> bytes) list \<times> 'g \<times> stream) result" where
  "recv_many 0 b s = Inr ([], b, s)"
| "recv_many (Suc n) b s =
    unless_err (recv b s) id (\<lambda>(m, b, s). unless_err (recv_many n b s) id (\<lambda>(ms, b, s).
      Inr (m # ms, b, s)))"

lemma deliver_all:
  assumes "ready a b" "write_all ms a = (None, a')"
  shows "\<exists>bs b'. out a' = out a @ bs \<and> ready a' b' \<and>
    (\<forall>s rest. recv_many (length ms) b (s\<lparr>pending := bs @ rest\<rparr>) = Inr (ms, b', s\<lparr>pending := rest\<rparr>))"
  using assms
proof (induction ms arbitrary: a b)
  case Nil
  then show ?case by auto
next
  case (Cons m ms)
  obtain t p where m: "m = (t, p)" by (cases m)
  from Cons.prems(2) obtain a1 where w: "fr_WriteFrame W t p a = (None, a1)"
    and rest: "write_all ms a1 = (None, a')"
    by (auto simp: m split: prod.splits option.splits)
  from deliver [OF Cons.prems(1) w] obtain bs b1 where 1: "out a1 = out a @ bs" "ready a1 b1"
    "\<And>s rest. recv b (s\<lparr>pending := bs @ rest\<rparr>) = Inr ((t, p), b1, s\<lparr>pending := rest\<rparr>)" by blast
  from Cons.IH [OF 1(2) rest] obtain cs b' where 2: "out a' = out a1 @ cs" "ready a' b'"
    "\<And>s rest. recv_many (length ms) b1 (s\<lparr>pending := cs @ rest\<rparr>) = Inr (ms, b', s\<lparr>pending := rest\<rparr>)"
    by blast
  show ?case
    by (intro exI [of _ "bs @ cs"] exI [of _ b']) (simp add: m 1 2)
qed

end

definition plain_recv :: "plain_framer \<Rightarrow> stream \<Rightarrow> ((u32 \<times> bytes) \<times> plain_framer \<times> stream) result" where
  "plain_recv f s = unless_err (plain_ReadFrame f s) id (\<lambda>(m, s). Inr (m, f, s))"

text \<open>A plaintext reader accepts what a writer with a bound no larger sends.\<close>

definition plain_ready :: "plain_framer \<times> conn \<Rightarrow> plain_framer \<Rightarrow> bool" where
  "plain_ready a b \<longleftrightarrow> pf_maxFrame (fst a) \<le> pf_maxFrame b"

definition noise_ready ::
  "('h, 'c) noise_lib \<Rightarrow> ('c \<Rightarrow> 'c \<Rightarrow> bool) \<Rightarrow> 'c noise_framer \<times> conn \<Rightarrow> 'c noise_framer \<Rightarrow> bool" where
  "noise_ready lib sync a b \<longleftrightarrow>
    cipher_in_step lib sync \<and> sync (nf_encrypt (fst a)) (nf_decrypt b) \<and>
    nf_maxFrame (fst a) \<le> nf_maxFrame b \<and> nf_maxFrame (fst a) < 65536"

lemma plain_encode_mono:
  "plain_encode f m = Inr bs \<Longrightarrow> pf_maxFrame f \<le> pf_maxFrame g \<Longrightarrow> plain_encode g m = Inr bs"
  by (auto simp: plain_encode_def word_le_nat_alt split: if_splits)

lemma plain_write_ok:
  assumes "plain_write t p (f, c) = (None, a')"
  shows "\<exists>bs. plain_encode f (t, p) = Inr bs \<and> fst a' = f \<and>
    sent (cn_out (snd a')) = sent (cn_out c) @ bs"
proof -
  from assms obtain bs w where "plain_encode f (t, p) = Inr bs"
    "write_full (cn_out c) bs = (None, w)" "a' = (f, c\<lparr>cn_out := w\<rparr>)"
    by (auto simp: plain_write_def plain_WriteFrame_encode split: if_splits sum.splits prod.splits)
  then show ?thesis using write_full_sent [of "cn_out c" bs] by auto
qed

interpretation plain_link: framer_peer plain_ops "\<lambda>a. sent (cn_out (snd a))" plain_recv plain_ready
proof
  fix a :: "plain_framer \<times> conn" and b t p a'
  obtain f c where a: "a = (f, c)" by (cases a)
  assume ready: "plain_ready a b" and w: "fr_WriteFrame plain_ops t p a = (None, a')"
  from w have "plain_write t p (f, c) = (None, a')" by (simp add: a plain_ops_def)
  from plain_write_ok [OF this] obtain bs where bs: "plain_encode f (t, p) = Inr bs" "fst a' = f"
    "sent (cn_out (snd a')) = sent (cn_out c) @ bs" by blast
  have "plain_encode b (t, p) = Inr bs"
    using bs(1) ready by (auto simp: plain_ready_def a intro: plain_encode_mono)
  then have "plain_recv b (s\<lparr>pending := bs @ rest\<rparr>) = Inr ((t, p), b, s\<lparr>pending := rest\<rparr>)"
    for s rest by (simp add: plain_recv_def plain_dec_enc)
  then show "\<exists>bs b'. sent (cn_out (snd a')) = sent (cn_out (snd a)) @ bs \<and> plain_ready a' b' \<and>
      (\<forall>s rest. plain_recv b (s\<lparr>pending := bs @ rest\<rparr>) = Inr ((t, p), b', s\<lparr>pending := rest\<rparr>))"
    using bs ready by (auto simp: plain_ready_def a)
qed

interpretation noise_link: framer_peer "noise_ops lib" "\<lambda>a. sent (cn_out (snd a))"
  "noise_ReadFrame lib" "noise_ready lib sync" for lib sync
proof
  fix a :: "'b noise_framer \<times> conn" and b t p a'
  obtain f c where a: "a = (f, c)" by (cases a)
  assume ready: "noise_ready lib sync a b" and w: "fr_WriteFrame (noise_ops lib) t p a = (None, a')"
  from w obtain f' w' where wf: "noise_WriteFrame lib f t p (cn_out c) = (None, f', w')"
    and a': "a' = (f', c\<lparr>cn_out := w'\<rparr>)"
    by (auto simp: a noise_ops_def noise_write_def split: prod.splits if_splits option.splits)
  from ready have "cipher_in_step lib sync" "sync (nf_encrypt f) (nf_decrypt b)"
    "nf_maxFrame f \<le> nf_maxFrame b" "nf_maxFrame f < 65536"
    by (auto simp: noise_ready_def a)
  from noise_frame_roundtrip [OF this wf] obtain bs b' where "sent w' = sent (cn_out c) @ bs"
    "\<And>s rest. noise_ReadFrame lib b (s\<lparr>pending := bs @ rest\<rparr>) = Inr ((t, p), b', s\<lparr>pending := rest\<rparr>)"
    "sync (nf_encrypt f') (nf_decrypt b')" "nf_maxFrame f' = nf_maxFrame f"
    "nf_maxFrame b' = nf_maxFrame b" by blast
  then show "\<exists>bs b'. sent (cn_out (snd a')) = sent (cn_out (snd a)) @ bs \<and> noise_ready lib sync a' b' \<and>
      (\<forall>s rest. noise_ReadFrame lib b (s\<lparr>pending := bs @ rest\<rparr>) =
        Inr ((t, p), b', s\<lparr>pending := rest\<rparr>))"
    using ready by (auto simp: a a' noise_ready_def)
qed

section \<open>Either transport\<close>

text \<open>The framer value a client holds.\<close>

datatype 'c wire_conn =
    PlainConn "plain_framer \<times> conn"
  | NoiseConn "'c noise_framer \<times> conn"

primrec wire_conn_of :: "'c wire_conn \<Rightarrow> conn" where
  "wire_conn_of (PlainConn fc) = snd fc"
| "wire_conn_of (NoiseConn fc) = snd fc"

definition wire_ops :: "('h, 'c) noise_lib \<Rightarrow> 'c wire_conn framer" where
  "wire_ops lib =
    \<lparr>fr_ReadFrame = (\<lambda>w. case w of
        PlainConn fc \<Rightarrow> (case plain_read fc of (r, fc) \<Rightarrow> (r, PlainConn fc))
      | NoiseConn fc \<Rightarrow> (case noise_read lib fc of (r, fc) \<Rightarrow> (r, NoiseConn fc))),
     fr_WriteFrame = (\<lambda>t p w. case w of
        PlainConn fc \<Rightarrow> (case plain_write t p fc of (e, fc) \<Rightarrow> (e, PlainConn fc))
      | NoiseConn fc \<Rightarrow> (case noise_write lib t p fc of (e, fc) \<Rightarrow> (e, NoiseConn fc))),
     fr_Close = (\<lambda>w. case w of
        PlainConn (f, c) \<Rightarrow> PlainConn (f, c\<lparr>cn_closed := True\<rparr>)
      | NoiseConn (f, c) \<Rightarrow> NoiseConn (f, c\<lparr>cn_closed := True\<rparr>))\<rparr>"

end
