(* ===== verification/Entities.thy ===== *)
theory Entities
  imports Messages
begin

text \<open>
  The entity registry of \<open>entities.go\<close>: eight maps from entity keys to entity values, filled by
  discovery messages and updated by state messages (\<open>handle\<close>), read through snapshots
  (\<open>snapshot_values\<close>) and through \<open>domain\<close>, which the command methods consult.

  The maps hold pointers that never leave the registry (every read copies), so they are modelled as
  partial functions to values. The registry's lock makes each operation atomic.
\<close>

section \<open>Entities\<close>

datatype EntityDomain =
    DomainBinarySensor | DomainSensor | DomainTextSensor | DomainSwitch
  | DomainNumber | DomainButton | DomainFan | DomainLight

record entityBase =
  Key :: u32
  ObjectID :: string
  Name :: string

record BinarySensorEntity = entityBase +
  bs_State :: bool
  bs_MissingState :: bool

record SensorEntity = entityBase +
  se_State :: f32
  se_MissingState :: bool

record TextSensorEntity = entityBase +
  ts_State :: string
  ts_MissingState :: bool

record SwitchEntity = entityBase +
  sw_State :: bool

record NumberEntity = entityBase +
  nu_State :: f32
  nu_MissingState :: bool

type_synonym ButtonEntity = entityBase

record FanEntity = entityBase +
  fa_SupportsOscillation :: bool
  fa_SupportsSpeed :: bool
  fa_SupportsDirection :: bool
  fa_SupportedSpeedCount :: i32
  fa_SupportedPresetModes :: "string list"
  fa_State :: bool
  fa_Oscillating :: bool
  fa_Direction :: i32
  fa_SpeedLevel :: i32
  fa_PresetMode :: string

record LightEntity = entityBase +
  li_SupportedColourModes :: "i32 list"
  li_Effects :: "string list"
  li_State :: bool
  li_Brightness :: f32
  li_ColourMode :: i32
  li_ColourBrightness :: f32
  li_Red :: f32
  li_Green :: f32
  li_Blue :: f32
  li_White :: f32
  li_ColourTemperature :: f32
  li_ColdWhite :: f32
  li_WarmWhite :: f32
  li_Effect :: string

record EntityRegistry =
  binarySensors :: "u32 \<rightharpoonup> BinarySensorEntity"
  sensors :: "u32 \<rightharpoonup> SensorEntity"
  textSensors :: "u32 \<rightharpoonup> TextSensorEntity"
  switches :: "u32 \<rightharpoonup> SwitchEntity"
  numbers :: "u32 \<rightharpoonup> NumberEntity"
  buttons :: "u32 \<rightharpoonup> ButtonEntity"
  fans :: "u32 \<rightharpoonup> FanEntity"
  lights :: "u32 \<rightharpoonup> LightEntity"

definition newEntityRegistry :: EntityRegistry where
  "newEntityRegistry =
    \<lparr>binarySensors = Map.empty,
      sensors = Map.empty,
      textSensors = Map.empty,
      switches = Map.empty,
      numbers = Map.empty,
      buttons = Map.empty,
      fans = Map.empty,
      lights = Map.empty\<rparr>"

section \<open>Handling a message\<close>

definition listed_BinarySensor :: "ListEntitiesBinarySensorResponse \<Rightarrow> BinarySensorEntity" where
  "listed_BinarySensor m =
    \<lparr>Key = BinarySensorInfo_Key m, ObjectID = BinarySensorInfo_ObjectId m, Name = BinarySensorInfo_Name m,
      bs_State = False,
      bs_MissingState = False\<rparr>"

definition listed_Sensor :: "ListEntitiesSensorResponse \<Rightarrow> SensorEntity" where
  "listed_Sensor m =
    \<lparr>Key = SensorInfo_Key m, ObjectID = SensorInfo_ObjectId m, Name = SensorInfo_Name m,
      se_State = 0,
      se_MissingState = False\<rparr>"

definition listed_TextSensor :: "ListEntitiesTextSensorResponse \<Rightarrow> TextSensorEntity" where
  "listed_TextSensor m =
    \<lparr>Key = TextSensorInfo_Key m, ObjectID = TextSensorInfo_ObjectId m, Name = TextSensorInfo_Name m,
      ts_State = '''',
      ts_MissingState = False\<rparr>"

definition listed_Switch :: "ListEntitiesSwitchResponse \<Rightarrow> SwitchEntity" where
  "listed_Switch m =
    \<lparr>Key = SwitchInfo_Key m, ObjectID = SwitchInfo_ObjectId m, Name = SwitchInfo_Name m,
      sw_State = False\<rparr>"

definition listed_Number :: "ListEntitiesNumberResponse \<Rightarrow> NumberEntity" where
  "listed_Number m =
    \<lparr>Key = NumberInfo_Key m, ObjectID = NumberInfo_ObjectId m, Name = NumberInfo_Name m,
      nu_State = 0,
      nu_MissingState = False\<rparr>"

definition listed_Button :: "ListEntitiesButtonResponse \<Rightarrow> ButtonEntity" where
  "listed_Button m =
    \<lparr>Key = ButtonInfo_Key m, ObjectID = ButtonInfo_ObjectId m, Name = ButtonInfo_Name m\<rparr>"

definition listed_Fan :: "ListEntitiesFanResponse \<Rightarrow> FanEntity" where
  "listed_Fan m =
    \<lparr>Key = FanInfo_Key m, ObjectID = FanInfo_ObjectId m, Name = FanInfo_Name m,
      fa_SupportsOscillation = FanInfo_SupportsOscillation m,
      fa_SupportsSpeed = FanInfo_SupportsSpeed m,
      fa_SupportsDirection = FanInfo_SupportsDirection m,
      fa_SupportedSpeedCount = FanInfo_SupportedSpeedCount m,
      fa_SupportedPresetModes = FanInfo_SupportedPresetModes m,
      fa_State = False,
      fa_Oscillating = False,
      fa_Direction = 0,
      fa_SpeedLevel = 0,
      fa_PresetMode = ''''\<rparr>"

definition listed_Light :: "ListEntitiesLightResponse \<Rightarrow> LightEntity" where
  "listed_Light m =
    \<lparr>Key = LightInfo_Key m, ObjectID = LightInfo_ObjectId m, Name = LightInfo_Name m,
      li_SupportedColourModes = LightInfo_SupportedColorModes m,
      li_Effects = LightInfo_Effects m,
      li_State = False,
      li_Brightness = 0,
      li_ColourMode = 0,
      li_ColourBrightness = 0,
      li_Red = 0,
      li_Green = 0,
      li_Blue = 0,
      li_White = 0,
      li_ColourTemperature = 0,
      li_ColdWhite = 0,
      li_WarmWhite = 0,
      li_Effect = ''''\<rparr>"

definition observe_BinarySensor :: "BinarySensorStateResponse \<Rightarrow> BinarySensorEntity \<Rightarrow> BinarySensorEntity" where
  "observe_BinarySensor m e =
    e\<lparr>bs_State := BinarySensorState_State m,
      bs_MissingState := BinarySensorState_MissingState m\<rparr>"

definition observe_Sensor :: "SensorStateResponse \<Rightarrow> SensorEntity \<Rightarrow> SensorEntity" where
  "observe_Sensor m e =
    e\<lparr>se_State := SensorState_State m,
      se_MissingState := SensorState_MissingState m\<rparr>"

definition observe_TextSensor :: "TextSensorStateResponse \<Rightarrow> TextSensorEntity \<Rightarrow> TextSensorEntity" where
  "observe_TextSensor m e =
    e\<lparr>ts_State := TextSensorState_State m,
      ts_MissingState := TextSensorState_MissingState m\<rparr>"

definition observe_Switch :: "SwitchStateResponse \<Rightarrow> SwitchEntity \<Rightarrow> SwitchEntity" where
  "observe_Switch m e =
    e\<lparr>sw_State := SwitchState_State m\<rparr>"

definition observe_Number :: "NumberStateResponse \<Rightarrow> NumberEntity \<Rightarrow> NumberEntity" where
  "observe_Number m e =
    e\<lparr>nu_State := NumberState_State m,
      nu_MissingState := NumberState_MissingState m\<rparr>"

definition observe_Fan :: "FanStateResponse \<Rightarrow> FanEntity \<Rightarrow> FanEntity" where
  "observe_Fan m e =
    e\<lparr>fa_State := FanState_State m,
      fa_Oscillating := FanState_Oscillating m,
      fa_Direction := FanState_Direction m,
      fa_SpeedLevel := FanState_SpeedLevel m,
      fa_PresetMode := FanState_PresetMode m\<rparr>"

definition observe_Light :: "LightStateResponse \<Rightarrow> LightEntity \<Rightarrow> LightEntity" where
  "observe_Light m e =
    e\<lparr>li_State := LightState_State m,
      li_Brightness := LightState_Brightness m,
      li_ColourMode := LightState_ColorMode m,
      li_ColourBrightness := LightState_ColorBrightness m,
      li_Red := LightState_Red m,
      li_Green := LightState_Green m,
      li_Blue := LightState_Blue m,
      li_White := LightState_White m,
      li_ColourTemperature := LightState_ColorTemperature m,
      li_ColdWhite := LightState_ColdWhite m,
      li_WarmWhite := LightState_WarmWhite m,
      li_Effect := LightState_Effect m\<rparr>"

text \<open>An update through the pointer a map holds: nothing happens when the key is absent.\<close>

definition update_at :: "u32 \<Rightarrow> ('e \<Rightarrow> 'e) \<Rightarrow> (u32 \<rightharpoonup> 'e) \<Rightarrow> (u32 \<rightharpoonup> 'e)" where
  "update_at k f m = (case m k of None \<Rightarrow> m | Some e \<Rightarrow> m(k \<mapsto> f e))"

definition handle :: "message \<Rightarrow> EntityRegistry \<Rightarrow> EntityRegistry" where
  "handle message r =
    (case message of
      ListEntitiesBinarySensorResponse m \<Rightarrow>
        r\<lparr>binarySensors := (binarySensors r)(BinarySensorInfo_Key m \<mapsto> listed_BinarySensor m)\<rparr>
    | ListEntitiesSensorResponse m \<Rightarrow>
        r\<lparr>sensors := (sensors r)(SensorInfo_Key m \<mapsto> listed_Sensor m)\<rparr>
    | ListEntitiesTextSensorResponse m \<Rightarrow>
        r\<lparr>textSensors := (textSensors r)(TextSensorInfo_Key m \<mapsto> listed_TextSensor m)\<rparr>
    | ListEntitiesSwitchResponse m \<Rightarrow>
        r\<lparr>switches := (switches r)(SwitchInfo_Key m \<mapsto> listed_Switch m)\<rparr>
    | ListEntitiesNumberResponse m \<Rightarrow>
        r\<lparr>numbers := (numbers r)(NumberInfo_Key m \<mapsto> listed_Number m)\<rparr>
    | ListEntitiesButtonResponse m \<Rightarrow>
        r\<lparr>buttons := (buttons r)(ButtonInfo_Key m \<mapsto> listed_Button m)\<rparr>
    | ListEntitiesFanResponse m \<Rightarrow>
        r\<lparr>fans := (fans r)(FanInfo_Key m \<mapsto> listed_Fan m)\<rparr>
    | ListEntitiesLightResponse m \<Rightarrow>
        r\<lparr>lights := (lights r)(LightInfo_Key m \<mapsto> listed_Light m)\<rparr>
    | BinarySensorStateResponse m \<Rightarrow>
        r\<lparr>binarySensors := update_at (BinarySensorState_Key m) (observe_BinarySensor m) (binarySensors r)\<rparr>
    | SensorStateResponse m \<Rightarrow>
        r\<lparr>sensors := update_at (SensorState_Key m) (observe_Sensor m) (sensors r)\<rparr>
    | TextSensorStateResponse m \<Rightarrow>
        r\<lparr>textSensors := update_at (TextSensorState_Key m) (observe_TextSensor m) (textSensors r)\<rparr>
    | SwitchStateResponse m \<Rightarrow>
        r\<lparr>switches := update_at (SwitchState_Key m) (observe_Switch m) (switches r)\<rparr>
    | NumberStateResponse m \<Rightarrow>
        r\<lparr>numbers := update_at (NumberState_Key m) (observe_Number m) (numbers r)\<rparr>
    | FanStateResponse m \<Rightarrow>
        r\<lparr>fans := update_at (FanState_Key m) (observe_Fan m) (fans r)\<rparr>
    | LightStateResponse m \<Rightarrow>
        r\<lparr>lights := update_at (LightState_Key m) (observe_Light m) (lights r)\<rparr>
    | _ \<Rightarrow> r)"

section \<open>Reading the registry\<close>

text \<open>
  A snapshot of one map. Go ranges over a map in an unspecified order, given here as the list of
  keys in the order they are visited.
\<close>

definition snapshot_values :: "'k list \<Rightarrow> ('k \<rightharpoonup> 'e) \<Rightarrow> 'e list" where
  "snapshot_values order source = List.map_filter source order"

definition visits :: "'k list \<Rightarrow> ('k \<rightharpoonup> 'e) \<Rightarrow> bool" where
  "visits order source \<longleftrightarrow> distinct order \<and> set order = dom source"

definition BinarySensors :: "u32 list \<Rightarrow> EntityRegistry \<Rightarrow> BinarySensorEntity list" where
  "BinarySensors order r = snapshot_values order (binarySensors r)"

definition Sensors :: "u32 list \<Rightarrow> EntityRegistry \<Rightarrow> SensorEntity list" where
  "Sensors order r = snapshot_values order (sensors r)"

definition TextSensors :: "u32 list \<Rightarrow> EntityRegistry \<Rightarrow> TextSensorEntity list" where
  "TextSensors order r = snapshot_values order (textSensors r)"

definition Switches :: "u32 list \<Rightarrow> EntityRegistry \<Rightarrow> SwitchEntity list" where
  "Switches order r = snapshot_values order (switches r)"

definition Numbers :: "u32 list \<Rightarrow> EntityRegistry \<Rightarrow> NumberEntity list" where
  "Numbers order r = snapshot_values order (numbers r)"

definition Buttons :: "u32 list \<Rightarrow> EntityRegistry \<Rightarrow> ButtonEntity list" where
  "Buttons order r = snapshot_values order (buttons r)"

definition Fans :: "u32 list \<Rightarrow> EntityRegistry \<Rightarrow> FanEntity list" where
  "Fans order r = snapshot_values order (fans r)"

definition Lights :: "u32 list \<Rightarrow> EntityRegistry \<Rightarrow> LightEntity list" where
  "Lights order r = snapshot_values order (lights r)"

definition domain :: "EntityRegistry \<Rightarrow> u32 \<Rightarrow> EntityDomain option" where
  "domain r key =
    (if binarySensors r key \<noteq> None then Some DomainBinarySensor
     else if sensors r key \<noteq> None then Some DomainSensor
     else if textSensors r key \<noteq> None then Some DomainTextSensor
     else if switches r key \<noteq> None then Some DomainSwitch
     else if numbers r key \<noteq> None then Some DomainNumber
     else if buttons r key \<noteq> None then Some DomainButton
     else if fans r key \<noteq> None then Some DomainFan
     else if lights r key \<noteq> None then Some DomainLight
     else None)"

section \<open>Entity families\<close>

text \<open>
  What one of the eight maps promises: a listing message of the family creates the entity under its
  key, a state message updates the entity if it is there and overwrites the previous state, and every
  other message leaves the entity alone.
\<close>

fun last_some :: "('m \<Rightarrow> 's option) \<Rightarrow> 'm list \<Rightarrow> 's option" where
  "last_some g [] = None"
| "last_some g (m # ms) = (case last_some g ms of Some x \<Rightarrow> Some x | None \<Rightarrow> g m)"

text \<open>The entity of the last listing and the messages that followed it.\<close>

fun after_listing :: "('m \<Rightarrow> 'e option) \<Rightarrow> 'm list \<Rightarrow> ('e \<times> 'm list) option" where
  "after_listing l [] = None"
| "after_listing l (m # ms) =
    (case after_listing l ms of
      Some x \<Rightarrow> Some x
    | None \<Rightarrow> (case l m of Some e \<Rightarrow> Some (e, ms) | None \<Rightarrow> None))"

definition history ::
  "('m \<Rightarrow> 'e option) \<Rightarrow> ('m \<Rightarrow> 's option) \<Rightarrow> ('s \<Rightarrow> 'e \<Rightarrow> 'e) \<Rightarrow> 'm list \<Rightarrow> 'e option" where
  "history listing state observe ms =
    (case after_listing listing ms of
      None \<Rightarrow> None
    | Some (e, later) \<Rightarrow>
        Some (case last_some state later of None \<Rightarrow> e | Some s \<Rightarrow> observe s e))"

locale entity_family =
  fixes field :: "EntityRegistry \<Rightarrow> u32 \<Rightarrow> 'e option"
    and listing :: "u32 \<Rightarrow> message \<Rightarrow> 'e option"
    and state :: "u32 \<Rightarrow> message \<Rightarrow> 's option"
    and observe :: "'s \<Rightarrow> 'e \<Rightarrow> 'e"
    and key :: "'e \<Rightarrow> u32"
  assumes empty: "field newEntityRegistry k = None"
    and step: "field (handle m r) k =
      (case listing k m of
        Some e \<Rightarrow> Some e
      | None \<Rightarrow> (case state k m of None \<Rightarrow> field r k | Some s \<Rightarrow> map_option (observe s) (field r k)))"
    and overwrite: "observe s (observe s' e) = observe s e"
    and listing_key: "listing k m = Some e \<Longrightarrow> key e = k"
    and observe_key: "key (observe s e) = key e"
begin

lemma after_listing_snoc:
  "after_listing l (ms @ [m]) =
    (case l m of Some e \<Rightarrow> Some (e, [])
     | None \<Rightarrow> map_option (\<lambda>(e, later). (e, later @ [m])) (after_listing l ms))"
  by (induction ms) (auto split: option.splits)

lemma last_some_snoc:
  "last_some g (ms @ [m]) = (case g m of Some x \<Rightarrow> Some x | None \<Rightarrow> last_some g ms)"
  by (induction ms) (auto split: option.splits)

lemma follows_history:
  "field (fold handle ms newEntityRegistry) k = history (listing k) (state k) observe ms"
proof (induction ms rule: rev_induct)
  case Nil
  then show ?case by (simp add: empty history_def)
next
  case (snoc m ms)
  then show ?case
    by (auto simp: step history_def after_listing_snoc last_some_snoc overwrite split: option.splits)
qed

lemma keyed: "field (fold handle ms newEntityRegistry) k = Some e \<Longrightarrow> key e = k"
proof (induction ms arbitrary: e rule: rev_induct)
  case Nil
  then show ?case by (simp add: empty)
next
  case (snoc m ms)
  then show ?case
    by (auto simp: step listing_key observe_key split: option.splits)
qed

lemma present_stable:
  "field r k \<noteq> None \<Longrightarrow> field (fold handle ms r) k \<noteq> None"
  by (induction ms arbitrary: r) (auto simp: step split: option.splits)

lemma present_iff:
  "field (fold handle ms newEntityRegistry) k \<noteq> None \<longleftrightarrow> list_ex (\<lambda>m. listing k m \<noteq> None) ms"
proof (induction ms rule: rev_induct)
  case Nil
  then show ?case by (simp add: empty)
next
  case (snoc m ms)
  then show ?case
    by (auto simp: step split: option.splits)
qed

lemma snapshot_keys:
  "visits order (field (fold handle ms newEntityRegistry)) \<Longrightarrow>
    map key (snapshot_values order (field (fold handle ms newEntityRegistry))) = order"
proof -
  let ?f = "field (fold handle ms newEntityRegistry)"
  assume "visits order ?f"
  then have "set order \<subseteq> dom ?f" by (simp add: visits_def)
  then show ?thesis
    by (induction order) (auto simp: snapshot_values_def map_filter_simps dest: keyed)
qed

end

definition BinarySensor_listing :: "u32 \<Rightarrow> message \<Rightarrow> BinarySensorEntity option" where
  "BinarySensor_listing k message =
    (case message of
      ListEntitiesBinarySensorResponse m \<Rightarrow> if BinarySensorInfo_Key m = k then Some (listed_BinarySensor m) else None
    | _ \<Rightarrow> None)"

definition BinarySensor_state :: "u32 \<Rightarrow> message \<Rightarrow> BinarySensorStateResponse option" where
  "BinarySensor_state k message =
    (case message of
      BinarySensorStateResponse m \<Rightarrow> if BinarySensorState_Key m = k then Some m else None
    | _ \<Rightarrow> None)"

definition Sensor_listing :: "u32 \<Rightarrow> message \<Rightarrow> SensorEntity option" where
  "Sensor_listing k message =
    (case message of
      ListEntitiesSensorResponse m \<Rightarrow> if SensorInfo_Key m = k then Some (listed_Sensor m) else None
    | _ \<Rightarrow> None)"

definition Sensor_state :: "u32 \<Rightarrow> message \<Rightarrow> SensorStateResponse option" where
  "Sensor_state k message =
    (case message of
      SensorStateResponse m \<Rightarrow> if SensorState_Key m = k then Some m else None
    | _ \<Rightarrow> None)"

definition TextSensor_listing :: "u32 \<Rightarrow> message \<Rightarrow> TextSensorEntity option" where
  "TextSensor_listing k message =
    (case message of
      ListEntitiesTextSensorResponse m \<Rightarrow> if TextSensorInfo_Key m = k then Some (listed_TextSensor m) else None
    | _ \<Rightarrow> None)"

definition TextSensor_state :: "u32 \<Rightarrow> message \<Rightarrow> TextSensorStateResponse option" where
  "TextSensor_state k message =
    (case message of
      TextSensorStateResponse m \<Rightarrow> if TextSensorState_Key m = k then Some m else None
    | _ \<Rightarrow> None)"

definition Switch_listing :: "u32 \<Rightarrow> message \<Rightarrow> SwitchEntity option" where
  "Switch_listing k message =
    (case message of
      ListEntitiesSwitchResponse m \<Rightarrow> if SwitchInfo_Key m = k then Some (listed_Switch m) else None
    | _ \<Rightarrow> None)"

definition Switch_state :: "u32 \<Rightarrow> message \<Rightarrow> SwitchStateResponse option" where
  "Switch_state k message =
    (case message of
      SwitchStateResponse m \<Rightarrow> if SwitchState_Key m = k then Some m else None
    | _ \<Rightarrow> None)"

definition Number_listing :: "u32 \<Rightarrow> message \<Rightarrow> NumberEntity option" where
  "Number_listing k message =
    (case message of
      ListEntitiesNumberResponse m \<Rightarrow> if NumberInfo_Key m = k then Some (listed_Number m) else None
    | _ \<Rightarrow> None)"

definition Number_state :: "u32 \<Rightarrow> message \<Rightarrow> NumberStateResponse option" where
  "Number_state k message =
    (case message of
      NumberStateResponse m \<Rightarrow> if NumberState_Key m = k then Some m else None
    | _ \<Rightarrow> None)"

definition Button_listing :: "u32 \<Rightarrow> message \<Rightarrow> ButtonEntity option" where
  "Button_listing k message =
    (case message of
      ListEntitiesButtonResponse m \<Rightarrow> if ButtonInfo_Key m = k then Some (listed_Button m) else None
    | _ \<Rightarrow> None)"

definition Fan_listing :: "u32 \<Rightarrow> message \<Rightarrow> FanEntity option" where
  "Fan_listing k message =
    (case message of
      ListEntitiesFanResponse m \<Rightarrow> if FanInfo_Key m = k then Some (listed_Fan m) else None
    | _ \<Rightarrow> None)"

definition Fan_state :: "u32 \<Rightarrow> message \<Rightarrow> FanStateResponse option" where
  "Fan_state k message =
    (case message of
      FanStateResponse m \<Rightarrow> if FanState_Key m = k then Some m else None
    | _ \<Rightarrow> None)"

definition Light_listing :: "u32 \<Rightarrow> message \<Rightarrow> LightEntity option" where
  "Light_listing k message =
    (case message of
      ListEntitiesLightResponse m \<Rightarrow> if LightInfo_Key m = k then Some (listed_Light m) else None
    | _ \<Rightarrow> None)"

definition Light_state :: "u32 \<Rightarrow> message \<Rightarrow> LightStateResponse option" where
  "Light_state k message =
    (case message of
      LightStateResponse m \<Rightarrow> if LightState_Key m = k then Some m else None
    | _ \<Rightarrow> None)"

text \<open>Buttons have no state messages.\<close>

definition Button_state :: "u32 \<Rightarrow> message \<Rightarrow> unit option" where
  "Button_state k message = None"

interpretation bs: entity_family binarySensors BinarySensor_listing BinarySensor_state observe_BinarySensor Key
proof
  show "binarySensors (handle m r) k =
      (case BinarySensor_listing k m of
        Some e \<Rightarrow> Some e
      | None \<Rightarrow> (case BinarySensor_state k m of None \<Rightarrow> binarySensors r k | Some s \<Rightarrow> map_option (observe_BinarySensor s) (binarySensors r k)))"
    for m r k
    by (cases m) (auto simp: handle_def BinarySensor_listing_def BinarySensor_state_def update_at_def split: option.splits)
qed (auto simp: newEntityRegistry_def BinarySensor_listing_def listed_BinarySensor_def observe_BinarySensor_def split: message.splits if_splits)

interpretation se: entity_family sensors Sensor_listing Sensor_state observe_Sensor Key
proof
  show "sensors (handle m r) k =
      (case Sensor_listing k m of
        Some e \<Rightarrow> Some e
      | None \<Rightarrow> (case Sensor_state k m of None \<Rightarrow> sensors r k | Some s \<Rightarrow> map_option (observe_Sensor s) (sensors r k)))"
    for m r k
    by (cases m) (auto simp: handle_def Sensor_listing_def Sensor_state_def update_at_def split: option.splits)
qed (auto simp: newEntityRegistry_def Sensor_listing_def listed_Sensor_def observe_Sensor_def split: message.splits if_splits)

interpretation ts: entity_family textSensors TextSensor_listing TextSensor_state observe_TextSensor Key
proof
  show "textSensors (handle m r) k =
      (case TextSensor_listing k m of
        Some e \<Rightarrow> Some e
      | None \<Rightarrow> (case TextSensor_state k m of None \<Rightarrow> textSensors r k | Some s \<Rightarrow> map_option (observe_TextSensor s) (textSensors r k)))"
    for m r k
    by (cases m) (auto simp: handle_def TextSensor_listing_def TextSensor_state_def update_at_def split: option.splits)
qed (auto simp: newEntityRegistry_def TextSensor_listing_def listed_TextSensor_def observe_TextSensor_def split: message.splits if_splits)

interpretation sw: entity_family switches Switch_listing Switch_state observe_Switch Key
proof
  show "switches (handle m r) k =
      (case Switch_listing k m of
        Some e \<Rightarrow> Some e
      | None \<Rightarrow> (case Switch_state k m of None \<Rightarrow> switches r k | Some s \<Rightarrow> map_option (observe_Switch s) (switches r k)))"
    for m r k
    by (cases m) (auto simp: handle_def Switch_listing_def Switch_state_def update_at_def split: option.splits)
qed (auto simp: newEntityRegistry_def Switch_listing_def listed_Switch_def observe_Switch_def split: message.splits if_splits)

interpretation nu: entity_family numbers Number_listing Number_state observe_Number Key
proof
  show "numbers (handle m r) k =
      (case Number_listing k m of
        Some e \<Rightarrow> Some e
      | None \<Rightarrow> (case Number_state k m of None \<Rightarrow> numbers r k | Some s \<Rightarrow> map_option (observe_Number s) (numbers r k)))"
    for m r k
    by (cases m) (auto simp: handle_def Number_listing_def Number_state_def update_at_def split: option.splits)
qed (auto simp: newEntityRegistry_def Number_listing_def listed_Number_def observe_Number_def split: message.splits if_splits)

interpretation bt: entity_family buttons Button_listing Button_state "\<lambda>_ e. e" Key
proof
  show "buttons (handle m r) k =
      (case Button_listing k m of
        Some e \<Rightarrow> Some e
      | None \<Rightarrow> (case Button_state k m of None \<Rightarrow> buttons r k | Some s \<Rightarrow> map_option ((\<lambda>_ e. e) s) (buttons r k)))"
    for m r k
    by (cases m) (auto simp: handle_def Button_listing_def Button_state_def update_at_def split: option.splits)
qed (auto simp: newEntityRegistry_def Button_listing_def listed_Button_def split: message.splits if_splits)

interpretation fa: entity_family fans Fan_listing Fan_state observe_Fan Key
proof
  show "fans (handle m r) k =
      (case Fan_listing k m of
        Some e \<Rightarrow> Some e
      | None \<Rightarrow> (case Fan_state k m of None \<Rightarrow> fans r k | Some s \<Rightarrow> map_option (observe_Fan s) (fans r k)))"
    for m r k
    by (cases m) (auto simp: handle_def Fan_listing_def Fan_state_def update_at_def split: option.splits)
qed (auto simp: newEntityRegistry_def Fan_listing_def listed_Fan_def observe_Fan_def split: message.splits if_splits)

interpretation li: entity_family lights Light_listing Light_state observe_Light Key
proof
  show "lights (handle m r) k =
      (case Light_listing k m of
        Some e \<Rightarrow> Some e
      | None \<Rightarrow> (case Light_state k m of None \<Rightarrow> lights r k | Some s \<Rightarrow> map_option (observe_Light s) (lights r k)))"
    for m r k
    by (cases m) (auto simp: handle_def Light_listing_def Light_state_def update_at_def split: option.splits)
qed (auto simp: newEntityRegistry_def Light_listing_def listed_Light_def observe_Light_def split: message.splits if_splits)

section \<open>Properties\<close>

text \<open>The family a message lists the key in.\<close>

definition listed_domain :: "u32 \<Rightarrow> message \<Rightarrow> EntityDomain option" where
  "listed_domain k message =
    (case message of
      ListEntitiesBinarySensorResponse m \<Rightarrow> if BinarySensorInfo_Key m = k then Some DomainBinarySensor else None
    | ListEntitiesSensorResponse m \<Rightarrow> if SensorInfo_Key m = k then Some DomainSensor else None
    | ListEntitiesTextSensorResponse m \<Rightarrow> if TextSensorInfo_Key m = k then Some DomainTextSensor else None
    | ListEntitiesSwitchResponse m \<Rightarrow> if SwitchInfo_Key m = k then Some DomainSwitch else None
    | ListEntitiesNumberResponse m \<Rightarrow> if NumberInfo_Key m = k then Some DomainNumber else None
    | ListEntitiesButtonResponse m \<Rightarrow> if ButtonInfo_Key m = k then Some DomainButton else None
    | ListEntitiesFanResponse m \<Rightarrow> if FanInfo_Key m = k then Some DomainFan else None
    | ListEntitiesLightResponse m \<Rightarrow> if LightInfo_Key m = k then Some DomainLight else None
    | _ \<Rightarrow> None)"

definition domain_order :: "EntityDomain list" where
  "domain_order = [DomainBinarySensor, DomainSensor, DomainTextSensor, DomainSwitch,
    DomainNumber, DomainButton, DomainFan, DomainLight]"

lemma listed_domain_iff:
  "listed_domain k m = Some DomainBinarySensor \<longleftrightarrow> BinarySensor_listing k m \<noteq> None"
  "listed_domain k m = Some DomainSensor \<longleftrightarrow> Sensor_listing k m \<noteq> None"
  "listed_domain k m = Some DomainTextSensor \<longleftrightarrow> TextSensor_listing k m \<noteq> None"
  "listed_domain k m = Some DomainSwitch \<longleftrightarrow> Switch_listing k m \<noteq> None"
  "listed_domain k m = Some DomainNumber \<longleftrightarrow> Number_listing k m \<noteq> None"
  "listed_domain k m = Some DomainButton \<longleftrightarrow> Button_listing k m \<noteq> None"
  "listed_domain k m = Some DomainFan \<longleftrightarrow> Fan_listing k m \<noteq> None"
  "listed_domain k m = Some DomainLight \<longleftrightarrow> Light_listing k m \<noteq> None"
  by (cases m; simp add: listed_domain_def BinarySensor_listing_def Sensor_listing_def TextSensor_listing_def Switch_listing_def Number_listing_def Button_listing_def Fan_listing_def Light_listing_def)+


text \<open>A snapshot lists each registered entity once, under its own key, whatever order the map is
  visited in.\<close>

theorem snapshots_keyed:
  fixes ms
  defines "r \<equiv> fold handle ms newEntityRegistry"
  assumes "visits o1 (binarySensors r)"
    and "visits o2 (sensors r)"
    and "visits o3 (textSensors r)"
    and "visits o4 (switches r)"
    and "visits o5 (numbers r)"
    and "visits o6 (buttons r)"
    and "visits o7 (fans r)"
    and "visits o8 (lights r)"
  shows "map Key (BinarySensors o1 r) = o1 \<and>
    map Key (Sensors o2 r) = o2 \<and>
    map Key (TextSensors o3 r) = o3 \<and>
    map Key (Switches o4 r) = o4 \<and>
    map Key (Numbers o5 r) = o5 \<and>
    map Key (Buttons o6 r) = o6 \<and>
    map Key (Fans o7 r) = o7 \<and>
    map Key (Lights o8 r) = o8"
  using assms unfolding BinarySensors_def Sensors_def TextSensors_def Switches_def Numbers_def Buttons_def Fans_def Lights_def
  by (simp add: bs.snapshot_keys se.snapshot_keys ts.snapshot_keys sw.snapshot_keys nu.snapshot_keys bt.snapshot_keys fa.snapshot_keys li.snapshot_keys)

definition two_switches :: "message list" where
  "two_switches =
    [ListEntitiesSwitchResponse (zero_ListEntitiesSwitchResponse\<lparr>SwitchInfo_Key := 7\<rparr>),
     ListEntitiesSwitchResponse (zero_ListEntitiesSwitchResponse\<lparr>SwitchInfo_Key := 9\<rparr>),
     SwitchStateResponse (zero_SwitchStateResponse\<lparr>SwitchState_Key := 9, SwitchState_State := True\<rparr>)]"

lemma snapshots_keyed_witness:
  "map Key (Switches [9, 7] (fold handle two_switches newEntityRegistry)) = [9, 7]"
  using snapshots_keyed [where ms = two_switches and ?o4.0 = "[9, 7]" and ?o1.0 = "[]" and ?o2.0 = "[]"
      and ?o3.0 = "[]" and ?o5.0 = "[]" and ?o6.0 = "[]" and ?o7.0 = "[]" and ?o8.0 = "[]"]
  by (auto simp: visits_def two_switches_def handle_def newEntityRegistry_def update_at_def
      zero_ListEntitiesSwitchResponse_def zero_SwitchStateResponse_def)

text \<open>The domain of a key is the first of the eight families, in the order of the lookup, that
  ever listed the key; a key no discovery message carried has no domain, whatever states arrived.\<close>

theorem domain_of_listed:
  "domain (fold handle ms newEntityRegistry) k =
    find (\<lambda>d. list_ex (\<lambda>m. listed_domain k m = Some d) ms) domain_order"
  by (simp only: domain_def domain_order_def find.simps listed_domain_iff
      bs.present_iff se.present_iff ts.present_iff sw.present_iff nu.present_iff bt.present_iff fa.present_iff li.present_iff)

end
