(* ===== verification/Colour.thy ===== *)
theory Colour
  imports Prelude
begin

text \<open>
  Colour mode names (\<open>colour.go\<close>): \<open>ColourModeName\<close> respells the generated enum names and
  \<open>ParseColourMode\<close> reverses it. The enum and its name table are those of \<open>pb/api.pb.go\<close>;
  a value without a name prints as its decimal number.
\<close>

section \<open>Strings\<close>

text \<open>\<open>strings.ReplaceAll\<close> for a non-empty pattern.\<close>

fun replace_all :: "string \<Rightarrow> string \<Rightarrow> string \<Rightarrow> string" where
  "replace_all [] old new = []"
| "replace_all (c # cs) old new =
    (if is_prefix old (c # cs) \<and> old \<noteq> []
     then new @ replace_all (drop (length old - 1) cs) old new
     else c # replace_all cs old new)"

definition digit_char :: "nat \<Rightarrow> char" where
  "digit_char d = char_of (48 + d)"

fun nat_digits :: "nat \<Rightarrow> string" where
  "nat_digits n =
    (if n < 10 then [digit_char n] else nat_digits (n div 10) @ [digit_char (n mod 10)])"

declare nat_digits.simps [simp del]

definition itoa :: "int \<Rightarrow> string" where
  "itoa i = (if i < 0 then CHR ''-'' # nat_digits (nat (- i)) else nat_digits (nat i))"

section \<open>Colour modes\<close>

type_synonym ColourMode = i32

definition ColourModeUnknown :: i32 where "ColourModeUnknown = 0"
definition ColourModeOnOff :: i32 where "ColourModeOnOff = 1"
definition ColourModeLegacyBrightness :: i32 where "ColourModeLegacyBrightness = 2"
definition ColourModeBrightness :: i32 where "ColourModeBrightness = 3"
definition ColourModeWhite :: i32 where "ColourModeWhite = 7"
definition ColourModeColourTemperature :: i32 where "ColourModeColourTemperature = 11"
definition ColourModeColdWarmWhite :: i32 where "ColourModeColdWarmWhite = 19"
definition ColourModeRGB :: i32 where "ColourModeRGB = 35"
definition ColourModeRGBWhite :: i32 where "ColourModeRGBWhite = 39"
definition ColourModeRGBColourTemperature :: i32 where "ColourModeRGBColourTemperature = 47"
definition ColourModeRGBColdWarmWhite :: i32 where "ColourModeRGBColdWarmWhite = 51"

definition ColorMode_names :: "(i32 \<times> string) list" where
  "ColorMode_names = [
    (0, ''COLOR_MODE_UNKNOWN''),
    (1, ''COLOR_MODE_ON_OFF''),
    (2, ''COLOR_MODE_LEGACY_BRIGHTNESS''),
    (3, ''COLOR_MODE_BRIGHTNESS''),
    (7, ''COLOR_MODE_WHITE''),
    (11, ''COLOR_MODE_COLOR_TEMPERATURE''),
    (19, ''COLOR_MODE_COLD_WARM_WHITE''),
    (35, ''COLOR_MODE_RGB''),
    (39, ''COLOR_MODE_RGB_WHITE''),
    (47, ''COLOR_MODE_RGB_COLOR_TEMPERATURE''),
    (51, ''COLOR_MODE_RGB_COLD_WARM_WHITE'')]"

definition ColorMode_name :: "i32 \<rightharpoonup> string" where
  "ColorMode_name = map_of ColorMode_names"

definition ColorMode_value :: "string \<rightharpoonup> i32" where
  "ColorMode_value = map_of (map (\<lambda>(v, n). (n, v)) ColorMode_names)"

definition ColorMode_String :: "i32 \<Rightarrow> string" where
  "ColorMode_String mode =
    (case ColorMode_name mode of Some n \<Rightarrow> n | None \<Rightarrow> itoa (sint mode))"

definition ColourModeName :: "ColourMode \<Rightarrow> string" where
  "ColourModeName mode = replace_all (ColorMode_String mode) ''COLOR'' ''COLOUR''"

definition ParseColourMode :: "string \<Rightarrow> ColourMode \<times> bool" where
  "ParseColourMode name =
    (case ColorMode_value (replace_all name ''COLOUR'' ''COLOR'') of
      None \<Rightarrow> (ColourModeUnknown, False)
    | Some value \<Rightarrow> (value, True))"

section \<open>Properties\<close>

definition decimal_char :: "char \<Rightarrow> bool" where
  "decimal_char c \<longleftrightarrow> (of_char c :: nat) < 58"

lemma digit_char_decimal: "d < 10 \<Longrightarrow> decimal_char (digit_char d)"
  by (simp add: decimal_char_def digit_char_def)

lemma nat_digits_decimal: "list_all decimal_char (nat_digits n) \<and> nat_digits n \<noteq> []"
proof (induction n rule: nat_digits.induct)
  case (1 n)
  then show ?case
    by (subst (1 2) nat_digits.simps) (simp add: digit_char_decimal)
qed

lemma itoa_decimal: "list_all decimal_char (itoa i)" "itoa i \<noteq> []"
  using nat_digits_decimal by (auto simp: itoa_def decimal_char_def)

lemma replace_all_decimal:
  "list_all decimal_char s \<Longrightarrow> \<not> decimal_char p \<Longrightarrow> replace_all s (p # ps) new = s"
  by (induction s) auto

lemma not_decimal_C: "\<not> decimal_char (CHR ''C'')"
  by (simp add: decimal_char_def)

lemma ColorMode_names_C: "list_all (\<lambda>(m, n). hd n = CHR ''C'') ColorMode_names"
  by (simp add: ColorMode_names_def)

lemma ColorMode_value_decimal:
  assumes "list_all decimal_char s" "s \<noteq> []"
  shows "ColorMode_value s = None"
proof -
  have "hd s \<noteq> CHR ''C''" using assms not_decimal_C by (cases s) auto
  then show ?thesis
    using ColorMode_names_C
    by (auto simp: ColorMode_value_def map_of_eq_None_iff list_all_iff)
qed

lemma ColorMode_value_name:
  assumes "(mode, n) \<in> set ColorMode_names"
  shows "ColorMode_value n = Some mode"
proof -
  have "distinct (map snd ColorMode_names)" by (simp add: ColorMode_names_def)
  then have "distinct (map fst (map (\<lambda>(v, n). (n, v)) ColorMode_names))"
    by (simp add: comp_def case_prod_unfold)
  then show ?thesis
    using assms unfolding ColorMode_value_def by (intro map_of_is_SomeI) force+
qed

text \<open>The table in this library's spelling.\<close>

definition ColourMode_names :: "(i32 \<times> string) list" where
  "ColourMode_names = [
    (0, ''COLOUR_MODE_UNKNOWN''),
    (1, ''COLOUR_MODE_ON_OFF''),
    (2, ''COLOUR_MODE_LEGACY_BRIGHTNESS''),
    (3, ''COLOUR_MODE_BRIGHTNESS''),
    (7, ''COLOUR_MODE_WHITE''),
    (11, ''COLOUR_MODE_COLOUR_TEMPERATURE''),
    (19, ''COLOUR_MODE_COLD_WARM_WHITE''),
    (35, ''COLOUR_MODE_RGB''),
    (39, ''COLOUR_MODE_RGB_WHITE''),
    (47, ''COLOUR_MODE_RGB_COLOUR_TEMPERATURE''),
    (51, ''COLOUR_MODE_RGB_COLD_WARM_WHITE'')]"
lemma respelled_names:
  "list_all2 (\<lambda>(m, n) (m', n'). m = m' \<and> replace_all n ''COLOR'' ''COLOUR'' = n')
    ColorMode_names ColourMode_names"
  by (simp add: ColorMode_names_def ColourMode_names_def)

lemma original_names:
  "list_all2 (\<lambda>(m, n) (m', n'). m = m' \<and> replace_all n' ''COLOUR'' ''COLOR'' = n)
    ColorMode_names ColourMode_names"
  by (simp add: ColorMode_names_def ColourMode_names_def)

lemma no_colour_left: "list_all (\<lambda>(m, n). \<not> contains n ''COLOR'') ColourMode_names"
  by (simp add: ColourMode_names_def)

lemma named_mode_roundtrip:
  assumes "(mode, n) \<in> set ColorMode_names"
  shows "ParseColourMode (replace_all n ''COLOR'' ''COLOUR'') = (mode, True) \<and>
    \<not> contains (replace_all n ''COLOR'' ''COLOUR'') ''COLOR''"
proof -
  obtain k where k: "k < length ColorMode_names" "ColorMode_names ! k = (mode, n)"
    using assms by (auto simp: in_set_conv_nth)
  define n' where "n' = snd (ColourMode_names ! k)"
  have len: "length ColourMode_names = length ColorMode_names"
    using respelled_names by (simp add: list_all2_lengthD)
  have r1: "replace_all n ''COLOR'' ''COLOUR'' = n'"
    using list_all2_nthD [OF respelled_names k(1)] k by (auto simp: n'_def)
  have r2: "replace_all n' ''COLOUR'' ''COLOR'' = n"
    using list_all2_nthD [OF original_names k(1)] k by (auto simp: n'_def)
  have "\<not> contains n' ''COLOR''"
    using no_colour_left k len by (auto simp: list_all_length n'_def case_prod_unfold)
  then show ?thesis
    using r1 r2 ColorMode_value_name [OF assms] by (simp add: ParseColourMode_def)
qed

text \<open>For every mode the protocol names, \<open>ParseColourMode\<close> returns the mode from
  \<open>ColourModeName\<close>, and the name never spells \<open>COLOR\<close>; a mode without a name is printed as
  its number, which does not parse.\<close>

theorem colour_names_roundtrip:
  "if ColorMode_name mode \<noteq> None
   then ParseColourMode (ColourModeName mode) = (mode, True) \<and>
     \<not> contains (ColourModeName mode) ''COLOR''
   else ColourModeName mode = itoa (sint mode) \<and>
     ParseColourMode (ColourModeName mode) = (ColourModeUnknown, False)"
proof (cases "ColorMode_name mode")
  case None
  then have "ColourModeName mode = itoa (sint mode)"
    using not_decimal_C
    by (simp add: ColourModeName_def ColorMode_String_def replace_all_decimal itoa_decimal)
  then show ?thesis
    using None not_decimal_C
    by (simp add: ParseColourMode_def replace_all_decimal itoa_decimal ColorMode_value_decimal)
next
  case (Some n)
  then have "(mode, n) \<in> set ColorMode_names"
    by (simp add: ColorMode_name_def map_of_SomeD)
  then show ?thesis
    using Some named_mode_roundtrip by (auto simp: ColourModeName_def ColorMode_String_def)
qed

end
