(* ===== verification/Client_State.thy ===== *)
theory Client_State
  imports Framer Entities
begin

text \<open>
  The \<open>Client\<close> of \<open>client.go\<close>: its state, and the operations every goroutine uses: sending,
  registering and removing handlers, delivering a message to handlers, entity listing bookkeeping,
  \<open>shutdown\<close> and \<open>hello\<close>.

  Locks are not modelled: every operation runs under the lock that makes it atomic. A closed channel is
  a flag; the event channel is a list with a capacity. \<open>closeOnce\<close> has run exactly when \<open>done\<close>
  is closed. Pending listings are pointers the code compares, so they are addresses into a store.

  A handler is the function value a registration stores. User functions are identified by numbers, and
  \<open>cl_calls\<close> records their invocations in order; the client's own completion hooks fill the
  one-element response channel of an exchange.
\<close>

section \<open>State\<close>

datatype handler =
    StateHandler nat
  | LogHandler "nat option"
  | PingHook nat
  | InfoHook nat

record listResult =
  lr_messages :: "message list"
  lr_done :: bool

record 'f client =
  cl_framer :: "'f option"
  cl_entities :: EntityRegistry
  cl_done :: bool
  cl_connected :: bool
  cl_name :: string
  cl_serverInfo :: string
  cl_apiMajor :: u32
  cl_apiMinor :: u32
  cl_closeReason :: "goerror option"
  cl_nextHandler :: u64
  cl_handlers :: "u32 \<Rightarrow> u64 \<rightharpoonup> handler"
  cl_events :: "message list"
  cl_queueSize :: nat
  cl_callbacksDone :: bool
  cl_list :: "nat option"
  cl_lists :: "nat \<rightharpoonup> listResult"
  cl_nextList :: nat
  cl_pingGate :: bool
  cl_deviceInfoGate :: bool
  cl_channels :: "nat \<Rightarrow> message option"
  cl_calls :: "(nat \<times> message) list"

definition newClient :: "'f \<Rightarrow> nat \<Rightarrow> 'f client" where
  "newClient f callbackQueueSize =
    \<lparr>cl_framer = Some f, cl_entities = newEntityRegistry, cl_done = False, cl_connected = False,
      cl_name = '''', cl_serverInfo = '''', cl_apiMajor = 0, cl_apiMinor = 0, cl_closeReason = None,
      cl_nextHandler = 0, cl_handlers = (\<lambda>_. Map.empty), cl_events = [],
      cl_queueSize = callbackQueueSize, cl_callbacksDone = False, cl_list = None,
      cl_lists = Map.empty, cl_nextList = 0, cl_pingGate = True, cl_deviceInfoGate = True,
      cl_channels = (\<lambda>_. None), cl_calls = []\<rparr>"

section \<open>Sending\<close>

definition send ::
  "'f framer \<Rightarrow> protobuf \<Rightarrow> message \<Rightarrow> 'f client \<Rightarrow> goerror option \<times> 'f client" where
  "send F pb message c =
    (case cl_framer c of
      None \<Rightarrow> (Some (Err ErrClientClosed), c)
    | Some f \<Rightarrow>
        if cl_done c then (Some (Err ErrClientClosed), c)
        else (case MessageID api_registry (Some message) of
          Inl err \<Rightarrow> (Some (Errorf ''identify ESPHome message: %w'' [err]), c)
        | Inr mid \<Rightarrow> (case pb_marshal pb message of
            Inl err \<Rightarrow> (Some (Errorf ''encode ESPHome message %T: %w'' [err]), c)
          | Inr payload \<Rightarrow> (case fr_WriteFrame F mid payload f of
              (Some err, f') \<Rightarrow>
                (Some (Errorf ''write ESPHome message %T: %w'' [err]), c\<lparr>cl_framer := Some f'\<rparr>)
            | (None, f') \<Rightarrow> (None, c\<lparr>cl_framer := Some f'\<rparr>)))))"

section \<open>Handlers\<close>

definition on :: "u32 \<Rightarrow> handler \<Rightarrow> 'f client \<Rightarrow> u64 \<times> 'f client" where
  "on mid fn c =
    (let token = cl_nextHandler c + 1
     in (token, c\<lparr>cl_nextHandler := token,
          cl_handlers := (cl_handlers c)(mid := (cl_handlers c mid)(token \<mapsto> fn))\<rparr>))"

text \<open>The function \<open>on\<close> returns.\<close>

definition remove_handler :: "u32 \<Rightarrow> u64 \<Rightarrow> 'f client \<Rightarrow> 'f client" where
  "remove_handler mid token c =
    c\<lparr>cl_handlers := (cl_handlers c)(mid := (cl_handlers c mid)(token := None))\<rparr>"

definition offer :: "nat \<Rightarrow> message \<Rightarrow> 'f client \<Rightarrow> 'f client" where
  "offer n m c =
    (if cl_channels c n = None then c\<lparr>cl_channels := (cl_channels c)(n := Some m)\<rparr> else c)"

definition run_handler :: "handler \<Rightarrow> message \<Rightarrow> 'f client \<Rightarrow> 'f client" where
  "run_handler h m c =
    (case h of
      StateHandler u \<Rightarrow> c\<lparr>cl_calls := cl_calls c @ [(u, m)]\<rparr>
    | LogHandler u \<Rightarrow> (case (m, u) of
        (SubscribeLogsResponse _, Some u) \<Rightarrow> c\<lparr>cl_calls := cl_calls c @ [(u, m)]\<rparr>
      | _ \<Rightarrow> c)
    | PingHook n \<Rightarrow> (case m of PingResponse \<Rightarrow> offer n m c | _ \<Rightarrow> c)
    | InfoHook n \<Rightarrow> (case m of DeviceInfoResponse _ \<Rightarrow> offer n m c | _ \<Rightarrow> c))"

text \<open>
  The callbacks registered for a message, in the order Go's map iteration yields their tokens, which
  is unspecified and given as \<open>order\<close>.
\<close>

definition callbacks_for :: "u64 list \<Rightarrow> u32 \<Rightarrow> 'f client \<Rightarrow> handler list" where
  "callbacks_for order mid c = snapshot_values order (cl_handlers c mid)"

definition deliverDirect :: "u64 list \<Rightarrow> message \<Rightarrow> 'f client \<Rightarrow> 'f client" where
  "deliverDirect order m c =
    (case MessageID api_registry (Some m) of
      Inl _ \<Rightarrow> c
    | Inr mid \<Rightarrow> fold (\<lambda>h. run_handler h m) (callbacks_for order mid c) c)"

section \<open>Listings\<close>

definition isListEntity :: "message \<Rightarrow> bool" where
  "isListEntity m =
    (let name = message_name m
     in length ''ListEntitiesResponse'' < length name \<and> 12 \<le> length name \<and>
       take 12 name = ''ListEntities'' \<and> name \<noteq> ''ListEntitiesDoneResponse'')"

definition handleList :: "message \<Rightarrow> 'f client \<Rightarrow> 'f client" where
  "handleList m c =
    (case cl_list c of
      None \<Rightarrow> c
    | Some a \<Rightarrow>
        if m = ListEntitiesDoneResponse
        then c\<lparr>cl_list := None,
          cl_lists := (cl_lists c)(a := map_option (\<lambda>l. l\<lparr>lr_done := True\<rparr>) (cl_lists c a))\<rparr>
        else if isListEntity m
        then c\<lparr>cl_lists := (cl_lists c)(a :=
          map_option (\<lambda>l. l\<lparr>lr_messages := lr_messages l @ [m]\<rparr>) (cl_lists c a))\<rparr>
        else c)"

section \<open>Closing\<close>

definition shutdown :: "'f framer \<Rightarrow> goerror option \<Rightarrow> 'f client \<Rightarrow> 'f client" where
  "shutdown F reason c =
    (if cl_done c then c
     else c\<lparr>cl_closeReason := reason, cl_connected := False,
       cl_framer := map_option (fr_Close F) (cl_framer c), cl_done := True\<rparr>)"

definition Close :: "'f framer \<Rightarrow> 'f client \<Rightarrow> 'f client" where
  "Close F c = shutdown F None c"

definition closedError :: "sentinel \<Rightarrow> 'f client \<Rightarrow> goerror" where
  "closedError category c =
    (case cl_closeReason c of
      Some reason \<Rightarrow> Errorf ''%w: connection closed: %w'' [Err category, reason]
    | None \<Rightarrow> Errorf ''%w: %w'' [Err category, Err ErrClientClosed])"

section \<open>What a caller can ask\<close>

definition Done :: "'f client \<Rightarrow> bool" where "Done c = cl_done c"
definition Connected :: "'f client \<Rightarrow> bool" where "Connected c = cl_connected c"
definition CloseReason :: "'f client \<Rightarrow> goerror option" where "CloseReason c = cl_closeReason c"
definition APIVersion :: "'f client \<Rightarrow> u32 \<times> u32" where "APIVersion c = (cl_apiMajor c, cl_apiMinor c)"

section \<open>Hello\<close>

definition hello_request :: "string \<Rightarrow> HelloRequest" where
  "hello_request clientInfo =
    \<lparr>HelloReq_ClientInfo = clientInfo, HelloReq_ApiVersionMajor = 1, HelloReq_ApiVersionMinor = 10\<rparr>"

definition check_hello :: "string \<Rightarrow> message \<Rightarrow> HelloResponse result" where
  "check_hello expectedName message =
    (case message of
      HelloResponse response \<Rightarrow>
        if Hello_ApiVersionMajor response \<noteq> 1
        then Inl (Errorf ''%w: unsupported API major version %d'' [Err ErrHello])
        else if expectedName \<noteq> '''' \<and> Hello_Name response \<noteq> expectedName
        then Inl (Errorf ''%w: %w'' [Err ErrHello, Err ErrPeerName])
        else Inr response
    | _ \<Rightarrow> Inl (Errorf ''%w: unexpected response type %T'' [Err ErrHello]))"

definition read_hello :: "protobuf \<Rightarrow> string \<Rightarrow> (u32 \<times> bytes) result \<Rightarrow> HelloResponse result" where
  "read_hello pb expectedName frame =
    unless_err frame (\<lambda>err. Errorf ''%w: read response: %w'' [Err ErrHello, err]) (\<lambda>(mid, payload).
    if mid \<noteq> 2 then Inl (Errorf ''%w: unexpected response message ID %d'' [Err ErrHello])
    else unless_err (Decode pb api_registry mid payload)
      (\<lambda>err. Errorf ''%w: decode response: %w'' [Err ErrHello, err]) (check_hello expectedName))"

definition hello ::
  "'f framer \<Rightarrow> protobuf \<Rightarrow> string \<Rightarrow> string \<Rightarrow> 'f client \<Rightarrow> goerror option \<times> 'f client" where
  "hello F pb clientInfo expectedName c =
    (case send F pb (HelloRequest (hello_request clientInfo)) c of
      (Some err, c) \<Rightarrow> (Some (Errorf ''%w: send request: %w'' [Err ErrHello, err]), c)
    | (None, c) \<Rightarrow> (case fr_ReadFrame F (the (cl_framer c)) of
        (frame, f) \<Rightarrow>
          (let c = c\<lparr>cl_framer := Some f\<rparr>
           in case read_hello pb expectedName frame of
              Inl err \<Rightarrow> (Some err, c)
            | Inr response \<Rightarrow>
                (None, c\<lparr>cl_apiMajor := Hello_ApiVersionMajor response,
                  cl_apiMinor := Hello_ApiVersionMinor response,
                  cl_serverInfo := Hello_ServerInfo response, cl_name := Hello_Name response\<rparr>))))"

end
