(* ===== verification/Dns.thy ===== *)
theory Dns
  imports Go_IO
begin

text \<open>
  The DNS message handling of \<open>internal/mdns/dns.go\<close>: writing queries and responses, and reading
  the questions and answers of packets any host on the network can send.

  Every indexing and slicing of a packet is checked: \<open>None\<close> is Go's bounds panic, so that
  "no packet panics" is a theorem about these functions. Names are ASCII: \<open>strings.ToLower\<close> and
  \<open>strings.EqualFold\<close> are modelled on the 26 letters, other bytes are left alone.
\<close>

section \<open>Constants and names\<close>

definition dnsHeaderSize :: nat where "dnsHeaderSize = 12"
definition maxDNSMessageSize :: nat where "maxDNSMessageSize = 9000"
definition maxDNSNameJumps :: nat where "maxDNSNameJumps = 16"
definition typeA :: u16 where "typeA = 1"
definition typeAAAA :: u16 where "typeAAAA = 28"
definition typeANY :: u16 where "typeANY = 255"
definition classIN :: u16 where "classIN = 1"
definition classMask :: u16 where "classMask = 0x7fff"
definition classCacheFlush :: u16 where "classCacheFlush = 0x8000"
definition responseFlags :: u16 where "responseFlags = 0x8400"
definition defaultRecordTTL :: u32 where "defaultRecordTTL = 120"

lemmas dns_constants =
  dnsHeaderSize_def maxDNSMessageSize_def maxDNSNameJumps_def typeA_def typeAAAA_def typeANY_def
  classIN_def classMask_def classCacheFlush_def responseFlags_def defaultRecordTTL_def

definition lower_char :: "char \<Rightarrow> char" where
  "lower_char c =
    (if 65 \<le> (of_char c :: nat) \<and> of_char c \<le> (90 :: nat) then char_of ((of_char c :: nat) + 32) else c)"

definition to_lower :: "string \<Rightarrow> string" where
  "to_lower s = map lower_char s"

definition equal_fold :: "string \<Rightarrow> string \<Rightarrow> bool" where
  "equal_fold a b \<longleftrightarrow> to_lower a = to_lower b"

text \<open>\<open>strings.TrimSuffix(name, ".")\<close>.\<close>

definition trim_dot :: "string \<Rightarrow> string" where
  "trim_dot s = (if s \<noteq> [] \<and> last s = CHR ''.'' then butlast s else s)"

definition canonicalName :: "string \<Rightarrow> string" where
  "canonicalName name = to_lower (trim_dot name) @ ''.''"

text \<open>\<open>strings.Split(s, ".")\<close> and \<open>strings.Join(labels, ".")\<close>.\<close>

fun split_dots :: "string \<Rightarrow> string list" where
  "split_dots [] = [[]]"
| "split_dots (c # cs) =
    (if c = CHR ''.'' then [] # split_dots cs
     else case split_dots cs of [] \<Rightarrow> [[c]] | l # ls \<Rightarrow> (c # l) # ls)"

fun join_dots :: "string list \<Rightarrow> string" where
  "join_dots [] = []"
| "join_dots [l] = l"
| "join_dots (l # ls) = l @ CHR ''.'' # join_dots ls"

section \<open>Checked access\<close>

definition byte_at :: "bytes \<Rightarrow> nat \<Rightarrow> byte option" where
  "byte_at m i = (if i < length m then Some (m ! i) else None)"

definition slice :: "bytes \<Rightarrow> nat \<Rightarrow> nat \<Rightarrow> bytes option" where
  "slice m a b = (if a \<le> b \<and> b \<le> length m then Some (take (b - a) (drop a m)) else None)"

definition u16_at :: "bytes \<Rightarrow> nat \<Rightarrow> u16 option" where
  "u16_at m i = map_option (\<lambda>xs. be_get16 (xs ! 0) (xs ! 1)) (slice m i (i + 2))"

definition put_u16_at :: "bytes \<Rightarrow> nat \<Rightarrow> u16 \<Rightarrow> bytes option" where
  "put_u16_at m i v =
    (if i + 2 \<le> length m then Some (take i m @ be_put16 v @ drop (i + 2) m) else None)"

section \<open>Writing\<close>

fun append_labels :: "bytes \<Rightarrow> string list \<Rightarrow> bytes result" where
  "append_labels dst [] = Inr (dst @ [0])"
| "append_labels dst (label # labels) =
    (if length label = 0 \<or> 63 < length label then Fail ErrNameTooLong
     else append_labels (dst @ [of_nat (length label)] @ string_bytes label) labels)"

definition appendName :: "bytes \<Rightarrow> string \<Rightarrow> bytes result" where
  "appendName dst name =
    (let name = trim_dot name
     in if name = '''' then Inr (dst @ [0])
        else if 253 < length name then Fail ErrNameTooLong
        else append_labels dst (split_dots name))"

definition query :: "string \<Rightarrow> bytes result option" where
  "query host =
    (case appendName [] (canonicalName host) of
      Inl err \<Rightarrow> Some (Inl err)
    | Inr name \<Rightarrow>
        map_option (\<lambda>message. Inr (message @ name @ be_put16 typeA @ be_put16 classIN))
          (put_u16_at (replicate dnsHeaderSize 0) 4 1))"

text \<open>\<open>net.IP.To4\<close>: four bytes, or the last four of an IPv4-mapped address.\<close>

definition To4 :: "bytes \<Rightarrow> bytes option" where
  "To4 ip =
    (if length ip = 4 then Some ip
     else if length ip = 16 \<and> take 12 ip = replicate 10 0 @ [0xff, 0xff] then Some (drop 12 ip)
     else None)"

definition response :: "string \<Rightarrow> bytes \<Rightarrow> bytes result option" where
  "response host ip =
    (case To4 ip of
      None \<Rightarrow> Some (Inl (Errorf ''mDNS test responder requires an IPv4 address'' []))
    | Some ipv4 \<Rightarrow>
        (case appendName [] (canonicalName host) of
          Inl err \<Rightarrow> Some (Inl err)
        | Inr name \<Rightarrow>
            (case put_u16_at (replicate dnsHeaderSize 0) 2 responseFlags of
              None \<Rightarrow> None
            | Some message \<Rightarrow>
                map_option (\<lambda>message. Inr (message @ name @ be_put16 typeA @
                    be_put16 (classIN OR classCacheFlush) @ be_put32 defaultRecordTTL @
                    be_put16 4 @ ipv4))
                  (put_u16_at message 6 1))))"

section \<open>Reading a name\<close>

text \<open>
  The loop of \<open>readName\<close>: \<open>next\<close> is the position after the name in the record being read, known
  once the first compression pointer is taken.
\<close>

function read_name_from ::
  "bytes \<Rightarrow> nat \<Rightarrow> nat option \<Rightarrow> nat \<Rightarrow> nat \<Rightarrow> string list \<Rightarrow> (string \<times> nat) result option" where
  "read_name_from m offset next jumps nameLength labels =
    (if length m \<le> offset then Some (Fail ErrMalformedDNS)
     else case byte_at m offset of
       None \<Rightarrow> None
     | Some b \<Rightarrow>
        (let len = unat b in
         if len = 0
         then Some (Inr (canonicalName (join_dots labels),
           case next of None \<Rightarrow> offset + 1 | Some n \<Rightarrow> n))
         else if b AND 0xc0 = 0xc0
         then (if length m \<le> offset + 1 \<or> maxDNSNameJumps \<le> jumps then Some (Fail ErrMalformedDNS)
           else case byte_at m (offset + 1) of
             None \<Rightarrow> None
           | Some b2 \<Rightarrow>
              (let pointer = push_bit 8 (unat (b AND 0x3f)) OR unat b2 in
               if length m \<le> pointer then Some (Fail ErrMalformedDNS)
               else read_name_from m pointer
                 (case next of None \<Rightarrow> Some (offset + 2) | Some n \<Rightarrow> Some n)
                 (jumps + 1) nameLength labels))
         else if b AND 0xc0 \<noteq> 0 \<or> 63 < len then Some (Fail ErrMalformedDNS)
         else (let offset = offset + 1 in
           if length m < offset + len then Some (Fail ErrMalformedDNS)
           else (let nameLength = nameLength + (len + 1) in
             if 254 < nameLength then Some (Fail ErrMalformedDNS)
             else case slice m offset (offset + len) of
               None \<Rightarrow> None
             | Some l \<Rightarrow>
                read_name_from m (offset + len) next jumps nameLength
                  (labels @ [bytes_string l])))))"
  by pat_completeness auto
termination
  by (relation "measures [\<lambda>(m, offset, next, jumps, nameLength, labels). maxDNSNameJumps - jumps,
      \<lambda>(m, offset, next, jumps, nameLength, labels). length m - offset]") auto

declare read_name_from.simps [simp del]

definition readName :: "bytes \<Rightarrow> nat \<Rightarrow> (string \<times> nat) result option" where
  "readName message start =
    (if length message \<le> start then Some (Fail ErrMalformedDNS)
     else read_name_from message start None 0 0 [])"

section \<open>Reading questions and answers\<close>

record question =
  q_name :: string
  q_type :: u16
  q_class :: u16

fun question_loop :: "nat \<Rightarrow> bytes \<Rightarrow> nat \<Rightarrow> question list \<Rightarrow> question list result option" where
  "question_loop 0 message offset acc = Some (Inr acc)"
| "question_loop (Suc count) message offset acc =
    (case readName message offset of
      None \<Rightarrow> None
    | Some (Inl err) \<Rightarrow> Some (Fail ErrMalformedDNS)
    | Some (Inr (name, next)) \<Rightarrow>
        if length message < next + 4 then Some (Fail ErrMalformedDNS)
        else (case (u16_at message next, u16_at message (next + 2)) of
          (Some t, Some c) \<Rightarrow>
            question_loop count message (next + 4)
              (acc @ [\<lparr>q_name = name, q_type = t, q_class = c\<rparr>])
        | _ \<Rightarrow> None))"

definition questions :: "bytes \<Rightarrow> question list result option" where
  "questions message =
    (if length message < dnsHeaderSize then Some (Fail ErrMalformedDNS)
     else case u16_at message 4 of
       None \<Rightarrow> None
     | Some count \<Rightarrow>
         if 64 < unat count then Some (Fail ErrMalformedDNS)
         else question_loop (unat count) message dnsHeaderSize [])"

text \<open>Skipping the question section of an answer; \<open>Some None\<close> gives up on the packet.\<close>

fun skip_questions :: "nat \<Rightarrow> bytes \<Rightarrow> nat \<Rightarrow> nat option option" where
  "skip_questions 0 message offset = Some (Some offset)"
| "skip_questions (Suc count) message offset =
    (case readName message offset of
      None \<Rightarrow> None
    | Some (Inl err) \<Rightarrow> Some None
    | Some (Inr (_, next)) \<Rightarrow>
        if length message < next + 4 then Some None
        else skip_questions count message (next + 4))"

fun scan_records :: "nat \<Rightarrow> bytes \<Rightarrow> string \<Rightarrow> nat \<Rightarrow> bytes option option" where
  "scan_records 0 message want offset = Some None"
| "scan_records (Suc count) message want offset =
    (case readName message offset of
      None \<Rightarrow> None
    | Some (Inl err) \<Rightarrow> Some None
    | Some (Inr (name, next)) \<Rightarrow>
        if length message < next + 10 then Some None
        else (case (u16_at message next, u16_at message (next + 2), u16_at message (next + 8)) of
          (Some recordType, Some class, Some len) \<Rightarrow>
            (let recordClass = class AND classMask; data = next + 10 in
             if length message < data + unat len then Some None
             else if recordClass = classIN \<and> equal_fold name want \<and>
               (recordType = typeA \<and> unat len = 4 \<or> recordType = typeAAAA \<and> unat len = 16)
             then map_option Some (slice message data (data + unat len))
             else scan_records count message want (data + unat len))
        | _ \<Rightarrow> None))"

definition answerIP :: "bytes \<Rightarrow> string \<Rightarrow> bytes option option" where
  "answerIP message host =
    (if length message < dnsHeaderSize \<or> maxDNSMessageSize < length message then Some None
     else case (u16_at message 2, u16_at message 4, u16_at message 6, u16_at message 8,
         u16_at message 10) of
       (Some flags, Some qd, Some an, Some ns, Some ar) \<Rightarrow>
         if flags AND 0x8000 = 0 then Some None
         else (let recordCount = unat an + unat ns + unat ar in
           if 64 < unat qd \<or> 256 < recordCount then Some None
           else case skip_questions (unat qd) message dnsHeaderSize of
             None \<Rightarrow> None
           | Some None \<Rightarrow> Some None
           | Some (Some offset) \<Rightarrow>
               scan_records recordCount message (canonicalName host) offset)
     | _ \<Rightarrow> None)"

section \<open>Bounds\<close>

lemma u16_at_Some: "i + 2 \<le> length m \<Longrightarrow> \<exists>v. u16_at m i = Some v"
  by (simp add: u16_at_def slice_def)

lemma slice_SomeD: "slice m a b = Some xs \<Longrightarrow> length xs = b - a \<and> contains m xs"
  by (auto simp: slice_def contains_iff split: if_splits)
    (metis append_take_drop_id)

lemma length_trim_dot: "length (trim_dot s) \<le> length s"
  by (simp add: trim_dot_def)

lemma length_to_lower [simp]: "length (to_lower s) = length s"
  by (simp add: to_lower_def)

definition labels_size :: "string list \<Rightarrow> nat" where
  "labels_size ls = (\<Sum>l\<leftarrow>ls. length l + 1)"

lemma labels_size_simps [simp]:
  "labels_size [] = 0"
  "labels_size (l # ls) = length l + 1 + labels_size ls"
  "labels_size (xs @ ys) = labels_size xs + labels_size ys"
  by (simp_all add: labels_size_def)

lemma length_join_dots: "length (join_dots ls) = labels_size ls - 1"
  by (induction ls rule: join_dots.induct) auto

lemma length_canonicalName: "length (canonicalName s) \<le> length s + 1"
  using length_trim_dot [of s] by (simp add: canonicalName_def)

text \<open>The loop never indexes outside the packet, and where it stops and how long a name it returns
  are bounded.\<close>

lemma read_name_from_safe:
  assumes "case next of None \<Rightarrow> start \<le> offset | Some n \<Rightarrow> start < n \<and> n \<le> length m"
    and "nameLength = labels_size labels" "nameLength \<le> 254"
  shows "\<exists>r. read_name_from m offset next jumps nameLength labels = Some r \<and>
    (case r of Inl e \<Rightarrow> e = Err ErrMalformedDNS
     | Inr (name, n) \<Rightarrow> start < n \<and> n \<le> length m \<and> length name \<le> 254)"
  using assms
proof (induction m offset "next" jumps nameLength labels rule: read_name_from.induct)
  case (1 m offset nxt jumps nameLength labels)
  show ?case
  proof (cases "length m \<le> offset")
    case True
    then show ?thesis by (simp add: read_name_from.simps [of m offset])
  next
    case False
    define b where "b = m ! offset"
    have b: "byte_at m offset = Some b" using False by (simp add: byte_at_def b_def)
    note unfold = read_name_from.simps [of m offset nxt jumps nameLength labels]
    consider (zero) "unat b = 0"
      | (jump) "unat b \<noteq> 0" "b AND 0xc0 = 0xc0"
      | (bad) "unat b \<noteq> 0" "b AND 0xc0 \<noteq> 0xc0" "b AND 0xc0 \<noteq> 0 \<or> 63 < unat b"
      | (label) "unat b \<noteq> 0" "b AND 0xc0 \<noteq> 0xc0" "\<not> (b AND 0xc0 \<noteq> 0 \<or> 63 < unat b)"
      by blast
    then show ?thesis
    proof cases
      case zero
      have "length (canonicalName (join_dots labels)) \<le> 254"
        using length_canonicalName [of "join_dots labels"] 1(4,5)
        by (simp add: length_join_dots canonicalName_def trim_dot_def)
      then show ?thesis
        using False b zero 1(3) by (auto simp: unfold Let_def split: option.splits)
    next
      case jump
      show ?thesis
      proof (cases "length m \<le> offset + 1 \<or> maxDNSNameJumps \<le> jumps")
        case True
        then show ?thesis using False b jump by (auto simp: unfold Let_def)
      next
        case room: False
        define b2 where "b2 = m ! (offset + 1)"
        have b2: "byte_at m (offset + 1) = Some b2" using room by (simp add: byte_at_def b2_def)
        have nxt: "case (case nxt of None \<Rightarrow> Some (offset + 2) | Some n \<Rightarrow> Some n) of
            None \<Rightarrow> start \<le> push_bit 8 (unat (b AND 0x3f)) OR unat b2
          | Some n \<Rightarrow> start < n \<and> n \<le> length m"
          using 1(3) room by (auto split: option.splits)
        show ?thesis
          using 1(1) [OF False b refl jump room b2 refl _ nxt 1(4,5)] False b jump room b2
          by (auto simp: unfold Let_def)
      qed
    next
      case bad
      then show ?thesis using False b by (auto simp: unfold Let_def)
    next
      case label
      show ?thesis
      proof (cases "length m < offset + 1 + unat b \<or> 254 < nameLength + (unat b + 1)")
        case True
        then show ?thesis using False b label by (auto simp: unfold Let_def)
      next
        case room: False
        define l where "l = take (unat b) (drop (offset + 1) m)"
        have sl: "slice m (offset + 1) (offset + 1 + unat b) = Some l" "length l = unat b"
          using room by (auto simp: slice_def l_def)
        have "case nxt of None \<Rightarrow> start \<le> offset + 1 + unat b | Some n \<Rightarrow> start < n \<and> n \<le> length m"
          using 1(3) by (auto split: option.splits)
        moreover have "nameLength + (unat b + 1) = labels_size (labels @ [bytes_string l])"
          using 1(4) sl(2) by simp
        moreover have "read_name_from m offset nxt jumps nameLength labels =
            read_name_from m (offset + 1 + unat b) nxt jumps (nameLength + (unat b + 1))
              (labels @ [bytes_string l])"
          using False b label room sl(1) by (simp add: unfold Let_def)
        ultimately show ?thesis
          using 1(2) [OF False b refl label refl _ refl _ sl(1)] room by simp
      qed
    qed
  qed
qed

lemma readName_safe:
  "\<exists>r. readName m start = Some r \<and>
    (case r of Inl e \<Rightarrow> e = Err ErrMalformedDNS
     | Inr (name, n) \<Rightarrow> start < n \<and> n \<le> length m \<and> length name \<le> 254)"
  using read_name_from_safe [of start start m None 0 "[]" 0] by (simp add: readName_def)

lemma readName_cases:
  obtains (bad) "readName m start = Some (Inl (Err ErrMalformedDNS))"
  | (name) name n where "readName m start = Some (Inr (name, n))" "start < n" "n \<le> length m"
      "length name \<le> 254"
proof -
  obtain r where r: "readName m start = Some r"
    "case r of Inl e \<Rightarrow> e = Err ErrMalformedDNS
      | Inr (name, n) \<Rightarrow> start < n \<and> n \<le> length m \<and> length name \<le> 254"
    using readName_safe [of m start] by blast
  then show ?thesis by (cases r) (auto intro: bad name)
qed

lemma skip_questions_safe:
  "offset \<le> length m \<Longrightarrow> \<exists>r. skip_questions n m offset = Some r \<and>
    (case r of None \<Rightarrow> True | Some k \<Rightarrow> offset + 4 * n \<le> k \<and> k \<le> length m)"
proof (induction n arbitrary: offset)
  case 0
  then show ?case by simp
next
  case (Suc n)
  obtain r where r: "readName m offset = Some r"
    "case r of Inl e \<Rightarrow> True | Inr (name, k) \<Rightarrow> offset < k \<and> k \<le> length m"
    by (cases rule: readName_cases [of m offset]) auto
  show ?case
  proof (cases r)
    case (Inl e)
    then show ?thesis using r by simp
  next
    case (Inr x)
    obtain name k where x: "x = (name, k)" by (cases x)
    show ?thesis
    proof (cases "length m < k + 4")
      case True
      then show ?thesis using r Inr x by simp
    next
      case False
      then have "k + 4 \<le> length m" by simp
      from Suc.IH [OF this] show ?thesis using r Inr x False by (auto split: option.splits)
    qed
  qed
qed

lemma question_loop_safe:
  assumes "\<forall>q \<in> set acc. length (q_name q) \<le> 254"
  shows "question_loop n m offset acc = Some (Fail ErrMalformedDNS) \<or>
    (\<exists>qs. question_loop n m offset acc = Some (Inr qs) \<and> length qs = length acc + n \<and>
      (\<forall>q \<in> set qs. length (q_name q) \<le> 254))"
  using assms
proof (induction n arbitrary: offset acc)
  case 0
  then show ?case by simp
next
  case (Suc n)
  show ?case
  proof (cases rule: readName_cases [of m offset])
    case bad
    then show ?thesis by simp
  next
    case (name name k)
    show ?thesis
    proof (cases "length m < k + 4")
      case True
      then show ?thesis using name by simp
    next
      case False
      then obtain t c where "u16_at m k = Some t" "u16_at m (k + 2) = Some c"
        using u16_at_Some [of k m] u16_at_Some [of "k + 2" m] by auto
      then show ?thesis
        using Suc.IH [of "acc @ [\<lparr>q_name = name, q_type = t, q_class = c\<rparr>]" "k + 4"] name False
          Suc.prems by simp
    qed
  qed
qed

lemma scan_records_safe:
  "\<exists>r. scan_records n m want offset = Some r \<and>
    (case r of None \<Rightarrow> True | Some ip \<Rightarrow> (length ip = 4 \<or> length ip = 16) \<and> contains m ip)"
proof (induction n arbitrary: offset)
  case 0
  then show ?case by simp
next
  case (Suc n)
  obtain r where r: "readName m offset = Some r"
    "case r of Inl e \<Rightarrow> True | Inr (name, k) \<Rightarrow> k \<le> length m"
    by (cases rule: readName_cases [of m offset]) auto
  show ?case
  proof (cases r)
    case (Inl e)
    then show ?thesis using r by simp
  next
    case (Inr x)
    obtain name k where x: "x = (name, k)" by (cases x)
    show ?thesis
    proof (cases "length m < k + 10")
      case True
      then show ?thesis using r Inr x by simp
    next
      case False
      then obtain t c l where u: "u16_at m k = Some t" "u16_at m (k + 2) = Some c"
        "u16_at m (k + 8) = Some l"
        using u16_at_Some [of k m] u16_at_Some [of "k + 2" m] u16_at_Some [of "k + 8" m] by auto
      show ?thesis
      proof (cases "length m < k + 10 + unat l")
        case True
        then show ?thesis using r Inr x False u by simp
      next
        case fits: False
        then obtain ip where ip: "slice m (k + 10) (k + 10 + unat l) = Some ip"
          by (simp add: slice_def)
        have "length ip = unat l" "contains m ip" using slice_SomeD [OF ip] by simp_all
        then show ?thesis
          using Suc.IH [of "k + 10 + unat l"] r Inr x False u fits ip
          by (auto simp: Let_def)
      qed
    qed
  qed
qed

section \<open>Reading what was written\<close>

definition encode_labels :: "string list \<Rightarrow> bytes" where
  "encode_labels ls = concat (map (\<lambda>l. of_nat (length l) # string_bytes l) ls) @ [0]"

definition label_ok :: "string \<Rightarrow> bool" where
  "label_ok l \<longleftrightarrow> 0 < length l \<and> length l \<le> 63"

lemma append_labels_eq:
  "append_labels dst ls = Inr bs \<longleftrightarrow> list_all label_ok ls \<and> bs = dst @ encode_labels ls"
  by (induction ls arbitrary: dst) (auto simp: encode_labels_def label_ok_def)

lemma length_byte_low:
  assumes "n \<le> 63"
  shows "unat (of_nat n :: byte) = n" "(of_nat n :: byte) AND 0xc0 = 0"
proof -
  show u: "unat (of_nat n :: byte) = n"
    using assms by (simp add: unsigned_of_nat take_bit_nat_eq_self)
  have "n < 2 ^ 6" using assms by simp
  then have "take_bit 6 n = n" by (rule take_bit_nat_eq_self)
  then have "take_bit 6 (of_nat n :: byte) = of_nat n"
    by (metis take_bit_of_nat)
  then have m: "(of_nat n :: byte) = of_nat n AND mask 6" by (simp only: take_bit_eq_mask)
  have c: "(0xc0 :: byte) = NOT (mask 6)" by (simp add: mask_eq_exp_minus_1)
  have "of_nat n AND (0xc0 :: byte) = (of_nat n AND mask 6) AND NOT (mask 6)"
    unfolding c by (subst m) (rule refl)
  also have "\<dots> = 0" by (simp only: and.assoc bit.conj_cancel_right and_zero_eq)
  finally show "(of_nat n :: byte) AND 0xc0 = 0" .
qed

lemma read_name_labels:
  assumes "list_all label_ok ls" "nl + labels_size ls \<le> 254"
  shows "read_name_from (pre @ encode_labels ls @ post) (length pre) nxt jumps nl acc =
    Some (Inr (canonicalName (join_dots (acc @ ls)),
      case nxt of None \<Rightarrow> length pre + length (encode_labels ls) | Some n \<Rightarrow> n))"
  using assms
proof (induction ls arbitrary: pre nl acc)
  case Nil
  then show ?case
    by (subst read_name_from.simps) (simp add: encode_labels_def byte_at_def split: option.split)
next
  case (Cons l ls)
  define rest where "rest = encode_labels ls"
  let ?m = "pre @ encode_labels (l # ls) @ post"
  have l: "0 < length l" "length l \<le> 63" using Cons.prems(1) by (auto simp: label_ok_def)
  have m: "?m = (pre @ of_nat (length l) # string_bytes l) @ rest @ post"
    by (simp add: encode_labels_def rest_def)
  have b: "byte_at ?m (length pre) = Some (of_nat (length l))"
    by (simp add: byte_at_def encode_labels_def nth_append)
  have sl: "slice ?m (length pre + 1) (length pre + 1 + length l) = Some (string_bytes l)"
    by (simp add: slice_def encode_labels_def)
  have "read_name_from ?m (length pre) nxt jumps nl acc =
      read_name_from ?m (length pre + 1 + length l) nxt jumps (nl + (length l + 1)) (acc @ [l])"
    using b sl l Cons.prems(2) length_byte_low [OF l(2)]
    by (subst read_name_from.simps) (simp add: Let_def encode_labels_def)
  also have "\<dots> = Some (Inr (canonicalName (join_dots ((acc @ [l]) @ ls)),
      case nxt of None \<Rightarrow> length (pre @ of_nat (length l) # string_bytes l) + length rest | Some n \<Rightarrow> n))"
    using Cons.IH [of "nl + (length l + 1)" "pre @ of_nat (length l) # string_bytes l" "acc @ [l]"]
      Cons.prems unfolding m rest_def by simp
  finally show ?case by (simp add: encode_labels_def rest_def split: option.split)
qed

lemma split_dots_not_Nil [simp]: "split_dots s \<noteq> []"
  by (induction s) (auto split: list.splits)

lemma join_split_dots [simp]: "join_dots (split_dots s) = s"
proof (induction s)
  case (Cons c cs)
  obtain l ls where "split_dots cs = l # ls" using split_dots_not_Nil [of cs] by (cases "split_dots cs") auto
  then show ?case using Cons by (cases ls) auto
qed simp

lemma labels_size_split: "labels_size (split_dots s) = length s + 1"
  by (induction s) (auto split: list.splits)

lemma of_char_lower: "(of_char (char_of (n :: nat)) :: nat) = n mod 256"
  by simp

lemma lower_char_idem [simp]: "lower_char (lower_char c) = lower_char c"
  by (auto simp: lower_char_def)

lemma to_lower_idem [simp]: "to_lower (to_lower s) = to_lower s"
  by (simp add: to_lower_def)

lemma trim_dot_canonical [simp]: "trim_dot (canonicalName s) = to_lower (trim_dot s)"
  by (simp add: canonicalName_def trim_dot_def)

lemma appendName_SomeD:
  assumes "appendName dst name = Inr bs"
  obtains ls where "bs = dst @ encode_labels ls" "list_all label_ok ls" "labels_size ls \<le> 254"
    "join_dots ls = trim_dot name"
proof (cases "trim_dot name = ''''")
  case True
  then show ?thesis
    using assms that [of "[]"] by (simp add: appendName_def encode_labels_def)
next
  case False
  then have "append_labels dst (split_dots (trim_dot name)) = Inr bs" "length (trim_dot name) \<le> 253"
    using assms by (auto simp: appendName_def Let_def split: if_splits)
  then show ?thesis
    using that [of "split_dots (trim_dot name)"] by (simp add: append_labels_eq labels_size_split)
qed

lemma readName_appendName:
  assumes "appendName dst name = Inr bs"
  shows "readName (bs @ post) (length dst) = Some (Inr (canonicalName (trim_dot name), length bs))"
proof -
  obtain ls where ls: "bs = dst @ encode_labels ls" "list_all label_ok ls" "labels_size ls \<le> 254"
    "join_dots ls = trim_dot name"
    using assms by (rule appendName_SomeD)
  then show ?thesis
    using read_name_labels [of ls 0 dst post None 0 "[]"]
    by (simp add: readName_def) (simp add: encode_labels_def)
qed

lemma questions_safe:
  "case questions m of
      None \<Rightarrow> False
    | Some (Inl e) \<Rightarrow> e = Err ErrMalformedDNS
    | Some (Inr qs) \<Rightarrow> length qs \<le> 64 \<and> list_all (\<lambda>q. length (q_name q) \<le> 254) qs"
proof (cases "length m < dnsHeaderSize")
  case True
  then show ?thesis by (simp add: questions_def)
next
  case False
  then obtain count where count: "u16_at m 4 = Some count"
    using u16_at_Some [of 4 m] by (auto simp: dns_constants)
  show ?thesis
  proof (cases "64 < unat count")
    case True
    then show ?thesis using False count by (simp add: questions_def)
  next
    case few: False
    then show ?thesis
      using question_loop_safe [of "[]" "unat count" m dnsHeaderSize] False count
      by (auto simp: questions_def list_all_iff)
  qed
qed

lemma answerIP_safe:
  "case answerIP m host of
      None \<Rightarrow> False
    | Some None \<Rightarrow> True
    | Some (Some ip) \<Rightarrow> (length ip = 4 \<or> length ip = 16) \<and> contains m ip \<and> length m \<le> 9000"
proof (cases "length m < dnsHeaderSize \<or> maxDNSMessageSize < length m")
  case True
  then show ?thesis by (simp add: answerIP_def)
next
  case False
  then obtain f qd an ns ar where u: "u16_at m 2 = Some f" "u16_at m 4 = Some qd"
    "u16_at m 6 = Some an" "u16_at m 8 = Some ns" "u16_at m 10 = Some ar"
    using u16_at_Some [of 2 m] u16_at_Some [of 4 m] u16_at_Some [of 6 m] u16_at_Some [of 8 m]
      u16_at_Some [of 10 m] by (auto simp: dns_constants)
  obtain r where r: "skip_questions (unat qd) m dnsHeaderSize = Some r"
    using skip_questions_safe [of dnsHeaderSize m "unat qd"] False by auto
  show ?thesis
  proof (cases r)
    case None
    then show ?thesis using u r False by (simp add: answerIP_def Let_def)
  next
    case (Some offset)
    then show ?thesis
      using u r False scan_records_safe [of "unat an + unat ns + unat ar" m "canonicalName host" offset]
      by (auto simp: answerIP_def Let_def maxDNSMessageSize_def split: option.splits)
  qed
qed


section \<open>Queries and responses\<close>

lemma u16_at_append:
  "length pre = i \<Longrightarrow> u16_at (pre @ be_put16 v @ post) i = Some v"
  by (simp add: u16_at_def slice_def be_put16_def)

lemma appendName_append:
  "appendName [] name = Inr bs \<Longrightarrow> appendName dst name = Inr (dst @ bs)"
  by (auto simp: appendName_def Let_def append_labels_eq split: if_splits)

lemma readName_written:
  assumes "appendName [] name = Inr bs" "length pre = k"
  shows "readName (pre @ bs @ post) k = Some (Inr (canonicalName (trim_dot name), k + length bs))"
  using readName_appendName [OF appendName_append [OF assms(1), of pre], of post] assms(2) by simp

lemma length_appendName:
  assumes "appendName [] name = Inr bs"
  shows "length bs \<le> 255"
proof -
  obtain ls where ls: "bs = [] @ encode_labels ls" "list_all label_ok ls" "labels_size ls \<le> 254"
    "join_dots ls = trim_dot name"
    using assms by (rule appendName_SomeD)
  have "length (encode_labels ls) = labels_size ls + 1"
    by (simp add: encode_labels_def labels_size_def length_concat comp_def)
  then show ?thesis using ls by simp
qed

lemma split_dots_snoc_dot: "split_dots (s @ ''.'') = split_dots s @ [[]]"
  by (induction s) (auto split: list.splits)

text \<open>A name that can be written has no second trailing dot.\<close>

lemma trim_dot_written:
  assumes "appendName [] name = Inr bs"
  shows "trim_dot (trim_dot name) = trim_dot name"
proof (cases "trim_dot name = ''''")
  case False
  then have ok: "list_all label_ok (split_dots (trim_dot name))"
    using assms by (auto simp: appendName_def Let_def append_labels_eq split: if_splits)
  have "last (trim_dot name) \<noteq> CHR ''.''"
  proof
    assume "last (trim_dot name) = CHR ''.''"
    then have "trim_dot name = butlast (trim_dot name) @ ''.''"
      using False append_butlast_last_id [OF False] by simp
    then have "[] \<in> set (split_dots (trim_dot name))"
      using split_dots_snoc_dot [of "butlast (trim_dot name)"] by simp
    then show False using ok by (auto simp: list_all_iff label_ok_def)
  qed
  then show ?thesis by (simp add: trim_dot_def [of "trim_dot name"])
qed (simp add: trim_dot_def)

lemma canonical_written:
  assumes "appendName [] (canonicalName host) = Inr bs"
  shows "canonicalName (trim_dot (canonicalName host)) = canonicalName host"
proof -
  have "trim_dot (to_lower (trim_dot host)) = to_lower (trim_dot host)"
    using trim_dot_written [OF assms] by simp
  then show ?thesis by (simp add: canonicalName_def [of "to_lower (trim_dot host)"])
      (simp add: canonicalName_def)
qed

lemma query_header:
  "put_u16_at (replicate dnsHeaderSize 0) 4 1 =
    Some ((replicate 4 0 @ be_put16 1) @ replicate 6 0)"
  by (simp add: put_u16_at_def dnsHeaderSize_def)

lemma questions_query:
  assumes "query host = Some (Inr m)"
  shows "questions m = Some (Inr
    [\<lparr>q_name = canonicalName host, q_type = typeA, q_class = classIN\<rparr>])"
proof -
  from assms obtain name where name: "appendName [] (canonicalName host) = Inr name"
    and m: "m = ((replicate 4 0 @ be_put16 1) @ replicate 6 0) @ name @ be_put16 typeA @ be_put16 classIN"
    by (auto simp: query_def query_header split: sum.splits)
  let ?h = "(replicate 4 0 @ be_put16 1) @ replicate 6 (0 :: byte)"
  have rn: "readName m 12 = Some (Inr (canonicalName host, 12 + length name))"
    unfolding m using readName_written [OF name, of ?h 12] canonical_written [OF name] by simp
  have count: "u16_at m 4 = Some 1"
    using u16_at_append [of "replicate 4 (0 :: byte)" 4 1 "replicate 6 0 @ name @ be_put16 typeA @ be_put16 classIN"]
    by (simp add: m)
  have ty: "u16_at m (12 + length name) = Some typeA"
    using u16_at_append [of "?h @ name" "12 + length name" typeA "be_put16 classIN"] by (simp add: m)
  have cl: "u16_at m (14 + length name) = Some classIN"
    using u16_at_append [of "?h @ name @ be_put16 typeA" "14 + length name" classIN "[]"] by (simp add: m)
  have len: "length m = 16 + length name" by (simp add: m)
  have "question_loop (Suc 0) m 12 [] =
      Some (Inr [\<lparr>q_name = canonicalName host, q_type = typeA, q_class = classIN\<rparr>])"
    using rn ty cl len by (simp add: add.commute add.assoc)
  then show ?thesis using count len by (simp add: questions_def dnsHeaderSize_def)
qed

text \<open>The question a query asks is what \<open>questions\<close> reads from it: the canonical name, type A,
  class IN.\<close>

theorem query_is_understood:
  assumes "query host = Some (Inr m)"
  shows "questions m = Some (Inr
    [\<lparr>q_name = canonicalName host, q_type = typeA, q_class = classIN\<rparr>])"
  using assms by (rule questions_query)

lemma query_is_understood_witness:
  "\<exists>m. query ''bulb.local'' = Some (Inr m) \<and>
    questions m = Some (Inr [\<lparr>q_name = ''bulb.local.'', q_type = typeA, q_class = classIN\<rparr>])"
proof -
  have "canonicalName ''bulb.local'' = ''bulb.local.''"
    by (simp add: canonicalName_def to_lower_def lower_char_def trim_dot_def)
  moreover have "\<exists>m. query ''bulb.local'' = Some (Inr m)"
    by (simp add: query_def query_header calculation appendName_def trim_dot_def)
  ultimately show ?thesis using query_is_understood by fastforce
qed

definition response_header :: bytes where
  "response_header = [0, 0] @ be_put16 responseFlags @ [0, 0] @ be_put16 1 @ [0, 0, 0, 0]"

lemma response_eq:
  "response host ip = Some (Inr m) \<longleftrightarrow>
    (\<exists>ipv4 name. To4 ip = Some ipv4 \<and> appendName [] (canonicalName host) = Inr name \<and>
      m = response_header @ name @ be_put16 typeA @ be_put16 (classIN OR classCacheFlush) @
        be_put32 defaultRecordTTL @ be_put16 4 @ ipv4)"
  by (auto simp: response_def put_u16_at_def dnsHeaderSize_def response_header_def be_put16_def
      eval_nat_numeral split: option.splits sum.splits)

lemma length_To4: "To4 ip = Some x \<Longrightarrow> length x = 4"
  by (auto simp: To4_def split: if_splits)

lemma answerIP_response:
  assumes "response host ip = Some (Inr m)"
  shows "answerIP m host' =
    Some (if equal_fold (canonicalName host) (canonicalName host') then To4 ip else None)"
proof -
  from assms obtain ipv4 name where v4: "To4 ip = Some ipv4"
    and name: "appendName [] (canonicalName host) = Inr name"
    and m: "m = response_header @ name @ be_put16 typeA @ be_put16 (classIN OR classCacheFlush) @
        be_put32 defaultRecordTTL @ be_put16 4 @ ipv4"
    by (auto simp: response_eq)
  have h: "length response_header = 12" by (simp add: response_header_def)
  have len: "length m = 26 + length name" using length_To4 [OF v4] h by (simp add: m)
  have rn: "readName m 12 = Some (Inr (canonicalName host, 12 + length name))"
    unfolding m using readName_written [OF name h] canonical_written [OF name] by simp
  have ty: "u16_at m (12 + length name) = Some typeA"
    unfolding m using h u16_at_append [of "response_header @ name" "12 + length name" typeA] by simp
  have cl: "u16_at m (12 + length name + 2) = Some (classIN OR classCacheFlush)"
    unfolding m using h u16_at_append [of "response_header @ name @ be_put16 typeA" "12 + length name + 2"]
    by simp
  have ln: "u16_at m (12 + length name + 8) = Some 4"
    unfolding m using h u16_at_append [of "response_header @ name @ be_put16 typeA @
      be_put16 (classIN OR classCacheFlush) @ be_put32 defaultRecordTTL" "12 + length name + 8"] by simp
  have hd: "u16_at m 2 = Some responseFlags" "u16_at m 4 = Some 0" "u16_at m 6 = Some 1"
    "u16_at m 8 = Some 0" "u16_at m 10 = Some 0"
    unfolding m response_header_def
    by (simp_all add: u16_at_def slice_def be_put16_def) (simp_all add: be_get16_def)
  have data: "slice m (12 + length name + 10) (12 + length name + 10 + 4) = Some ipv4"
    using h len length_To4 [OF v4] by (simp add: slice_def m)
  have four: "unat (4 :: u16) = 4" by simp
  have cls: "(classIN OR classCacheFlush) AND classMask = classIN" by (simp add: dns_constants)
  have "scan_records (Suc 0) m (canonicalName host') 12 =
      Some (if equal_fold (canonicalName host) (canonicalName host') then Some ipv4 else None)"
    using rn ty cl ln data cls len four
    by (simp only: scan_records.simps Let_def option.case sum.case prod.case) simp
  moreover have "length name \<le> 255" by (rule length_appendName [OF name])
  moreover have "responseFlags AND 0x8000 \<noteq> 0" by (simp add: dns_constants)
  ultimately show ?thesis
    using hd v4 len by (simp add: answerIP_def dns_constants)
qed

text \<open>C24. The address a response carries is what \<open>answerIP\<close> finds in it, for exactly the host
  names that match the responder's up to case and a trailing dot.\<close>

theorem response_is_understood:
  assumes "response host ip = Some (Inr m)"
  shows "answerIP m host' =
    Some (if equal_fold (canonicalName host) (canonicalName host') then To4 ip else None)"
  using assms by (rule answerIP_response)

lemma response_is_understood_witness:
  "\<exists>m. response ''bulb.local'' [192, 168, 1, 7] = Some (Inr m) \<and>
    answerIP m ''BULB.local.'' = Some (Some [192, 168, 1, 7])"
proof -
  have c: "canonicalName ''bulb.local'' = ''bulb.local.''" "canonicalName ''BULB.local.'' = ''bulb.local.''"
    by (simp_all add: canonicalName_def to_lower_def lower_char_def trim_dot_def char_of_def
        bit_Suc_0_iff)
  have "\<exists>m. response ''bulb.local'' [192, 168, 1, 7] = Some (Inr m)"
    by (simp add: response_eq c To4_def appendName_def trim_dot_def)
  then show ?thesis
    using response_is_understood [where host = "''bulb.local''" and host' = "''BULB.local.''"]
    by (auto simp: c equal_fold_def To4_def)
qed

end
