(* ===== verification/Go_Net.thy ===== *)
theory Go_Net
  imports Colour Dns
begin

text \<open>
  The address handling of Go's \<open>net\<close> package that the code uses: splitting and joining host and
  port, textual IP addresses, network interfaces. Texts with a colon are IPv6 addresses, whose parser
  and printer are parameters; everything the code decides about IPv4 is written out.
\<close>

section \<open>Host and port\<close>

definition index_char :: "string \<Rightarrow> char \<Rightarrow> nat option" where
  "index_char s c =
    (let n = length (takeWhile (\<lambda>d. d \<noteq> c) s) in if n < length s then Some n else None)"

definition last_index_char :: "string \<Rightarrow> char \<Rightarrow> nat option" where
  "last_index_char s c = map_option (\<lambda>n. length s - 1 - n) (index_char (rev s) c)"

text \<open>\<open>net.SplitHostPort\<close>; \<open>None\<close> is any of its address errors.\<close>

definition SplitHostPort :: "string \<Rightarrow> (string \<times> string) option" where
  "SplitHostPort hostport =
    (case last_index_char hostport (CHR '':'') of
      None \<Rightarrow> None
    | Some i \<Rightarrow>
        if hd hostport = CHR ''[''
        then (case index_char hostport (CHR '']'') of
            None \<Rightarrow> None
          | Some close \<Rightarrow>
              if close + 1 \<noteq> i then None
              else if CHR ''['' \<in> set (drop 1 hostport) \<or> CHR '']'' \<in> set (drop (close + 1) hostport)
              then None
              else Some (take (close - 1) (drop 1 hostport), drop (i + 1) hostport))
        else if CHR '':'' \<in> set (take i hostport) \<or> CHR ''['' \<in> set hostport \<or>
          CHR '']'' \<in> set hostport
        then None
        else Some (take i hostport, drop (i + 1) hostport))"

definition JoinHostPort :: "string \<Rightarrow> string \<Rightarrow> string" where
  "JoinHostPort host port =
    (if CHR '':'' \<in> set host then ''['' @ host @ '']:'' @ port else host @ '':'' @ port)"

section \<open>IP addresses\<close>

definition is_digit :: "char \<Rightarrow> bool" where
  "is_digit c \<longleftrightarrow> 48 \<le> (of_char c :: nat) \<and> of_char c \<le> (57 :: nat)"

definition decimal_value :: "string \<Rightarrow> nat" where
  "decimal_value s = foldl (\<lambda>n c. 10 * n + (of_char c - 48)) 0 s"

definition ipv4_field :: "string \<Rightarrow> byte option" where
  "ipv4_field s =
    (if s = '''' \<or> 3 < length s \<or> \<not> list_all is_digit s \<or> (1 < length s \<and> hd s = CHR ''0'') \<or>
       255 < decimal_value s
     then None else Some (of_nat (decimal_value s)))"

definition ipv4_mapped :: "bytes \<Rightarrow> bytes" where
  "ipv4_mapped ip = replicate 10 0 @ [0xff, 0xff] @ ip"

definition parse_ipv4 :: "string \<Rightarrow> bytes option" where
  "parse_ipv4 s =
    (case map ipv4_field (split_dots s) of
      [Some a, Some b, Some c, Some d] \<Rightarrow> Some (ipv4_mapped [a, b, c, d])
    | _ \<Rightarrow> None)"

text \<open>\<open>net.ParseIP\<close>: the first of dot, colon and percent decides.\<close>

definition ParseIP :: "(string \<Rightarrow> bytes option) \<Rightarrow> string \<Rightarrow> bytes option" where
  "ParseIP parse6 s =
    (case dropWhile (\<lambda>c. c \<notin> {CHR ''.'', CHR '':'', CHR ''%''}) s of
      [] \<Rightarrow> None
    | c # _ \<Rightarrow>
        if c = CHR ''.'' then parse_ipv4 s else if c = CHR '':'' then parse6 s else None)"

definition ip_string :: "(bytes \<Rightarrow> string) \<Rightarrow> bytes \<Rightarrow> string" where
  "ip_string print6 ip =
    (case To4 ip of
      Some v4 \<Rightarrow> join_dots (map (\<lambda>b. nat_digits (unat b)) v4)
    | None \<Rightarrow> print6 ip)"

definition IsLoopback :: "bytes \<Rightarrow> bool" where
  "IsLoopback ip =
    (case To4 ip of Some v4 \<Rightarrow> hd v4 = 127 | None \<Rightarrow> ip = replicate 15 0 @ [1])"

section \<open>Interfaces\<close>

record net_interface =
  if_Index :: int
  if_Name :: string
  if_Flags :: u32

definition FlagUp :: u32 where "FlagUp = 1"
definition FlagLoopback :: u32 where "FlagLoopback = 4"
definition FlagMulticast :: u32 where "FlagMulticast = 16"

datatype net_addr = IPNet "bytes option" | IPAddr "bytes option" | OtherAddr string

section \<open>Facts\<close>

lemma index_char_append:
  "c \<notin> set xs \<Longrightarrow> index_char (xs @ c # ys) c = Some (length xs)"
proof -
  assume "c \<notin> set xs"
  then have "takeWhile (\<lambda>d. d \<noteq> c) (xs @ c # ys) = xs"
    by (simp add: takeWhile_append2 takeWhile_tail) (auto simp: takeWhile_eq_all_conv)
  then show ?thesis by (simp add: index_char_def)
qed

lemma last_index_char_append:
  assumes "c \<notin> set ys"
  shows "last_index_char (xs @ c # ys) c = Some (length xs)"
  using index_char_append [of c "rev ys" "rev xs"] assms by (simp add: last_index_char_def)

lemma split_join_host_port:
  assumes "set host \<inter> {CHR ''['', CHR '']''} = {}" "set port \<inter> {CHR '':'', CHR ''['', CHR '']''} = {}"
  shows "SplitHostPort (JoinHostPort host port) = Some (host, port)"
proof (cases "CHR '':'' \<in> set host")
  case True
  have j: "JoinHostPort host port = (CHR ''['' # host @ '']'') @ CHR '':'' # port"
    using True by (simp add: JoinHostPort_def)
  have i: "last_index_char (JoinHostPort host port) (CHR '':'') = Some (length host + 2)"
    unfolding j using assms by (subst last_index_char_append) auto
  have c: "index_char (JoinHostPort host port) (CHR '']'') = Some (length host + 1)"
    using index_char_append [of "CHR '']''" "CHR ''['' # host" "CHR '':'' # port"] assms
    by (simp add: j)
  show ?thesis using i c assms by (auto simp: SplitHostPort_def j)
next
  case False
  have j: "JoinHostPort host port = host @ CHR '':'' # port"
    using False by (simp add: JoinHostPort_def)
  have i: "last_index_char (JoinHostPort host port) (CHR '':'') = Some (length host)"
    unfolding j using assms by (subst last_index_char_append) auto
  have "hd (JoinHostPort host port) \<noteq> CHR ''[''"
    unfolding j using assms by (cases host) auto
  then show ?thesis using i assms False by (auto simp: SplitHostPort_def j)
qed

end
