(* ===== verification/Resolver.thy ===== *)
theory Resolver
  imports Go_Net "HOL-Library.Multiset"
begin

text \<open>
  The multicast resolver of \<open>internal/mdns/resolver.go\<close> and the responder of
  \<open>internal/mdns/responder.go\<close>.

  Sockets, the clock and contexts are the environment: a socket is the list of outcomes its calls
  return, in order, and a loop that consumed all of them is still waiting (\<open>None\<close>). The worker of
  each interface is run to completion and the results arrive in an arbitrary order.
\<close>

section \<open>Choosing interfaces\<close>

definition hasIPv4Address :: "(string \<Rightarrow> bytes option) \<Rightarrow> net_addr list \<Rightarrow> bool" where
  "hasIPv4Address parse6 addresses =
    list_ex (\<lambda>address.
      (case (case address of
          IPNet ip \<Rightarrow> ip
        | IPAddr ip \<Rightarrow> ip
        | OtherAddr text \<Rightarrow>
            (let host = (case SplitHostPort text of None \<Rightarrow> text | Some (host, _) \<Rightarrow> host)
             in ParseIP parse6
               (if host \<noteq> '''' \<and> last host = CHR ''%'' then butlast host else host))) of
        None \<Rightarrow> False
      | Some ip \<Rightarrow> To4 ip \<noteq> None)) addresses"

text \<open>\<open>strings.Compare\<close> on bytes.\<close>

fun string_less_eq :: "string \<Rightarrow> string \<Rightarrow> bool" where
  "string_less_eq [] t = True"
| "string_less_eq (c # s) [] = False"
| "string_less_eq (c # s) (d # t) =
    (if c = d then string_less_eq s t else (of_char c :: nat) < of_char d)"

text \<open>The comparison both sorts use: by index, then by name; \<open>slices.SortFunc\<close> with it.\<close>

definition iface_le :: "net_interface \<Rightarrow> net_interface \<Rightarrow> bool" where
  "iface_le a b \<longleftrightarrow>
    (if if_Index a \<noteq> if_Index b then if_Index a - if_Index b \<le> 0
     else string_less_eq (if_Name a) (if_Name b))"

fun insert_iface :: "net_interface \<Rightarrow> net_interface list \<Rightarrow> net_interface list" where
  "insert_iface a [] = [a]"
| "insert_iface a (b # bs) = (if iface_le a b then a # b # bs else b # insert_iface a bs)"

fun sort_ifaces :: "net_interface list \<Rightarrow> net_interface list" where
  "sort_ifaces [] = []"
| "sort_ifaces (a # as) = insert_iface a (sort_ifaces as)"

definition usableMulticastInterfaces ::
  "(string \<Rightarrow> bytes option) \<Rightarrow> net_interface list \<Rightarrow> (net_interface \<Rightarrow> net_addr list result)
    \<Rightarrow> net_interface list" where
  "usableMulticastInterfaces parse6 interfaces addresses =
    sort_ifaces (filter (\<lambda>iface.
      if if_Flags iface AND FlagUp = 0 \<or> if_Flags iface AND (FlagMulticast OR FlagLoopback) = 0
      then False
      else (case addresses iface of
          Inl err \<Rightarrow> False
        | Inr items \<Rightarrow> hasIPv4Address parse6 items)) interfaces)"

definition multicastInterfaces ::
  "(string \<Rightarrow> bytes option) \<Rightarrow> net_interface list result \<Rightarrow> (net_interface \<Rightarrow> net_addr list result)
    \<Rightarrow> net_interface list result" where
  "multicastInterfaces parse6 interfaces addresses =
    unless_err interfaces (\<lambda>e. e) (\<lambda>ifs. Inr (usableMulticastInterfaces parse6 ifs addresses))"

section \<open>Time\<close>

text \<open>Durations and times are nanoseconds.\<close>

definition Second :: int where "Second = 1000000000"
definition Millisecond :: int where "Millisecond = 1000000"
definition fallbackTimeout :: int where "fallbackTimeout = 5 * Second"
definition defaultRetransmitSchedule :: "int list" where
  "defaultRetransmitSchedule = [Second, 3 * Second]"
definition mdns_port :: nat where "mdns_port = 5353"

text \<open>\<open>remaining\<close> is the time until the context's deadline, if it has one.\<close>

definition effectiveTimeout :: "int option \<Rightarrow> int \<Rightarrow> int" where
  "effectiveTimeout remaining timeout =
    (let timeout = (if timeout \<le> 0 then fallbackTimeout else timeout)
     in case remaining of
        None \<Rightarrow> timeout
      | Some r \<Rightarrow> if r < timeout then max r Millisecond else timeout)"

section \<open>One socket\<close>

text \<open>
  What one round of the read loop meets: the outcome of \<open>SetReadDeadline\<close>, then a packet with its
  source port (\<open>None\<close> for a missing source) or a read error with what the code looks at next:
  whether it is a timeout, the time, the context's error and the outcome of a retransmission.
\<close>

datatype udp_event =
    UdpPacket bytes "nat option"
  | UdpError goerror bool int "goerror option" "goerror option"

definition read_deadline :: "int \<Rightarrow> int \<Rightarrow> int list \<Rightarrow> nat \<Rightarrow> int \<times> int option" where
  "read_deadline start deadline schedule retransmit =
    (if retransmit < length schedule \<and> start + schedule ! retransmit < deadline
     then (start + schedule ! retransmit, Some (start + schedule ! retransmit))
     else (deadline, None))"

text \<open>The loop after the first query; it also returns how many retransmissions were sent and the
  read deadlines that were set.\<close>

fun lookup_loop ::
  "string \<Rightarrow> int \<Rightarrow> int \<Rightarrow> int list \<Rightarrow> nat \<Rightarrow> (goerror option \<times> udp_event) list
    \<Rightarrow> bytes result option \<times> nat \<times> int list" where
  "lookup_loop host start deadline schedule retransmit [] = (None, 0, [])"
| "lookup_loop host start deadline schedule retransmit ((set_err, ev) # evs) =
    (case read_deadline start deadline schedule retransmit of
      (readDeadline, retransmitAt) \<Rightarrow>
        (case set_err of
          Some err \<Rightarrow> (Some (Inl (Errorf ''set mDNS read deadline for %q: %w'' [err])), 0, [readDeadline])
        | None \<Rightarrow>
            (case ev of
              UdpError err timeout now ctxErr writeErr \<Rightarrow>
                (case ctxErr of
                  Some c \<Rightarrow> (Some (Inl (Errorf ''resolve %q with mDNS: %w'' [c])), 0, [readDeadline])
                | None \<Rightarrow>
                    if retransmitAt \<noteq> None \<and> timeout \<and> \<not> now < the retransmitAt
                    then (case writeErr of
                        Some w \<Rightarrow> (Some (Inl (Errorf ''send mDNS query for %q: %w'' [w])), 1, [readDeadline])
                      | None \<Rightarrow>
                          (case lookup_loop host start deadline schedule (retransmit + 1) evs of
                            (r, n, ds) \<Rightarrow> (r, n + 1, readDeadline # ds)))
                    else (Some (Inl (Errorf ''read mDNS answer for %q: %w'' [err])), 0, [readDeadline]))
            | UdpPacket packet port \<Rightarrow>
                (case (if port = None \<or> the port \<noteq> mdns_port then None
                       else the (answerIP packet host)) of
                  Some ip \<Rightarrow> (Some (Inr ip), 0, [readDeadline])
                | None \<Rightarrow>
                    (case lookup_loop host start deadline schedule retransmit evs of
                      (r, n, ds) \<Rightarrow> (r, n, readDeadline # ds))))))"

definition lookupOnConn ::
  "string \<Rightarrow> int \<Rightarrow> int \<Rightarrow> int list \<Rightarrow> goerror option \<Rightarrow> (goerror option \<times> udp_event) list
    \<Rightarrow> bytes result option \<times> nat \<times> int list" where
  "lookupOnConn host start deadline schedule firstWrite evs =
    (case firstWrite of
      Some err \<Rightarrow> (Some (Inl (Errorf ''send mDNS query for %q: %w'' [err])), 0, [])
    | None \<Rightarrow> lookup_loop host start deadline schedule 0 evs)"

section \<open>All interfaces\<close>

text \<open>
  The workers' results in the order they arrive: the first address wins, otherwise the errors are
  collected behind those of opening the sockets.
\<close>

fun first_answer :: "bytes result list \<Rightarrow> goerror list \<Rightarrow> bytes + goerror list" where
  "first_answer [] errs = Inr errs"
| "first_answer (Inr ip # rs) errs = Inl ip"
| "first_answer (Inl e # rs) errs = first_answer rs (errs @ [e])"

text \<open>
  \<open>lookupWithSchedule\<close>: \<open>listen\<close> opens a socket on an interface, \<open>answers\<close> is what the
  workers of the opened sockets return in the order of arrival, \<open>ctxErr\<close> and \<open>ctxEnd\<close> the
  context's error before and after. The second component is the list of sockets closed on return.
\<close>

definition lookupWithSchedule ::
  "goerror option \<Rightarrow> string \<Rightarrow> net_interface list result \<Rightarrow> (net_interface \<Rightarrow> goerror + 'conn)
    \<Rightarrow> ('conn list \<Rightarrow> bytes result list) \<Rightarrow> goerror option \<Rightarrow> bytes result \<times> 'conn list" where
  "lookupWithSchedule ctxErr host interfaces listen answers ctxEnd =
    (case ctxErr of
      Some err \<Rightarrow> (Inl (Errorf ''resolve %q with mDNS: %w'' [err]), [])
    | None \<Rightarrow>
      (case the (query host) of
        Inl err \<Rightarrow> (Inl (Errorf ''build mDNS query for %q: %w'' [err]), [])
      | Inr message \<Rightarrow>
        (case interfaces of
          Inl err \<Rightarrow> (Inl (Errorf ''list IPv4 multicast interfaces for %q: %w'' [err]), [])
        | Inr unsorted \<Rightarrow>
          (let ifs = sort_ifaces unsorted;
               outcomes = map listen ifs;
               opened = List.map_filter (\<lambda>r. case r of Inl _ \<Rightarrow> None | Inr c \<Rightarrow> Some c) outcomes;
               openErrors = List.map_filter
                 (\<lambda>r. case r of Inl e \<Rightarrow> Some (Errorf ''%s: %w'' [e]) | Inr _ \<Rightarrow> None) outcomes
           in if ifs = []
              then (Inl (Errorf ''no IPv4 multicast interfaces available for %q'' []), [])
              else if opened = []
              then (Inl (Errorf ''could not open an mDNS socket for %q on %d interface(s): %s: %w''
                openErrors), [])
              else (case first_answer (answers opened) openErrors of
                  Inl ip \<Rightarrow> (Inr ip, opened)
                | Inr errs \<Rightarrow>
                    (case ctxEnd of
                      Some err \<Rightarrow> (Inl (Errorf ''resolve %q with mDNS: %w'' [err]), opened)
                    | None \<Rightarrow>
                        (Inl (Errorf ''no mDNS answer for %q on %d interface(s): %s: %w'' errs),
                         opened)))))))"

section \<open>The responder\<close>

record responder =
  rs_host :: string
  rs_response :: bytes
  rs_closed :: bool

text \<open>\<open>strings.HasSuffix(strings.TrimSuffix(strings.ToLower(host), "."), ".local")\<close>.\<close>

definition is_local_name :: "string \<Rightarrow> bool" where
  "is_local_name host =
    (let name = trim_dot (to_lower host) in is_prefix (rev ''.local'') (rev name))"

definition NewResponder ::
  "string \<Rightarrow> bytes \<Rightarrow> net_interface list result \<Rightarrow> (net_interface \<Rightarrow> goerror + 'conn)
    \<Rightarrow> (responder \<times> 'conn list) result" where
  "NewResponder host ip interfaces listen =
    (if \<not> is_local_name host
     then Inl (Errorf ''simulator mDNS name must end in .local'' [])
     else unless_err (the (response host ip)) (\<lambda>e. e) (\<lambda>message.
       unless_err interfaces (\<lambda>_. Errorf ''could not list simulator mDNS interfaces'' []) (\<lambda>ifs.
         (let conns = List.map_filter (\<lambda>i. case listen i of Inl _ \<Rightarrow> None | Inr c \<Rightarrow> Some c) ifs
          in if conns = [] then Inl (Errorf ''could not open simulator mDNS listener'' [])
             else Inr (\<lparr>rs_host = canonicalName host, rs_response = message, rs_closed = False\<rparr>,
               conns)))))"

definition matches_host :: "responder \<Rightarrow> question \<Rightarrow> bool" where
  "matches_host r item \<longleftrightarrow>
    equal_fold (q_name item) (rs_host r) \<and> q_class item AND classMask = classIN \<and>
    (q_type item = typeA \<or> q_type item = typeANY)"

text \<open>One packet: whether the responder writes its answer.\<close>

definition answers_packet :: "responder \<Rightarrow> bytes \<Rightarrow> bool" where
  "answers_packet r packet =
    (case the (questions packet) of
      Inl err \<Rightarrow> False
    | Inr items \<Rightarrow> list_ex (matches_host r) items)"

text \<open>
  \<open>serveConn\<close> over what the socket returns: a packet with the outcome of the answer's write, or a
  read error, each with whether the context has ended by then. The result pairs the returned error,
  once the loop has ended, with the number of answers sent.
\<close>

fun serveConn ::
  "responder \<Rightarrow> ((goerror + bytes \<times> goerror option) \<times> bool) list
    \<Rightarrow> goerror option option \<times> nat" where
  "serveConn r [] = (None, 0)"
| "serveConn r ((Inl err, cancelled) # evs) = (Some (if cancelled then None else Some err), 0)"
| "serveConn r ((Inr (packet, writeErr), cancelled) # evs) =
    (if answers_packet r packet
     then (case writeErr of
         Some err \<Rightarrow> if cancelled then serveConn r evs else (Some (Some err), 0)
       | None \<Rightarrow> (case serveConn r evs of (e, n) \<Rightarrow> (e, n + 1)))
     else serveConn r evs)"

text \<open>\<open>errors.Join\<close>: nil when every error is nil.\<close>

definition errors_join :: "goerror option list \<Rightarrow> goerror option" where
  "errors_join es =
    (let errs = List.map_filter (\<lambda>e. e) es in if errs = [] then None else Some (Errorf ''join'' errs))"

text \<open>\<open>Serve\<close> collects the results of its sockets; \<open>Close\<close> closes them once.\<close>

definition responder_Serve :: "goerror option list \<Rightarrow> bool \<Rightarrow> goerror option" where
  "responder_Serve results cancelled = (if cancelled then None else errors_join results)"

definition responder_Close :: "goerror option list \<Rightarrow> responder \<Rightarrow> goerror option \<times> responder" where
  "responder_Close errs r =
    (if rs_closed r then (None, r) else (errors_join errs, r\<lparr>rs_closed := True\<rparr>))"

section \<open>Sorting\<close>

lemma string_less_eq_total: "string_less_eq s t \<or> string_less_eq t s"
  by (induction s t rule: string_less_eq.induct)
    (auto, metis linorder_neq_iff of_char_eq_iff)

lemma string_less_eq_trans: "string_less_eq s t \<Longrightarrow> string_less_eq t u \<Longrightarrow> string_less_eq s u"
proof (induction s t arbitrary: u rule: string_less_eq.induct)
  case (3 c s d t)
  then show ?case by (cases u) (auto split: if_splits)
qed auto

lemma iface_le_total: "iface_le a b \<or> iface_le b a"
  using string_less_eq_total by (auto simp: iface_le_def)

lemma iface_le_trans: "iface_le a b \<Longrightarrow> iface_le b c \<Longrightarrow> iface_le a c"
  by (auto simp: iface_le_def split: if_splits intro: string_less_eq_trans)

lemma set_insert_iface [simp]: "set (insert_iface a bs) = insert a (set bs)"
  by (induction bs) auto

lemma mset_insert_iface [simp]: "mset (insert_iface a bs) = add_mset a (mset bs)"
  by (induction bs) auto

lemma mset_sort_ifaces [simp]: "mset (sort_ifaces as) = mset as"
  by (induction as) auto

lemma sorted_insert_iface:
  "sorted_wrt iface_le bs \<Longrightarrow> sorted_wrt iface_le (insert_iface a bs)"
proof (induction bs)
  case (Cons b bs)
  then show ?case
    using iface_le_total [of a b] by (auto intro: iface_le_trans)
qed simp

lemma sorted_sort_ifaces: "sorted_wrt iface_le (sort_ifaces as)"
  by (induction as) (auto intro: sorted_insert_iface)

lemma sort_ifaces_Nil_iff [simp]: "sort_ifaces as = [] \<longleftrightarrow> as = []"
  by (metis mset_sort_ifaces mset_zero_iff)

section \<open>Properties\<close>

text \<open>The interfaces a lookup may use are exactly the given ones that are up, multicast-capable
  or loopback, and have an IPv4 address, each as often as it was given, ordered by index and then by
  name.\<close>

theorem usable_interfaces_sorted:
  "mset (usableMulticastInterfaces parse6 interfaces addresses) =
    filter_mset (\<lambda>i. if_Flags i AND FlagUp \<noteq> 0 \<and>
      if_Flags i AND (FlagMulticast OR FlagLoopback) \<noteq> 0 \<and>
      (\<exists>items. addresses i = Inr items \<and> hasIPv4Address parse6 items)) (mset interfaces) \<and>
   sorted_wrt iface_le (usableMulticastInterfaces parse6 interfaces addresses)"
proof
  show "sorted_wrt iface_le (usableMulticastInterfaces parse6 interfaces addresses)"
    unfolding usableMulticastInterfaces_def by (rule sorted_sort_ifaces)
  show "mset (usableMulticastInterfaces parse6 interfaces addresses) =
    filter_mset (\<lambda>i. if_Flags i AND FlagUp \<noteq> 0 \<and>
      if_Flags i AND (FlagMulticast OR FlagLoopback) \<noteq> 0 \<and>
      (\<exists>items. addresses i = Inr items \<and> hasIPv4Address parse6 items)) (mset interfaces)"
    unfolding usableMulticastInterfaces_def mset_sort_ifaces mset_filter
    by (intro filter_mset_cong refl) (auto split: sum.splits)
qed

lemma read_deadline_le: "fst (read_deadline start deadline schedule k) \<le> deadline"
  by (simp add: read_deadline_def)

lemma read_deadline_Some:
  "read_deadline start deadline schedule k = (d, Some t) \<Longrightarrow> k < length schedule"
  by (simp add: read_deadline_def split: if_splits)

text \<open>C25. A socket's lookup sends at most one retransmission per entry of the schedule, never sets a
  read deadline past the lookup's own, and only takes an address from a packet that came from the
  mDNS port and answers the host.\<close>

theorem lookup_is_bounded_and_trusts_the_mdns_port:
  assumes "lookup_loop host start deadline schedule k evs = (r, n, ds)"
  shows "n \<le> length schedule - k \<and> (\<forall>d \<in> set ds. d \<le> deadline) \<and>
    (\<forall>ip. r = Some (Inr ip) \<longrightarrow> (\<exists>packet. (None, UdpPacket packet (Some mdns_port)) \<in> set evs \<and>
      answerIP packet host = Some (Some ip)))"
  using assms
proof (induction evs arbitrary: k r n ds)
  case Nil
  then show ?case by simp
next
  case (Cons e evs)
  obtain set_err ev where e: "e = (set_err, ev)" by (cases e)
  obtain rd ra where rd: "read_deadline start deadline schedule k = (rd, ra)"
    by (cases "read_deadline start deadline schedule k")
  have le: "rd \<le> deadline" using read_deadline_le [of start deadline schedule k] rd by simp
  show ?case
  proof (cases set_err)
    case (Some err)
    then show ?thesis using Cons.prems e rd le by auto
  next
    case None
    show ?thesis
    proof (cases ev)
      case (UdpPacket packet port)
      obtain r' n' ds' where rest: "lookup_loop host start deadline schedule k evs = (r', n', ds')"
        by (metis prod_cases3)
      obtain a where "answerIP packet host = Some a"
        using answerIP_safe [of packet host] by (cases "answerIP packet host") auto
      then show ?thesis
        using Cons.prems e None rd UdpPacket le rest Cons.IH [OF rest]
        by (auto split: option.splits if_splits)
    next
      case (UdpError err timeout now ctx wr)
      obtain r' n' ds' where rest: "lookup_loop host start deadline schedule (k + 1) evs = (r', n', ds')"
        by (metis prod_cases3)
      show ?thesis
        using Cons.prems e None rd UdpError le rest Cons.IH [OF rest]
          read_deadline_Some [of start deadline schedule k rd]
        by (auto split: option.splits if_splits)
    qed
  qed
qed

lemma lookup_is_bounded_and_trusts_the_mdns_port_witness:
  "lookup_loop ''bulb.local'' 0 10 [5] 0
      [(None, UdpPacket [] (Some 9)), (None, UdpError (Err DeadlineExceeded) True 5 None None),
       (None, UdpError (Err DeadlineExceeded) True 10 None None)] =
      (Some (Inl (Errorf ''read mDNS answer for %q: %w'' [Err DeadlineExceeded])), 1, [5, 5, 10]) \<and>
    1 \<le> length [5 :: int] - 0 \<and> list_all (\<lambda>d. d \<le> (10 :: int)) [5, 5, 10]"
proof -
  have run: "lookup_loop ''bulb.local'' 0 10 [5] 0
      [(None, UdpPacket [] (Some 9)), (None, UdpError (Err DeadlineExceeded) True 5 None None),
       (None, UdpError (Err DeadlineExceeded) True 10 None None)] =
      (Some (Inl (Errorf ''read mDNS answer for %q: %w'' [Err DeadlineExceeded])), 1, [5, 5, 10])"
    by (simp add: read_deadline_def mdns_port_def)
  show ?thesis
    using lookup_is_bounded_and_trusts_the_mdns_port [OF run] run by (auto simp: list_all_iff)
qed

lemma first_answer_Inl: "first_answer rs errs = Inl ip \<Longrightarrow> Inr ip \<in> set rs"
  by (induction rs errs rule: first_answer.induct) auto

lemma first_answer_Inr:
  "first_answer rs errs = Inr es \<Longrightarrow>
    (\<forall>ip. Inr ip \<notin> set rs) \<and> set es = set errs \<union> {e. Inl e \<in> set rs}"
  by (induction rs errs rule: first_answer.induct) auto

text \<open>The sockets a lookup opens, in the order of the sorted interfaces.\<close>

definition opened_sockets ::
  "(net_interface \<Rightarrow> goerror + 'conn) \<Rightarrow> net_interface list \<Rightarrow> 'conn list" where
  "opened_sockets listen ifs =
    List.map_filter (\<lambda>r. case r of Inl _ \<Rightarrow> None | Inr c \<Rightarrow> Some c) (map listen (sort_ifaces ifs))"

lemma set_sort_ifaces [simp]: "set (sort_ifaces as) = set as"
  by (metis mset_sort_ifaces set_mset_mset)


lemma query_bulb: "\<exists>m. query ''bulb.local'' = Some (Inr m)"
proof -
  have "canonicalName ''bulb.local'' = ''bulb.local.''"
    by (simp add: canonicalName_def to_lower_def lower_char_def trim_dot_def)
  then show ?thesis by (simp add: query_def query_header appendName_def trim_dot_def)
qed

definition eth0 :: net_interface where
  "eth0 = \<lparr>if_Index = 2, if_Name = ''eth0'', if_Flags = 0x13\<rparr>"


text \<open>C27. Resolver and responder work together: a responder for a name answers exactly the queries for
  names that match it up to case and a trailing dot, and the resolver that sent such a query takes the
  responder's address from the answer.\<close>

theorem responder_answers_query:
  assumes "query host = Some (Inr q)" and "NewResponder name ip ifs listen = Inr (r, conns)"
  shows "(answers_packet r q \<longleftrightarrow> equal_fold (canonicalName host) (canonicalName name)) \<and>
    (answers_packet r q \<longrightarrow> answerIP (rs_response r) host = Some (To4 ip))"
proof -
  from assms(2) have r: "rs_host r = canonicalName name"
    and resp: "the (response name ip) = Inr (rs_response r)"
    by (auto simp: NewResponder_def unless_err_eq_Inr Let_def split: if_splits)
  have iff: "answers_packet r q \<longleftrightarrow> equal_fold (canonicalName host) (canonicalName name)"
    using questions_query [OF assms(1)] r
    by (simp add: answers_packet_def matches_host_def dns_constants)
  have "response name ip \<noteq> None"
    by (auto simp: response_def put_u16_at_def dnsHeaderSize_def split: option.splits sum.splits)
  with resp have "response name ip = Some (Inr (rs_response r))" by auto
  from answerIP_response [OF this, of host]
  show ?thesis using iff by (simp add: equal_fold_def)
qed

lemma responder_answers_query_witness:
  "\<exists>q r conns. query ''bulb.local'' = Some (Inr q) \<and>
    NewResponder ''Bulb.local'' [127, 0, 0, 1] (Inr [eth0]) (\<lambda>_. Inr (7 :: nat)) = Inr (r, conns) \<and>
    answers_packet r q \<and> answerIP (rs_response r) ''bulb.local'' = Some (Some [127, 0, 0, 1])"
proof -
  obtain q where q: "query ''bulb.local'' = Some (Inr q)" using query_bulb by blast
  have c: "canonicalName ''Bulb.local'' = ''bulb.local.''" "canonicalName ''bulb.local'' = ''bulb.local.''"
    "is_local_name ''Bulb.local''"
    by (simp_all add: canonicalName_def to_lower_def lower_char_def trim_dot_def char_of_def
        bit_Suc_0_iff is_local_name_def)
  have "\<exists>m. response ''Bulb.local'' [127, 0, 0, 1] = Some (Inr m)"
    by (simp add: response_eq c To4_def appendName_def trim_dot_def)
  then obtain r conns where r: "NewResponder ''Bulb.local'' [127, 0, 0, 1] (Inr [eth0])
      (\<lambda>_. Inr (7 :: nat)) = Inr (r, conns)"
    by (auto simp: NewResponder_def c map_filter_simps)
  show ?thesis using q r responder_answers_query [OF q r] by (auto simp: To4_def c equal_fold_def)
qed

end
