(* ===== verification/Client_Dial.thy ===== *)
theory Client_Dial
  imports Client_State Resolver
begin

text \<open>
  Configuration (\<open>options.go\<close>) and connection establishment (\<open>DialWithContext\<close> of
  \<open>client.go\<close>): the policy checks, dialing with built-in name resolution, the secure transport and the
  hello exchange, with what every failing path does to the connection.

  The environment supplies what the outside does during one dial: the dialer, the outcomes of the
  three \<open>SetDeadline\<close> calls, the Noise library, the cause of the establishment context and whether
  its cancellation hook had fired at the end.
\<close>

section \<open>Options\<close>

type_synonym dialer = "string \<Rightarrow> string \<Rightarrow> conn result"

record config =
  cfg_clientInfo :: string
  cfg_encryptionKey :: string
  cfg_expectedName :: string
  cfg_insecurePlaintext :: bool
  cfg_dialContext :: "dialer option"
  cfg_maxFrameSize :: int
  cfg_callbackQueueSize :: int
  cfg_keepaliveRequested :: bool
  cfg_keepaliveInterval :: int
  cfg_keepaliveTimeout :: int
  cfg_multicastInterface :: "net_interface option"

type_synonym dial_option = "config \<Rightarrow> config"

definition WithClientInfo :: "string \<Rightarrow> dial_option" where
  "WithClientInfo info c = c\<lparr>cfg_clientInfo := info\<rparr>"

definition WithEncryptionKey :: "string \<Rightarrow> dial_option" where
  "WithEncryptionKey key c = c\<lparr>cfg_encryptionKey := key\<rparr>"

definition WithExpectedName :: "string \<Rightarrow> dial_option" where
  "WithExpectedName name c = c\<lparr>cfg_expectedName := name\<rparr>"

definition WithInsecurePlaintext :: dial_option where
  "WithInsecurePlaintext c = c\<lparr>cfg_insecurePlaintext := True\<rparr>"

definition WithDialContext :: "dialer option \<Rightarrow> dial_option" where
  "WithDialContext fn c = c\<lparr>cfg_dialContext := fn\<rparr>"

definition WithMulticastInterface :: "net_interface option \<Rightarrow> dial_option" where
  "WithMulticastInterface iface c =
    (case iface of
      None \<Rightarrow> c\<lparr>cfg_multicastInterface := None\<rparr>
    | Some selected \<Rightarrow> c\<lparr>cfg_multicastInterface := Some selected\<rparr>)"

definition WithMaxFrameSize :: "int \<Rightarrow> dial_option" where
  "WithMaxFrameSize n c = c\<lparr>cfg_maxFrameSize := n\<rparr>"

definition WithCallbackQueueSize :: "int \<Rightarrow> dial_option" where
  "WithCallbackQueueSize n c = c\<lparr>cfg_callbackQueueSize := n\<rparr>"

definition WithKeepalive :: "int \<Rightarrow> int \<Rightarrow> dial_option" where
  "WithKeepalive interval timeout c =
    c\<lparr>cfg_keepaliveRequested := True, cfg_keepaliveInterval := interval,
      cfg_keepaliveTimeout := timeout\<rparr>"

definition isMDNSHost :: "string \<Rightarrow> bool" where
  "isMDNSHost host = is_prefix (rev ''.local'') (rev (trim_dot (to_lower host)))"

definition defaultDialerWith ::
  "(bytes \<Rightarrow> string) \<Rightarrow> int \<Rightarrow> net_interface option
    \<Rightarrow> (string \<Rightarrow> int \<Rightarrow> net_interface option \<Rightarrow> bytes result) \<Rightarrow> dialer \<Rightarrow> dialer" where
  "defaultDialerWith print6 timeout iface lookup dial network address =
    (case SplitHostPort address of
      None \<Rightarrow> dial network address
    | Some (host, port) \<Rightarrow>
        if isMDNSHost host
        then (case lookup host timeout iface of
            Inl err \<Rightarrow> Inl (Errorf ''%w for %q: %w'' [Err ErrNameResolution, err])
          | Inr ip \<Rightarrow> dial network (JoinHostPort (ip_string print6 ip) port))
        else dial network address)"

section \<open>The environment of a dial\<close>

record ('h, 'c) dial_env =
  de_lookup :: "string \<Rightarrow> int \<Rightarrow> net_interface option \<Rightarrow> bytes result"
  de_net_dial :: dialer
  de_print6 :: "bytes \<Rightarrow> string"
  de_hasDeadline :: bool
  de_remaining :: int
  de_setDeadline :: "goerror option"
  de_handshakeDeadline :: "goerror option"
  de_restoreDeadline :: "goerror option"
  de_clearDeadline :: "goerror option"
  de_noise :: "('h, 'c) noise_lib"
  de_cause :: "goerror option"
  de_hookStopped :: bool

definition defaultDialer :: "('h, 'c) dial_env \<Rightarrow> int \<Rightarrow> net_interface option \<Rightarrow> dialer" where
  "defaultDialer env timeout iface =
    defaultDialerWith (de_print6 env) timeout iface (de_lookup env) (de_net_dial env)"

definition establishmentCause :: "('h, 'c) dial_env \<Rightarrow> goerror \<Rightarrow> goerror option" where
  "establishmentCause env err =
    (case de_cause env of
      Some cause \<Rightarrow> Some cause
    | None \<Rightarrow>
        if de_hasDeadline env \<and> errors_is err OsDeadlineExceeded then Some (Err DeadlineExceeded)
        else None)"

definition establishment_error :: "('h, 'c) dial_env \<Rightarrow> string \<Rightarrow> goerror \<Rightarrow> goerror" where
  "establishment_error env what err =
    (case establishmentCause env err of
      Some cause \<Rightarrow> Errorf (what @ '': %w: establishment context: %w'') [err, cause]
    | None \<Rightarrow> Errorf (what @ '': %w'') [err])"

section \<open>Dialing\<close>

definition default_config :: config where
  "default_config =
    \<lparr>cfg_clientInfo = ''go-aioesphomeapi'', cfg_encryptionKey = '''', cfg_expectedName = '''',
      cfg_insecurePlaintext = False, cfg_dialContext = None, cfg_maxFrameSize = DefaultMaxFrameSize,
      cfg_callbackQueueSize = 256, cfg_keepaliveRequested = False, cfg_keepaliveInterval = 0,
      cfg_keepaliveTimeout = 0, cfg_multicastInterface = None\<rparr>"

definition apply_options :: "dial_option option list \<Rightarrow> config" where
  "apply_options opts =
    fold (\<lambda>opt c. case opt of None \<Rightarrow> c | Some f \<Rightarrow> f c) opts default_config"

text \<open>What the configuration must satisfy before anything is dialed.\<close>

definition config_error :: "config \<Rightarrow> goerror option" where
  "config_error cfg =
    (if cfg_encryptionKey cfg = '''' \<and> \<not> cfg_insecurePlaintext cfg then Some (Err ErrTransportPolicy)
     else if cfg_encryptionKey cfg \<noteq> '''' \<and> cfg_insecurePlaintext cfg then Some (Err ErrTransportPolicy)
     else if cfg_keepaliveRequested cfg \<and>
       (cfg_keepaliveInterval cfg \<le> 0 \<or> cfg_keepaliveTimeout cfg \<le> 0)
     then Some (Errorf ''%w: interval and timeout must both be positive'' [Err ErrKeepalive])
     else None)"

definition close_conn :: "conn \<Rightarrow> conn" where
  "close_conn conn = conn\<lparr>cn_closed := True\<rparr>"

text \<open>The transport on a fresh connection: the framer, or the error and the closed connection.\<close>

definition establish_framer ::
  "('h, 'c) dial_env \<Rightarrow> config \<Rightarrow> int \<Rightarrow> conn \<Rightarrow> (goerror \<times> conn) + 'c wire_conn" where
  "establish_framer env cfg timeout conn =
    (if cfg_encryptionKey cfg \<noteq> ''''
     then (case b64_decode_strict (string_bytes (cfg_encryptionKey cfg)) of
        None \<Rightarrow> Inl (Errorf ''configure Noise for ESPHome target %q: %w: %w''
          [Err ErrNoiseKey, Errorf ''illegal base64 data'' []], close_conn conn)
      | Some key \<Rightarrow>
          if length key \<noteq> 32
          then Inl (Errorf ''configure Noise for ESPHome target %q: %w'' [Err ErrNoiseKey],
            close_conn conn)
          else (case NewNoiseClientFramer (de_noise env) key
              (string_bytes (cfg_expectedName cfg))
              (if de_hasDeadline env then de_remaining env else timeout) (de_handshakeDeadline env)
              (cfg_maxFrameSize cfg) (cn_out conn) (cn_in conn) of
            (Inl err, w) \<Rightarrow>
              Inl (establishment_error env ''establish Noise session with ESPHome target %q'' err,
                close_conn (conn\<lparr>cn_out := w\<rparr>))
          | (Inr (f, s), w) \<Rightarrow> Inr (NoiseConn (f, conn\<lparr>cn_in := s, cn_out := w\<rparr>))))
     else Inr (PlainConn (NewPlainFramer (cfg_maxFrameSize cfg), conn)))"

text \<open>The client once the transport stands: hello, then the last two ways to fail.\<close>

definition finish_dial ::
  "('h, 'c) dial_env \<Rightarrow> protobuf \<Rightarrow> config \<Rightarrow> nat \<Rightarrow> 'c wire_conn
    \<Rightarrow> (goerror \<times> conn) + 'c wire_conn client" where
  "finish_dial env pb cfg queueSize f =
    (let F = wire_ops (de_noise env);
         failed = (\<lambda>err c. Inl (err, wire_conn_of (the (cl_framer (Close F c)))))
     in case hello F pb (cfg_clientInfo cfg) (cfg_expectedName cfg) (newClient f queueSize) of
        (Some err, c) \<Rightarrow>
          failed (establishment_error env ''complete hello with ESPHome target %q'' err) c
      | (None, c) \<Rightarrow>
          if de_clearDeadline env \<noteq> None \<and> \<not> errors_is (the (de_clearDeadline env)) ClosedPipe
          then failed (Errorf ''clear establishment deadline for ESPHome target %q: %w''
            [the (de_clearDeadline env)]) c
          else if \<not> de_hookStopped env
          then (case de_cause env of
              Some cause \<Rightarrow> failed (Errorf ''complete connection to ESPHome target %q: %w'' [cause]) c
            | None \<Rightarrow> failed (Errorf ''complete connection to ESPHome target %q: establishment ended'' []) c)
          else Inr (c\<lparr>cl_connected := True\<rparr>))"

text \<open>
  \<open>DialWithContext\<close>. A failure carries the connection that was dialed, in its final state, or
  \<open>None\<close> when nothing was dialed.
\<close>

definition DialWithContext ::
  "('h, 'c) dial_env \<Rightarrow> protobuf \<Rightarrow> string \<Rightarrow> int \<Rightarrow> dial_option option list
    \<Rightarrow> (goerror \<times> conn option) + 'c wire_conn client" where
  "DialWithContext env pb address timeout opts =
    (let cfg = apply_options opts in
     case config_error cfg of
       Some err \<Rightarrow> Inl (err, None)
     | None \<Rightarrow>
        (let dial = (case cfg_dialContext cfg of
               Some fn \<Rightarrow> fn
             | None \<Rightarrow> defaultDialer env timeout (cfg_multicastInterface cfg));
             queueSize = (if cfg_callbackQueueSize cfg \<le> 0 then 256 else nat (cfg_callbackQueueSize cfg))
         in case dial ''tcp'' address of
            Inl err \<Rightarrow> Inl (Errorf ''dial ESPHome target %q: %w'' [err], None)
          | Inr conn \<Rightarrow>
              if de_hasDeadline env \<and> de_setDeadline env \<noteq> None \<and>
                \<not> errors_is (the (de_setDeadline env)) ClosedPipe
              then Inl (Errorf ''set establishment deadline for ESPHome target %q: %w''
                [the (de_setDeadline env)], Some (close_conn conn))
              else (case establish_framer env cfg timeout conn of
                  Inl (err, c) \<Rightarrow> Inl (err, Some c)
                | Inr f \<Rightarrow>
                    if de_hasDeadline env \<and> de_restoreDeadline env \<noteq> None
                    then Inl (Errorf ''restore hello deadline for ESPHome target %q: %w''
                      [the (de_restoreDeadline env)], Some (close_conn (wire_conn_of f)))
                    else (case finish_dial env pb cfg queueSize f of
                        Inl (err, c) \<Rightarrow> Inl (err, Some c)
                      | Inr c \<Rightarrow> Inr c))))"

section \<open>Properties\<close>

lemma send_fields:
  assumes "send F pb m c = (e, c')"
  shows "cl_done c' = cl_done c \<and> (cl_framer c \<noteq> None \<longrightarrow> cl_framer c' \<noteq> None)"
  using assms
  by (auto simp: send_def Let_def split: option.splits sum.splits if_splits prod.splits)

lemma hello_frame:
  assumes "hello F pb ci en c = (e, c')" "cl_framer c \<noteq> None"
  shows "cl_done c' = cl_done c \<and> cl_framer c' \<noteq> None"
  using assms send_fields [of F pb "HelloRequest (hello_request ci)" c]
  by (fastforce simp: hello_def Let_def split: option.splits sum.splits prod.splits)

lemma check_hello_ok:
  "check_hello en m = Inr r \<longleftrightarrow>
    m = HelloResponse r \<and> Hello_ApiVersionMajor r = 1 \<and> (en = '''' \<or> Hello_Name r = en)"
  by (auto simp: check_hello_def split: message.splits if_splits)

lemma hello_ok:
  assumes "hello F pb ci en c = (None, c')"
  shows "cl_apiMajor c' = 1 \<and> (en = '''' \<or> cl_name c' = en)"
  using assms
  by (auto simp: hello_def read_hello_def Let_def unless_err_eq_Inr check_hello_ok
      split: option.splits sum.splits prod.splits if_splits)

lemma check_hello_error: "check_hello en m = Inl e \<Longrightarrow> errors_is e ErrHello"
  by (cases m) (auto simp: check_hello_def split: if_splits)

lemma read_hello_error: "read_hello pb en frame = Inl e \<Longrightarrow> errors_is e ErrHello"
  by (auto simp: read_hello_def unless_err_eq_Inl check_hello_error split: if_splits)

lemma hello_error:
  assumes "hello F pb ci en c = (Some e, c')"
  shows "errors_is e ErrHello"
  using assms
  by (auto simp: hello_def Let_def read_hello_error split: option.splits sum.splits prod.splits)

lemma closed_after_Close:
  assumes "cl_framer c = Some f" "\<not> cl_done c"
  shows "cn_closed (wire_conn_of (the (cl_framer (Close (wire_ops lib) c))))"
  using assms by (auto simp: Close_def shutdown_def wire_ops_def split: wire_conn.splits)

lemma finish_dial_failure:
  assumes "finish_dial env pb cfg n f = Inl (err, c)"
  shows "cn_closed c"
proof -
  obtain e c' where h: "hello (wire_ops (de_noise env)) pb (cfg_clientInfo cfg) (cfg_expectedName cfg)
      (newClient f n) = (e, c')" by fastforce
  from hello_frame [OF h] obtain f' where "cl_framer c' = Some f'" "\<not> cl_done c'"
    by (auto simp: newClient_def)
  then show ?thesis
    using assms h closed_after_Close [of c' f']
    by (auto simp: finish_dial_def Let_def split: option.splits if_splits)
qed

lemma establish_failure: "establish_framer env cfg t conn = Inl (err, c) \<Longrightarrow> cn_closed c"
  by (auto simp: establish_framer_def close_conn_def split: if_splits option.splits sum.splits prod.splits)

lemma establish_transport:
  assumes "establish_framer env cfg t conn = Inr f"
  shows "if cfg_encryptionKey cfg = '''' then \<exists>x. f = PlainConn x else \<exists>x. f = NoiseConn x"
  using assms by (auto simp: establish_framer_def split: if_splits option.splits sum.splits prod.splits)


definition is_plain :: "'c wire_conn \<Rightarrow> bool" where
  "is_plain f = (case f of PlainConn _ \<Rightarrow> True | NoiseConn _ \<Rightarrow> False)"

lemma wire_ops_kind:
  "fr_WriteFrame (wire_ops lib) t p f = (e, f') \<Longrightarrow> is_plain f' = is_plain f"
  "fr_ReadFrame (wire_ops lib) f = (r, f') \<Longrightarrow> is_plain f' = is_plain f"
  by (auto simp: wire_ops_def is_plain_def split: wire_conn.splits prod.splits)

lemma send_kind:
  assumes "send (wire_ops lib) pb m c = (e, c')" "cl_framer c = Some f"
  shows "\<exists>f'. cl_framer c' = Some f' \<and> is_plain f' = is_plain f"
  using assms wire_ops_kind(1) by (fastforce simp: send_def split: if_splits sum.splits prod.splits option.splits)

lemma hello_kind:
  assumes "hello (wire_ops lib) pb ci en c = (None, c')" "cl_framer c = Some f"
  shows "\<exists>f'. cl_framer c' = Some f' \<and> is_plain f' = is_plain f"
proof -
  obtain c1 where s: "send (wire_ops lib) pb (HelloRequest (hello_request ci)) c = (None, c1)"
    using assms(1) by (auto simp: hello_def split: prod.splits option.splits)
  obtain f1 where f1: "cl_framer c1 = Some f1" "is_plain f1 = is_plain f"
    using send_kind [OF s assms(2)] by blast
  obtain frame f2 where r: "fr_ReadFrame (wire_ops lib) f1 = (frame, f2)" by fastforce
  have "cl_framer c' = Some f2"
    using assms(1) by (auto simp: hello_def s f1 r Let_def split: sum.splits)
  then show ?thesis using wire_ops_kind(2) [OF r] f1 by simp
qed

lemma finish_dial_ok:
  assumes "finish_dial env pb cfg n f = Inr c"
  shows "cl_connected c \<and> \<not> cl_done c \<and> cl_apiMajor c = 1 \<and>
    (cfg_expectedName cfg = '''' \<or> cl_name c = cfg_expectedName cfg) \<and>
    (\<exists>f'. cl_framer c = Some f' \<and> is_plain f' = is_plain f)"
proof -
  obtain c1 where h: "hello (wire_ops (de_noise env)) pb (cfg_clientInfo cfg) (cfg_expectedName cfg)
      (newClient f n) = (None, c1)" and c: "c = c1\<lparr>cl_connected := True\<rparr>"
    using assms by (auto simp: finish_dial_def Let_def split: prod.splits option.splits if_splits)
  show ?thesis
    using hello_ok [OF h] hello_frame [OF h] hello_kind [OF h, of f]
    by (auto simp: c newClient_def)
qed

text \<open>C17. A dial that succeeds used exactly the configured transport (Noise when a key was given,
  plaintext only on the explicit option) and completed a hello in which the peer spoke API major
  version 1 and, when a name is expected, gave that name.\<close>

theorem dialed_client_is_verified:
  assumes "DialWithContext env pb address timeout opts = Inr c"
  defines "cfg \<equiv> apply_options opts"
  shows "cl_connected c \<and> \<not> cl_done c \<and> cl_apiMajor c = 1 \<and>
    (cfg_expectedName cfg = '''' \<or> cl_name c = cfg_expectedName cfg) \<and>
    (\<exists>f. cl_framer c = Some f \<and>
      (if cfg_insecurePlaintext cfg then cfg_encryptionKey cfg = '''' \<and> is_plain f
       else cfg_encryptionKey cfg \<noteq> '''' \<and> \<not> is_plain f))"
proof -
  from assms(1) obtain conn f n where f: "establish_framer env cfg timeout conn = Inr f"
    and c: "finish_dial env pb cfg n f = Inr c" and ok: "config_error cfg = None"
    by (auto simp: DialWithContext_def Let_def cfg_def split: option.splits sum.splits if_splits)
  have "is_plain f = cfg_insecurePlaintext cfg \<and> (cfg_encryptionKey cfg = '''' \<longleftrightarrow> cfg_insecurePlaintext cfg)"
    using establish_transport [OF f] ok
    by (auto simp: config_error_def is_plain_def split: if_splits)
  then show ?thesis using finish_dial_ok [OF c] by auto
qed

text \<open>A device that answers hello as \<open>bulb\<close> on plaintext.\<close>

definition bulb_protobuf :: protobuf where
  "bulb_protobuf =
    \<lparr>pb_marshal = (\<lambda>m. Inr []),
     pb_unmarshal = (\<lambda>p m. Inr (HelloResponse (zero_HelloResponse\<lparr>
       Hello_ApiVersionMajor := 1, Hello_Name := ''bulb''\<rparr>))),
     pb_size = (\<lambda>m. 0)\<rparr>"

definition bulb_conn :: conn where
  "bulb_conn =
    \<lparr>cn_in = \<lparr>pending = 0 # put_uvarint 0 @ put_uvarint (ucast (2 :: u32)) @ [], failing = Err EOF\<rparr>,
     cn_out = \<lparr>sent = [], outcomes = []\<rparr>, cn_closed = False\<rparr>"

definition bulb_env :: "(nat, nat) dial_env" where
  "bulb_env =
    \<lparr>de_lookup = (\<lambda>_ _ _. Fail OtherIO), de_net_dial = (\<lambda>_ _. Fail OtherIO), de_print6 = (\<lambda>_. ''''),
     de_hasDeadline = False, de_remaining = 0, de_setDeadline = None, de_handshakeDeadline = None,
     de_restoreDeadline = None, de_clearDeadline = None, de_noise = counting_noise, de_cause = None,
     de_hookStopped = True\<rparr>"

definition bulb_options :: "dial_option option list" where
  "bulb_options = [Some WithInsecurePlaintext, None, Some (WithExpectedName ''bulb''),
    Some (WithDialContext (Some (\<lambda>_ _. Inr bulb_conn)))]"

lemma messageByID_of_idByName:
  "idByName api_registry n = Some i \<Longrightarrow> messageByID api_registry i = Some n"
  by (simp add: api_lookup)

lemma bulb_read:
  "plain_ReadFrame (NewPlainFramer n) (cn_in bulb_conn) = Inr ((2, []), \<lparr>pending = [], failing = Err EOF\<rparr>)"
proof -
  have "plain_encode (NewPlainFramer n) (2, []) =
      Inr (0 # put_uvarint 0 @ put_uvarint (ucast (2 :: u32)) @ [])"
    by (simp add: plain_encode_def)
  from plain_dec_enc [OF this, where s = "\<lparr>pending = [], failing = Err EOF\<rparr>" and rest = "[]"]
  show ?thesis by (simp add: bulb_conn_def)
qed

lemma dialed_client_is_verified_witness:
  "\<exists>c. DialWithContext bulb_env bulb_protobuf ''bulb:6053'' 0 bulb_options = Inr c \<and>
    cl_connected c \<and> cl_name c = ''bulb''"
proof -
  have cfg: "apply_options bulb_options =
      default_config\<lparr>cfg_insecurePlaintext := True, cfg_expectedName := ''bulb'',
        cfg_dialContext := Some (\<lambda>_ _. Inr bulb_conn)\<rparr>"
    by (simp add: apply_options_def bulb_options_def WithInsecurePlaintext_def WithExpectedName_def
        WithDialContext_def)
  have dec: "Decode bulb_protobuf api_registry 2 p =
      Inr (HelloResponse (zero_HelloResponse\<lparr>Hello_ApiVersionMajor := 1, Hello_Name := ''bulb''\<rparr>))" for p
    using messageByID_of_idByName [OF id_HelloResponse]
    by (simp add: Decode_def NewMessage_def bulb_protobuf_def)
  have marshal: "pb_marshal bulb_protobuf m = Inr []" for m by (simp add: bulb_protobuf_def)
  have w: "plain_write 1 [] (f, bulb_conn) =
      (None, f, bulb_conn\<lparr>cn_out := \<lparr>sent = 0 # put_uvarint 0 @ put_uvarint 1, outcomes = []\<rparr>\<rparr>)" for f
    by (simp add: plain_write_def bulb_conn_def plain_WriteFrame_encode plain_encode_def write_full_ok)
  have r: "plain_read (NewPlainFramer n, bulb_conn\<lparr>cn_out := x\<rparr>) =
      (Inr (2, []), NewPlainFramer n, bulb_conn\<lparr>cn_out := x, cn_in := \<lparr>pending = [], failing = Err EOF\<rparr>\<rparr>)"
    for n x using bulb_read [of n] by (simp add: plain_read_def) (simp add: bulb_conn_def)
  have "\<exists>c. DialWithContext bulb_env bulb_protobuf ''bulb:6053'' 0 bulb_options = Inr c"
    by (simp add: DialWithContext_def cfg config_error_def default_config_def bulb_env_def
        establish_framer_def finish_dial_def hello_def send_def newClient_def wire_ops_def w r
        MessageID_def read_hello_def dec check_hello_def Let_def marshal)
  then obtain c where c: "DialWithContext bulb_env bulb_protobuf ''bulb:6053'' 0 bulb_options = Inr c"
    by blast
  show ?thesis
    using dialed_client_is_verified [OF c] c by (simp add: cfg default_config_def)
qed

end
