(* ===== verification/Client_Loop.thy ===== *)
theory Client_Loop
  imports Client_State
begin

text \<open>
  The goroutines of an established \<open>Client\<close>: one round of \<open>readLoop\<close>, the steps of
  \<open>dispatchLoop\<close>, and the caller's listing and subscription operations.

  Where a \<open>select\<close> has several ready cases Go picks one at random; the choice is an argument. The
  order in which a map of callbacks is visited is an argument too.
\<close>

section \<open>Reading\<close>

text \<open>
  A round of \<open>readLoop\<close> is two steps, because other goroutines can run between them: a frame is read
  and decoded, and the message is handled. The loop is reading, has a message in hand, or has returned.
\<close>

datatype reader = Reading | Handling message | ReaderStopped

definition read_message :: "'f framer \<Rightarrow> protobuf \<Rightarrow> 'f client \<Rightarrow> reader \<times> 'f client" where
  "read_message F pb c =
    (case fr_ReadFrame F (the (cl_framer c)) of
      (frame, f) \<Rightarrow>
        (let c = c\<lparr>cl_framer := Some f\<rparr> in
         case frame of
           Inl err \<Rightarrow> (ReaderStopped, shutdown F (Some (Errorf ''read ESPHome frame: %w'' [err])) c)
         | Inr (mid, payload) \<Rightarrow>
             (case Decode pb api_registry mid payload of
               Inl err \<Rightarrow>
                 if errors_is err ErrUnknownMessage then (Reading, c)
                 else (ReaderStopped, shutdown F
                   (Some (Errorf ''decode ESPHome message ID %d: %w'' [err])) c)
             | Inr message \<Rightarrow> (Handling message, c))))"

text \<open>Handling: the first component tells whether the loop goes on.\<close>

definition enqueue :: "'f framer \<Rightarrow> bool \<Rightarrow> message \<Rightarrow> 'f client \<Rightarrow> bool \<times> 'f client" where
  "enqueue F pick_done message c =
    (let room = length (cl_events c) < cl_queueSize c in
     if cl_done c \<and> (pick_done \<or> \<not> room) then (False, c)
     else if room then (True, c\<lparr>cl_events := cl_events c @ [message]\<rparr>)
     else (False, shutdown F (Some (Err ErrEventQueueFull)) c))"

definition answer_ping :: "'f framer \<Rightarrow> protobuf \<Rightarrow> 'f client \<Rightarrow> bool \<times> 'f client" where
  "answer_ping F pb c =
    (case send F pb PingResponse c of
      (Some err, c) \<Rightarrow> (False, shutdown F (Some (Errorf ''answer ESPHome ping: %w'' [err])) c)
    | (None, c) \<Rightarrow> (True, c))"

definition answer_disconnect :: "'f framer \<Rightarrow> protobuf \<Rightarrow> 'f client \<Rightarrow> bool \<times> 'f client" where
  "answer_disconnect F pb c =
    (case send F pb DisconnectResponse c of
      (Some err, c) \<Rightarrow> (False, shutdown F (Some (Errorf ''answer ESPHome disconnect: %w'' [err])) c)
    | (None, c) \<Rightarrow> (False, shutdown F (Some (Err ErrPeerDisconnected)) c))"

definition handle_incoming ::
  "'f framer \<Rightarrow> protobuf \<Rightarrow> u64 list \<Rightarrow> bool \<Rightarrow> message \<Rightarrow> 'f client \<Rightarrow> bool \<times> 'f client" where
  "handle_incoming F pb order pick_done message c =
    (case message of
      PingRequest \<Rightarrow> answer_ping F pb c
    | DisconnectRequest _ \<Rightarrow> answer_disconnect F pb c
    | PingResponse \<Rightarrow> (True, deliverDirect order message c)
    | DeviceInfoResponse _ \<Rightarrow> (True, deliverDirect order message c)
    | _ \<Rightarrow> enqueue F pick_done message c)"

definition handle_step ::
  "'f framer \<Rightarrow> protobuf \<Rightarrow> u64 list \<Rightarrow> bool \<Rightarrow> message \<Rightarrow> 'f client \<Rightarrow> reader \<times> 'f client" where
  "handle_step F pb order pick_done message c =
    (case handle_incoming F pb order pick_done message c of
      (go, c) \<Rightarrow> (if go then Reading else ReaderStopped, c))"
text \<open>The goroutine that watches the connection's context.\<close>

definition context_ended :: "'f framer \<Rightarrow> goerror \<Rightarrow> 'f client \<Rightarrow> 'f client" where
  "context_ended F cause c =
    shutdown F (Some (Errorf ''ESPHome connection context ended: %w'' [cause])) c"

section \<open>Dispatching\<close>

text \<open>The dispatcher between two selects: waiting, calling the callbacks of a message, or returned.\<close>

datatype dispatch_pc = Idle | Calling message "handler list" | Stopped

text \<open>An event was received while the client was open: the registry, a pending listing, then the
  callbacks registered at this moment.\<close>

definition dispatch_event :: "u64 list \<Rightarrow> message \<Rightarrow> 'f client \<Rightarrow> dispatch_pc \<times> 'f client" where
  "dispatch_event order message c =
    (let c = handleList message (c\<lparr>cl_entities := handle message (cl_entities c)\<rparr>)
     in case MessageID api_registry (Some message) of
        Inl err \<Rightarrow> (Idle, c)
      | Inr mid \<Rightarrow> (Calling message (callbacks_for order mid c), c))"

definition stop_dispatch :: "'f client \<Rightarrow> dispatch_pc \<times> 'f client" where
  "stop_dispatch c = (Stopped, c\<lparr>cl_callbacksDone := True\<rparr>)"

text \<open>
  One step of \<open>dispatchLoop\<close>. When the client is closed the loop returns, before or after taking an
  event (\<open>take\<close>); \<open>None\<close> means the step blocks.
\<close>

definition dispatch_step ::
  "u64 list \<Rightarrow> bool \<Rightarrow> dispatch_pc \<Rightarrow> 'f client \<Rightarrow> (dispatch_pc \<times> 'f client) option" where
  "dispatch_step order take_event pc c =
    (case pc of
      Stopped \<Rightarrow> None
    | Calling m [] \<Rightarrow> Some (Idle, c)
    | Calling m (h # hs) \<Rightarrow>
        if cl_done c then Some (stop_dispatch c) else Some (Calling m hs, run_handler h m c)
    | Idle \<Rightarrow>
        (case cl_events c of
          [] \<Rightarrow> if cl_done c then Some (stop_dispatch c) else None
        | m # q \<Rightarrow>
            if cl_done c
            then Some (stop_dispatch (if take_event then c\<lparr>cl_events := q\<rparr> else c))
            else Some (dispatch_event order m (c\<lparr>cl_events := q\<rparr>))))"

section \<open>Listing entities\<close>

text \<open>
  \<open>ListEntitiesWithTimeout\<close> up to the wait: registering the pending listing and sending the
  request. The result is the error, or the address of the pending listing.
\<close>

definition forget_list :: "nat \<Rightarrow> 'f client \<Rightarrow> 'f client" where
  "forget_list a c = (if cl_list c = Some a then c\<lparr>cl_list := None\<rparr> else c)"

definition list_begin :: "'f framer \<Rightarrow> protobuf \<Rightarrow> 'f client \<Rightarrow> nat result \<times> 'f client" where
  "list_begin F pb c =
    (if cl_list c \<noteq> None then (Inl (Errorf ''entity listing already in progress'' []), c)
     else
       (let a = cl_nextList c;
            c = c\<lparr>cl_list := Some a, cl_nextList := a + 1,
              cl_lists := (cl_lists c)(a \<mapsto> \<lparr>lr_messages = [], lr_done = False\<rparr>)\<rparr>
        in case send F pb ListEntitiesRequest c of
           (Some err, c) \<Rightarrow> (Inl err, forget_list a c)
         | (None, c) \<Rightarrow> (Inr a, c)))"

text \<open>The select that ends the wait: the listing is complete, the timer fired, or the client closed.\<close>

datatype list_wait = ListDone | ListTimeout | ListClosed

definition list_end :: "nat \<Rightarrow> list_wait \<Rightarrow> 'f client \<Rightarrow> (message list result \<times> 'f client) option" where
  "list_end a w c =
    (case w of
      ListDone \<Rightarrow>
        (case cl_lists c a of
          Some l \<Rightarrow> if lr_done l then Some (Inr (lr_messages l), forget_list a c) else None
        | None \<Rightarrow> None)
    | ListTimeout \<Rightarrow> Some (Inl (Errorf ''entity listing timed out'' []), forget_list a c)
    | ListClosed \<Rightarrow> if cl_done c then Some (Fail ErrClientClosed, forget_list a c) else None)"

section \<open>Subscriptions\<close>

definition stateResponseIDs :: "u32 list" where
  "stateResponseIDs = [21, 22, 23, 24, 25, 26, 27, 44, 47, 50, 53, 56, 59, 64, 95, 98, 101, 104,
    108, 110, 113, 117, 126, 133]"

fun on_all :: "u32 list \<Rightarrow> handler \<Rightarrow> 'f client \<Rightarrow> (u32 \<times> u64) list \<times> 'f client" where
  "on_all [] h c = ([], c)"
| "on_all (i # is) h c =
    (case on i h c of (t, c) \<Rightarrow> (case on_all is h c of (rs, c) \<Rightarrow> ((i, t) # rs, c)))"

text \<open>The unsubscribe function: each registration is removed.\<close>

definition unsubscribe :: "(u32 \<times> u64) list \<Rightarrow> 'f client \<Rightarrow> 'f client" where
  "unsubscribe removes c = fold (\<lambda>(i, t). remove_handler i t) removes c"

definition SubscribeStates ::
  "'f framer \<Rightarrow> protobuf \<Rightarrow> nat option \<Rightarrow> 'f client \<Rightarrow> (u32 \<times> u64) list result \<times> 'f client" where
  "SubscribeStates F pb handler c =
    (case (case handler of None \<Rightarrow> ([], c) | Some u \<Rightarrow> on_all stateResponseIDs (StateHandler u) c) of
      (removes, c) \<Rightarrow>
        (case send F pb SubscribeStatesRequest c of
          (Some err, c) \<Rightarrow> (Inl err, unsubscribe removes c)
        | (None, c) \<Rightarrow> (Inr removes, c)))"

definition SubscribeLogs ::
  "'f framer \<Rightarrow> protobuf \<Rightarrow> i32 \<Rightarrow> nat option \<Rightarrow> 'f client \<Rightarrow> (u32 \<times> u64) list result \<times> 'f client" where
  "SubscribeLogs F pb level handler c =
    (case on 29 (LogHandler handler) c of
      (token, c) \<Rightarrow>
        (case send F pb (SubscribeLogsRequest (zero_SubscribeLogsRequest\<lparr>LogsReq_Level := level\<rparr>)) c of
          (Some err, c) \<Rightarrow> (Inl err, remove_handler 29 token c)
        | (None, c) \<Rightarrow> (Inr [(29, token)], c)))"

section \<open>Waiting for callbacks\<close>

text \<open>\<open>WaitCallbacks\<close> with what its select finds: \<open>None\<close> blocks.\<close>

definition WaitCallbacks :: "goerror option option \<Rightarrow> 'f client \<Rightarrow> goerror option option" where
  "WaitCallbacks ctx c =
    (case ctx of
      None \<Rightarrow> Some (Some (Errorf ''wait for ESPHome callbacks: nil context'' []))
    | Some ended \<Rightarrow>
        if cl_callbacksDone c then Some None
        else (case ended of
            Some cause \<Rightarrow> Some (Some (Errorf ''wait for ESPHome callbacks: %w'' [cause]))
          | None \<Rightarrow> None))"

end
