(* ===== verification/Client_Exchange.thy ===== *)
theory Client_Exchange
  imports Client_Loop
begin

text \<open>
  \<open>Ping\<close>, \<open>DeviceInfo\<close> and the keepalive probe of \<open>client.go\<close>. \<open>probe\<close> and
  \<open>DeviceInfo\<close> run the same protocol on their own gate, message id and error category, so both are
  an \<open>exchange\<close> of a kind.

  An exchange is a small state machine beside the client: it waits for its gate, registers its
  completion hook, sends its request and waits for the response, its context or the end of the client.
  Its watchdog is a goroutine of its own that first takes the verdict and then shuts the client down, in
  two steps (\<open>ex_closing\<close> is the shutdown that is still to come).
\<close>

section \<open>State\<close>

datatype exchange_kind = Probe sentinel | DeviceInfoExchange

datatype exchange_phase =
    Waiting
  | Sending
  | Receiving
  | Holding "message result"
  | Returned "message result"

record exchange =
  ex_kind :: exchange_kind
  ex_phase :: exchange_phase
  ex_cause :: "goerror option"
  ex_token :: u64
  ex_verdict :: nat
  ex_fired :: bool
  ex_closing :: "goerror option"
  ex_sent :: bool

definition new_exchange :: "exchange_kind \<Rightarrow> exchange" where
  "new_exchange kind =
    \<lparr>ex_kind = kind, ex_phase = Waiting, ex_cause = None, ex_token = 0, ex_verdict = 0,
      ex_fired = False, ex_closing = None, ex_sent = False\<rparr>"

definition verdictCompleted :: nat where "verdictCompleted = 1"
definition verdictExpired :: nat where "verdictExpired = 2"

lemmas verdict_defs = verdictCompleted_def verdictExpired_def

definition category :: "exchange_kind \<Rightarrow> sentinel" where
  "category kind = (case kind of Probe s \<Rightarrow> s | DeviceInfoExchange \<Rightarrow> ErrDeviceInfo)"

definition response_id :: "exchange_kind \<Rightarrow> u32" where
  "response_id kind = (case kind of Probe _ \<Rightarrow> 8 | DeviceInfoExchange \<Rightarrow> 10)"

definition request_of :: "exchange_kind \<Rightarrow> message" where
  "request_of kind = (case kind of Probe _ \<Rightarrow> PingRequest | DeviceInfoExchange \<Rightarrow> DeviceInfoRequest)"

definition hook :: "exchange_kind \<Rightarrow> nat \<Rightarrow> handler" where
  "hook kind n = (case kind of Probe _ \<Rightarrow> PingHook n | DeviceInfoExchange \<Rightarrow> InfoHook n)"

definition gate :: "exchange_kind \<Rightarrow> 'f client \<Rightarrow> bool" where
  "gate kind c = (case kind of Probe _ \<Rightarrow> cl_pingGate c | DeviceInfoExchange \<Rightarrow> cl_deviceInfoGate c)"

definition set_gate :: "exchange_kind \<Rightarrow> bool \<Rightarrow> 'f client \<Rightarrow> 'f client" where
  "set_gate kind b c =
    (case kind of
      Probe _ \<Rightarrow> c\<lparr>cl_pingGate := b\<rparr>
    | DeviceInfoExchange \<Rightarrow> c\<lparr>cl_deviceInfoGate := b\<rparr>)"

section \<open>Errors\<close>

definition not_started :: "exchange_kind \<Rightarrow> goerror \<Rightarrow> goerror" where
  "not_started kind cause =
    (case kind of
      Probe s \<Rightarrow> Errorf ''%w: %w: %w'' [Err s, Err ErrProbeNotStarted, cause]
    | DeviceInfoExchange \<Rightarrow> Errorf ''%w: wait to start: %w'' [Err ErrDeviceInfo, cause])"

definition no_response :: "exchange_kind \<Rightarrow> goerror \<Rightarrow> goerror" where
  "no_response kind cause = Errorf ''%w: wait for response: %w'' [Err (category kind), cause]"

definition send_failed :: "exchange_kind \<Rightarrow> goerror \<Rightarrow> goerror option \<Rightarrow> goerror" where
  "send_failed kind err cause =
    (case cause of
      Some c \<Rightarrow> Errorf ''%w: send request: %w: %w'' [Err (category kind), err, c]
    | None \<Rightarrow> Errorf ''%w: send request: %w'' [Err (category kind), err])"

definition nil_context :: "exchange_kind \<Rightarrow> goerror" where
  "nil_context kind = Errorf ''%w: nil context'' [Err (category kind)]"

section \<open>Steps\<close>

text \<open>Before the gate: an ended context or client, found by the first checks or while waiting.\<close>

definition ex_refuse_context :: "exchange \<Rightarrow> exchange option" where
  "ex_refuse_context e =
    (case (ex_phase e, ex_cause e) of
      (Waiting, Some cause) \<Rightarrow> Some (e\<lparr>ex_phase := Returned (Inl (not_started (ex_kind e) cause))\<rparr>)
    | _ \<Rightarrow> None)"

definition ex_refuse_closed :: "'f client \<Rightarrow> exchange \<Rightarrow> exchange option" where
  "ex_refuse_closed c e =
    (if ex_phase e = Waiting \<and> cl_done c
     then Some (e\<lparr>ex_phase := Returned (Inl (closedError (category (ex_kind e)) c))\<rparr>)
     else None)"

text \<open>Taking the gate, registering the hook on a fresh channel and arming the watchdog, which fires at
  once if the context ended in between.\<close>

definition ex_acquire :: "nat \<Rightarrow> 'f client \<Rightarrow> exchange \<Rightarrow> ('f client \<times> exchange) option" where
  "ex_acquire n c e =
    (if ex_phase e = Waiting \<and> gate (ex_kind e) c
     then (case on (response_id (ex_kind e)) (hook (ex_kind e) n)
          (set_gate (ex_kind e) False (c\<lparr>cl_channels := (cl_channels c)(n := None)\<rparr>)) of
        (token, c) \<Rightarrow>
          Some (c, e\<lparr>ex_phase := Sending, ex_token := token, ex_fired := (ex_cause e \<noteq> None)\<rparr>))
     else None)"

text \<open>The context ends; an armed watchdog starts to run.\<close>

definition ex_context_ends :: "goerror \<Rightarrow> exchange \<Rightarrow> exchange" where
  "ex_context_ends cause e =
    (if ex_cause e \<noteq> None then e
     else e\<lparr>ex_cause := Some cause,
       ex_fired := (ex_fired e \<or>
         (case ex_phase e of Sending \<Rightarrow> True | Receiving \<Rightarrow> True | Holding r \<Rightarrow> True | _ \<Rightarrow> False))\<rparr>)"

definition ex_watchdog :: "exchange \<Rightarrow> exchange option" where
  "ex_watchdog e =
    (if ex_fired e \<and> ex_verdict e = 0
     then Some (e\<lparr>ex_verdict := verdictExpired,
       ex_closing := Some (no_response (ex_kind e) (the (ex_cause e)))\<rparr>)
     else None)"

definition ex_watchdog_close :: "'f framer \<Rightarrow> 'f client \<Rightarrow> exchange \<Rightarrow> ('f client \<times> exchange) option" where
  "ex_watchdog_close F c e =
    (case ex_closing e of
      None \<Rightarrow> None
    | Some reason \<Rightarrow> Some (shutdown F (Some reason) c, e\<lparr>ex_closing := None\<rparr>))"

definition ex_send ::
  "'f framer \<Rightarrow> protobuf \<Rightarrow> 'f client \<Rightarrow> exchange \<Rightarrow> ('f client \<times> exchange) option" where
  "ex_send F pb c e =
    (if ex_phase e = Sending
     then (case send F pb (request_of (ex_kind e)) c of
        (Some err, c) \<Rightarrow>
          Some (c, e\<lparr>ex_phase := Holding (Inl (send_failed (ex_kind e) err (ex_cause e)))\<rparr>)
      | (None, c) \<Rightarrow> Some (c, e\<lparr>ex_phase := Receiving, ex_sent := True\<rparr>))
     else None)"

definition ex_receive :: "nat \<Rightarrow> 'f client \<Rightarrow> exchange \<Rightarrow> exchange option" where
  "ex_receive n c e =
    (case (ex_phase e, cl_channels c n) of
      (Receiving, Some m) \<Rightarrow>
        Some (if ex_verdict e = 0
          then e\<lparr>ex_verdict := verdictCompleted, ex_phase := Holding (Inr m)\<rparr>
          else e\<lparr>ex_phase := Holding (Inl (no_response (ex_kind e) (the (ex_cause e))))\<rparr>)
    | _ \<Rightarrow> None)"

definition ex_expire :: "'f framer \<Rightarrow> 'f client \<Rightarrow> exchange \<Rightarrow> ('f client \<times> exchange) option" where
  "ex_expire F c e =
    (case (ex_phase e, ex_cause e) of
      (Receiving, Some cause) \<Rightarrow>
        (let reason = no_response (ex_kind e) cause;
             e' = e\<lparr>ex_phase := Holding (Inl reason)\<rparr>
         in if ex_verdict e = 0
            then Some (shutdown F (Some reason) c, e'\<lparr>ex_verdict := verdictExpired\<rparr>)
            else Some (c, e'))
    | _ \<Rightarrow> None)"

definition ex_closed :: "'f client \<Rightarrow> exchange \<Rightarrow> exchange option" where
  "ex_closed c e =
    (if ex_phase e = Receiving \<and> cl_done c
     then Some (e\<lparr>ex_phase := Holding (Inl (closedError (category (ex_kind e)) c))\<rparr>)
     else None)"

text \<open>The deferred calls: the watchdog is disarmed, the hook is removed, then the gate is given back. A
  watchdog that already fired still runs.\<close>

definition ex_return :: "'f client \<Rightarrow> exchange \<Rightarrow> ('f client \<times> exchange) option" where
  "ex_return c e =
    (case ex_phase e of
      Holding r \<Rightarrow>
        Some (set_gate (ex_kind e) True (remove_handler (response_id (ex_kind e)) (ex_token e) c),
          e\<lparr>ex_phase := Returned r\<rparr>)
    | _ \<Rightarrow> None)"

section \<open>Keepalive\<close>

text \<open>What \<open>keepaliveLoop\<close> does with the result of a probe: whether it goes on, and the client.\<close>

definition keepalive_round :: "'f framer \<Rightarrow> goerror option \<Rightarrow> 'f client \<Rightarrow> bool \<times> 'f client" where
  "keepalive_round F result c =
    (case result of
      None \<Rightarrow> (True, c)
    | Some err \<Rightarrow>
        if errors_is err ErrProbeNotStarted then (True, c)
        else (False, shutdown F (Some err) c))"

end
