(* ===== verification/Client_Session.thy ===== *)
theory Client_Session
  imports Client_Exchange
begin

text \<open>
  An established connection as a whole: the client together with everything that runs beside it, and
  every step one of these goroutines or a caller can take. The goroutines are the reader, the
  dispatcher, the keepalive loop, the context watcher, any number of callers in \<open>Ping\<close>,
  \<open>DeviceInfo\<close>, \<open>ListEntities\<close>, \<open>SubscribeStates\<close>, \<open>SubscribeLogs\<close>, the command
  methods and \<open>Close\<close>, and the watchdogs of their exchanges.

  \<open>session_step\<close> is one atomic step; a schedule is a list of actions, so every interleaving of these
  steps is a run. A check of \<open>done\<close> and the action it guards are one step, and so is a call of \<open>send\<close>.

  Three fields observe the connection and are read by no step: the messages accepted into the event
  queue, the messages the dispatcher handled, and how many it had handled when a listing began.
\<close>

datatype keeper = KeepOff | KeepSleeping | KeepProbing nat | KeepStopped

record 'f session =
  se_client :: "'f client"
  se_reader :: reader
  se_pc :: dispatch_pc
  se_exchanges :: "exchange list"
  se_keeper :: keeper
  se_subscriptions :: "(u32 \<times> u64) list list"
  se_listings :: "nat list"
  se_accepted :: "message list"
  se_handled :: "message list"
  se_listStart :: "nat \<Rightarrow> nat"

text \<open>The client \<open>DialWithContext\<close> returns, with its goroutines started.\<close>

definition start_session :: "bool \<Rightarrow> 'f client \<Rightarrow> 'f session" where
  "start_session keepalive c =
    \<lparr>se_client = c, se_reader = Reading, se_pc = Idle, se_exchanges = [],
      se_keeper = (if keepalive then KeepSleeping else KeepOff), se_subscriptions = [],
      se_listings = [], se_accepted = [], se_handled = [], se_listStart = (\<lambda>_. 0)\<rparr>"

datatype action =
    DoRead
  | DoHandle "u64 list" bool
  | DoDispatch "u64 list" bool
  | DoContextEnded goerror
  | DoClose
  | DoSend message
  | DoSubscribeStates "nat option"
  | DoSubscribeLogs i32 "nat option"
  | DoUnsubscribe nat
  | DoListBegin
  | DoListEnd nat list_wait
  | DoPing
  | DoDeviceInfo
  | DoKeepaliveTick
  | DoKeepaliveResult
  | DoKeepaliveClosed
  | DoRefuseContext nat
  | DoRefuseClosed nat
  | DoAcquire nat
  | DoExchangeContext nat goerror
  | DoWatchdog nat
  | DoWatchdogClose nat
  | DoExchangeSend nat
  | DoReceive nat
  | DoExpire nat
  | DoExchangeClosed nat
  | DoReturn nat

section \<open>Steps of the goroutines\<close>

text \<open>The callbacks of a message are visited in some order of their tokens.\<close>

definition visits_handlers :: "u64 list \<Rightarrow> message \<Rightarrow> 'f client \<Rightarrow> bool" where
  "visits_handlers order m c =
    (case MessageID api_registry (Some m) of
      Inl _ \<Rightarrow> True
    | Inr mid \<Rightarrow> visits order (cl_handlers c mid))"

definition reader_step :: "'f framer \<Rightarrow> protobuf \<Rightarrow> 'f session \<Rightarrow> 'f session option" where
  "reader_step F pb s =
    (case se_reader s of
      Reading \<Rightarrow> (case read_message F pb (se_client s) of
        (r, c) \<Rightarrow> Some (s\<lparr>se_client := c, se_reader := r\<rparr>))
    | _ \<Rightarrow> None)"

definition handler_step ::
  "'f framer \<Rightarrow> protobuf \<Rightarrow> u64 list \<Rightarrow> bool \<Rightarrow> 'f session \<Rightarrow> 'f session option" where
  "handler_step F pb order pick_done s =
    (case se_reader s of
      Handling m \<Rightarrow>
        if visits_handlers order m (se_client s)
        then (case handle_step F pb order pick_done m (se_client s) of
          (r, c) \<Rightarrow> Some (s\<lparr>se_client := c, se_reader := r,
            se_accepted := (if length (cl_events (se_client s)) < length (cl_events c)
              then se_accepted s @ [m] else se_accepted s)\<rparr>))
        else None
    | _ \<Rightarrow> None)"

definition dispatcher_step :: "u64 list \<Rightarrow> bool \<Rightarrow> 'f session \<Rightarrow> 'f session option" where
  "dispatcher_step order take_event s =
    (let handles = (se_pc s = Idle \<and> cl_events (se_client s) \<noteq> [] \<and> \<not> cl_done (se_client s)) in
     if handles \<and> \<not> visits_handlers order (hd (cl_events (se_client s))) (se_client s) then None
     else (case dispatch_step order take_event (se_pc s) (se_client s) of
         None \<Rightarrow> None
       | Some (pc, c) \<Rightarrow> Some (s\<lparr>se_client := c, se_pc := pc,
           se_handled := (if handles then se_handled s @ [hd (cl_events (se_client s))]
             else se_handled s)\<rparr>)))"

section \<open>Steps of callers\<close>

definition subscribed ::
  "'f session \<Rightarrow> (u32 \<times> u64) list result \<times> 'f client \<Rightarrow> 'f session" where
  "subscribed s outcome =
    (case outcome of
      (Inl err, c) \<Rightarrow> s\<lparr>se_client := c\<rparr>
    | (Inr removes, c) \<Rightarrow>
        s\<lparr>se_client := c, se_subscriptions := se_subscriptions s @ [removes]\<rparr>)"

definition unsubscribe_step :: "nat \<Rightarrow> 'f session \<Rightarrow> 'f session option" where
  "unsubscribe_step i s =
    (if i < length (se_subscriptions s)
     then Some (s\<lparr>se_client := unsubscribe (se_subscriptions s ! i) (se_client s)\<rparr>)
     else None)"

definition list_begin_step :: "'f framer \<Rightarrow> protobuf \<Rightarrow> 'f session \<Rightarrow> 'f session option" where
  "list_begin_step F pb s =
    (case list_begin F pb (se_client s) of
      (Inl err, c) \<Rightarrow> Some (s\<lparr>se_client := c,
        se_listStart := (se_listStart s)(cl_nextList (se_client s) := length (se_handled s))\<rparr>)
    | (Inr a, c) \<Rightarrow> Some (s\<lparr>se_client := c, se_listings := se_listings s @ [a],
        se_listStart := (se_listStart s)(a := length (se_handled s))\<rparr>))"

definition list_end_step :: "nat \<Rightarrow> list_wait \<Rightarrow> 'f session \<Rightarrow> 'f session option" where
  "list_end_step a w s =
    (if a \<in> set (se_listings s)
     then (case list_end a w (se_client s) of
         None \<Rightarrow> None
       | Some (r, c) \<Rightarrow> Some (s\<lparr>se_client := c, se_listings := removeAll a (se_listings s)\<rparr>))
     else None)"

section \<open>Steps of exchanges\<close>

definition begin_exchange :: "exchange_kind \<Rightarrow> 'f session \<Rightarrow> 'f session" where
  "begin_exchange kind s = s\<lparr>se_exchanges := se_exchanges s @ [new_exchange kind]\<rparr>"

definition on_exchange ::
  "nat \<Rightarrow> ('f client \<Rightarrow> exchange \<Rightarrow> ('f client \<times> exchange) option) \<Rightarrow> 'f session \<Rightarrow> 'f session option"
where
  "on_exchange n f s =
    (if n < length (se_exchanges s)
     then (case f (se_client s) (se_exchanges s ! n) of
         None \<Rightarrow> None
       | Some (c, e) \<Rightarrow> Some (s\<lparr>se_client := c, se_exchanges := (se_exchanges s)[n := e]\<rparr>))
     else None)"

text \<open>A step of an exchange that leaves the client alone.\<close>

definition keeps_client ::
  "('f client \<Rightarrow> exchange \<Rightarrow> exchange option) \<Rightarrow> 'f client \<Rightarrow> exchange \<Rightarrow> ('f client \<times> exchange) option"
where
  "keeps_client f c e = map_option (Pair c) (f c e)"

section \<open>The keepalive loop\<close>

definition keepalive_tick :: "'f session \<Rightarrow> 'f session option" where
  "keepalive_tick s =
    (if se_keeper s = KeepSleeping
     then Some ((begin_exchange (Probe ErrKeepalive) s)\<lparr>se_keeper := KeepProbing (length (se_exchanges s))\<rparr>)
     else None)"

definition keepalive_result :: "'f framer \<Rightarrow> 'f session \<Rightarrow> 'f session option" where
  "keepalive_result F s =
    (case se_keeper s of
      KeepProbing n \<Rightarrow>
        (case ex_phase (se_exchanges s ! n) of
          Returned r \<Rightarrow>
            (case keepalive_round F (case r of Inl err \<Rightarrow> Some err | Inr _ \<Rightarrow> None) (se_client s) of
              (go, c) \<Rightarrow> Some (s\<lparr>se_client := c, se_keeper := (if go then KeepSleeping else KeepStopped)\<rparr>))
        | _ \<Rightarrow> None)
    | _ \<Rightarrow> None)"

definition keepalive_closed :: "'f session \<Rightarrow> 'f session option" where
  "keepalive_closed s =
    (if se_keeper s = KeepSleeping \<and> cl_done (se_client s)
     then Some (s\<lparr>se_keeper := KeepStopped\<rparr>) else None)"

section \<open>Runs\<close>

definition session_step :: "'f framer \<Rightarrow> protobuf \<Rightarrow> action \<Rightarrow> 'f session \<Rightarrow> 'f session option" where
  "session_step F pb a s =
    (case a of
      DoRead \<Rightarrow> reader_step F pb s
    | DoHandle order pick_done \<Rightarrow> handler_step F pb order pick_done s
    | DoDispatch order take_event \<Rightarrow> dispatcher_step order take_event s
    | DoContextEnded cause \<Rightarrow> Some (s\<lparr>se_client := context_ended F cause (se_client s)\<rparr>)
    | DoClose \<Rightarrow> Some (s\<lparr>se_client := Close F (se_client s)\<rparr>)
    | DoSend m \<Rightarrow> Some (s\<lparr>se_client := snd (send F pb m (se_client s))\<rparr>)
    | DoSubscribeStates h \<Rightarrow> Some (subscribed s (SubscribeStates F pb h (se_client s)))
    | DoSubscribeLogs l h \<Rightarrow> Some (subscribed s (SubscribeLogs F pb l h (se_client s)))
    | DoUnsubscribe i \<Rightarrow> unsubscribe_step i s
    | DoListBegin \<Rightarrow> list_begin_step F pb s
    | DoListEnd n w \<Rightarrow> list_end_step n w s
    | DoPing \<Rightarrow> Some (begin_exchange (Probe ErrPing) s)
    | DoDeviceInfo \<Rightarrow> Some (begin_exchange DeviceInfoExchange s)
    | DoKeepaliveTick \<Rightarrow> keepalive_tick s
    | DoKeepaliveResult \<Rightarrow> keepalive_result F s
    | DoKeepaliveClosed \<Rightarrow> keepalive_closed s
    | DoRefuseContext n \<Rightarrow> on_exchange n (keeps_client (\<lambda>_. ex_refuse_context)) s
    | DoRefuseClosed n \<Rightarrow> on_exchange n (keeps_client ex_refuse_closed) s
    | DoAcquire n \<Rightarrow> on_exchange n (ex_acquire n) s
    | DoExchangeContext n cause \<Rightarrow>
        on_exchange n (keeps_client (\<lambda>_ e. Some (ex_context_ends cause e))) s
    | DoWatchdog n \<Rightarrow> on_exchange n (keeps_client (\<lambda>_. ex_watchdog)) s
    | DoWatchdogClose n \<Rightarrow> on_exchange n (ex_watchdog_close F) s
    | DoExchangeSend n \<Rightarrow> on_exchange n (ex_send F pb) s
    | DoReceive n \<Rightarrow> on_exchange n (keeps_client (ex_receive n)) s
    | DoExpire n \<Rightarrow> on_exchange n (ex_expire F) s
    | DoExchangeClosed n \<Rightarrow> on_exchange n (keeps_client ex_closed) s
    | DoReturn n \<Rightarrow> on_exchange n ex_return s)"

fun session_run :: "'f framer \<Rightarrow> protobuf \<Rightarrow> action list \<Rightarrow> 'f session \<Rightarrow> 'f session option" where
  "session_run F pb [] s = Some s"
| "session_run F pb (a # as) s =
    (case session_step F pb a s of None \<Rightarrow> None | Some s \<Rightarrow> session_run F pb as s)"

text \<open>
  The states a connection can be in. It starts from a freshly dialed client: \<open>newClient\<close> after
  \<open>hello\<close>, marked as connected.
\<close>

definition dialed_client :: "'f client \<Rightarrow> bool" where
  "dialed_client c \<longleftrightarrow>
    (\<exists>f q a b i n. 0 < q \<and> c = (newClient f q)\<lparr>cl_connected := True, cl_apiMajor := a, cl_apiMinor := b,
      cl_serverInfo := i, cl_name := n\<rparr>)"

inductive reachable :: "'f framer \<Rightarrow> protobuf \<Rightarrow> 'f session \<Rightarrow> bool" for F pb where
  reachable_start: "dialed_client c \<Longrightarrow> reachable F pb (start_session keepalive c)"
| reachable_step: "reachable F pb s \<Longrightarrow> session_step F pb a s = Some s' \<Longrightarrow> reachable F pb s'"

lemma reachable_run: "reachable F pb s \<Longrightarrow> session_run F pb as s = Some s' \<Longrightarrow> reachable F pb s'"
  by (induction "as" arbitrary: s) (auto split: option.splits intro: reachable_step)

end
