(* ===== verification/Client_Frame.thy ===== *)
theory Client_Frame
  imports Client_Session
begin

text \<open>
  What the operations of a client leave alone: for each operation, the fields it does not write. With
  these as simplification rules an invariant proof only looks at the operations that matter to it.
\<close>

lemma send_update: "\<exists>f. snd (send F pb m c) = c\<lparr>cl_framer := f\<rparr>"
  unfolding send_def by (auto split: option.splits sum.splits prod.splits intro: exI[of _ "cl_framer c"])

lemma send_frame [simp]:
  "cl_entities (snd (send F pb m c)) = cl_entities c"
  "cl_events (snd (send F pb m c)) = cl_events c"
  "cl_queueSize (snd (send F pb m c)) = cl_queueSize c"
  "cl_done (snd (send F pb m c)) = cl_done c"
  "cl_connected (snd (send F pb m c)) = cl_connected c"
  "cl_closeReason (snd (send F pb m c)) = cl_closeReason c"
  "cl_handlers (snd (send F pb m c)) = cl_handlers c"
  "cl_nextHandler (snd (send F pb m c)) = cl_nextHandler c"
  "cl_list (snd (send F pb m c)) = cl_list c"
  "cl_lists (snd (send F pb m c)) = cl_lists c"
  "cl_nextList (snd (send F pb m c)) = cl_nextList c"
  "cl_pingGate (snd (send F pb m c)) = cl_pingGate c"
  "cl_deviceInfoGate (snd (send F pb m c)) = cl_deviceInfoGate c"
  "cl_channels (snd (send F pb m c)) = cl_channels c"
  "cl_calls (snd (send F pb m c)) = cl_calls c"
  "cl_callbacksDone (snd (send F pb m c)) = cl_callbacksDone c"
  using send_update[of F pb m c] by force+

lemma shutdown_frame [simp]:
  "cl_entities (shutdown F r c) = cl_entities c"
  "cl_events (shutdown F r c) = cl_events c"
  "cl_queueSize (shutdown F r c) = cl_queueSize c"
  "cl_handlers (shutdown F r c) = cl_handlers c"
  "cl_nextHandler (shutdown F r c) = cl_nextHandler c"
  "cl_list (shutdown F r c) = cl_list c"
  "cl_lists (shutdown F r c) = cl_lists c"
  "cl_nextList (shutdown F r c) = cl_nextList c"
  "cl_pingGate (shutdown F r c) = cl_pingGate c"
  "cl_deviceInfoGate (shutdown F r c) = cl_deviceInfoGate c"
  "cl_channels (shutdown F r c) = cl_channels c"
  "cl_calls (shutdown F r c) = cl_calls c"
  "cl_callbacksDone (shutdown F r c) = cl_callbacksDone c"
  by (simp_all add: shutdown_def)

lemma done_shutdown [simp]: "cl_done (shutdown F r c)"
  by (simp add: shutdown_def)

lemma shutdown_closed [simp]: "cl_done c \<Longrightarrow> shutdown F r c = c"
  by (simp add: shutdown_def)

lemma on_frame [simp]:
  "cl_entities (snd (on i h c)) = cl_entities c"
  "cl_events (snd (on i h c)) = cl_events c"
  "cl_queueSize (snd (on i h c)) = cl_queueSize c"
  "cl_done (snd (on i h c)) = cl_done c"
  "cl_connected (snd (on i h c)) = cl_connected c"
  "cl_closeReason (snd (on i h c)) = cl_closeReason c"
  "cl_list (snd (on i h c)) = cl_list c"
  "cl_lists (snd (on i h c)) = cl_lists c"
  "cl_nextList (snd (on i h c)) = cl_nextList c"
  "cl_pingGate (snd (on i h c)) = cl_pingGate c"
  "cl_deviceInfoGate (snd (on i h c)) = cl_deviceInfoGate c"
  "cl_channels (snd (on i h c)) = cl_channels c"
  "cl_calls (snd (on i h c)) = cl_calls c"
  "cl_callbacksDone (snd (on i h c)) = cl_callbacksDone c"
  by (simp_all add: on_def Let_def)

lemma remove_handler_frame [simp]:
  "cl_entities (remove_handler i t c) = cl_entities c"
  "cl_events (remove_handler i t c) = cl_events c"
  "cl_queueSize (remove_handler i t c) = cl_queueSize c"
  "cl_done (remove_handler i t c) = cl_done c"
  "cl_connected (remove_handler i t c) = cl_connected c"
  "cl_closeReason (remove_handler i t c) = cl_closeReason c"
  "cl_nextHandler (remove_handler i t c) = cl_nextHandler c"
  "cl_list (remove_handler i t c) = cl_list c"
  "cl_lists (remove_handler i t c) = cl_lists c"
  "cl_nextList (remove_handler i t c) = cl_nextList c"
  "cl_pingGate (remove_handler i t c) = cl_pingGate c"
  "cl_deviceInfoGate (remove_handler i t c) = cl_deviceInfoGate c"
  "cl_channels (remove_handler i t c) = cl_channels c"
  "cl_calls (remove_handler i t c) = cl_calls c"
  "cl_callbacksDone (remove_handler i t c) = cl_callbacksDone c"
  by (simp_all add: remove_handler_def)

lemma run_handler_alt:
  "run_handler h m c =
    (case h of
      StateHandler u \<Rightarrow> c\<lparr>cl_calls := cl_calls c @ [(u, m)]\<rparr>
    | LogHandler u \<Rightarrow>
        if (\<exists>l. m = SubscribeLogsResponse l) \<and> u \<noteq> None
        then c\<lparr>cl_calls := cl_calls c @ [(the u, m)]\<rparr> else c
    | PingHook n \<Rightarrow> if m = PingResponse then offer n m c else c
    | InfoHook n \<Rightarrow> if (\<exists>i. m = DeviceInfoResponse i) then offer n m c else c)"
proof (cases h)
  case (LogHandler u)
  then show ?thesis
    unfolding run_handler_def by (cases m; cases u) simp_all
next
  case (PingHook n)
  then show ?thesis
    unfolding run_handler_def by (cases m) simp_all
next
  case (InfoHook n)
  then show ?thesis
    unfolding run_handler_def by (cases m) simp_all
qed (simp add: run_handler_def)

lemma run_handler_update: "\<exists>ch ca. run_handler h m c = c\<lparr>cl_channels := ch, cl_calls := ca\<rparr>"
proof -
  have "\<exists>ch ca. c = c\<lparr>cl_channels := ch, cl_calls := ca\<rparr>"
    by (intro exI[of _ "cl_channels c"] exI[of _ "cl_calls c"]) simp
  moreover have "\<exists>ch ca. c\<lparr>cl_calls := x\<rparr> = c\<lparr>cl_channels := ch, cl_calls := ca\<rparr>" for x
    by (intro exI[of _ "cl_channels c"] exI[of _ x]) simp
  moreover have "\<exists>ch ca. c\<lparr>cl_channels := x\<rparr> = c\<lparr>cl_channels := ch, cl_calls := ca\<rparr>" for x
    by (intro exI[of _ "cl_calls c"] exI[of _ x]) simp
  ultimately show ?thesis
    unfolding run_handler_alt offer_def by (cases h) (simp_all only: handler.case split: if_split, blast+)
qed

lemma run_handlers_update: "\<exists>ch ca. fold (\<lambda>h. run_handler h m) hs c = c\<lparr>cl_channels := ch, cl_calls := ca\<rparr>"
proof (induction hs arbitrary: c)
  case Nil
  have "c = c\<lparr>cl_channels := cl_channels c, cl_calls := cl_calls c\<rparr>"
    by simp
  then show ?case
    unfolding fold.simps id_apply by blast
next
  case (Cons h hs)
  obtain ch ca where "run_handler h m c = c\<lparr>cl_channels := ch, cl_calls := ca\<rparr>"
    using run_handler_update by blast
  moreover obtain ch' ca' where "fold (\<lambda>h. run_handler h m) hs (c\<lparr>cl_channels := ch, cl_calls := ca\<rparr>) =
      (c\<lparr>cl_channels := ch, cl_calls := ca\<rparr>)\<lparr>cl_channels := ch', cl_calls := ca'\<rparr>"
    using Cons by blast
  ultimately show ?case
    by auto
qed

lemma run_handler_frame [simp]:
  "cl_entities (run_handler h m c) = cl_entities c"
  "cl_events (run_handler h m c) = cl_events c"
  "cl_queueSize (run_handler h m c) = cl_queueSize c"
  "cl_done (run_handler h m c) = cl_done c"
  "cl_connected (run_handler h m c) = cl_connected c"
  "cl_closeReason (run_handler h m c) = cl_closeReason c"
  "cl_handlers (run_handler h m c) = cl_handlers c"
  "cl_nextHandler (run_handler h m c) = cl_nextHandler c"
  "cl_list (run_handler h m c) = cl_list c"
  "cl_lists (run_handler h m c) = cl_lists c"
  "cl_nextList (run_handler h m c) = cl_nextList c"
  "cl_pingGate (run_handler h m c) = cl_pingGate c"
  "cl_deviceInfoGate (run_handler h m c) = cl_deviceInfoGate c"
  "cl_callbacksDone (run_handler h m c) = cl_callbacksDone c"
  using run_handler_update[of h m c] by force+

lemma deliverDirect_update: "\<exists>ch ca. deliverDirect order m c = c\<lparr>cl_channels := ch, cl_calls := ca\<rparr>"
proof (cases "MessageID api_registry (Some m)")
  case (Inl err)
  then show ?thesis
    by (intro exI[of _ "cl_channels c"] exI[of _ "cl_calls c"]) (simp add: deliverDirect_def)
next
  case (Inr mid)
  then show ?thesis
    using run_handlers_update by (simp add: deliverDirect_def)
qed

lemma deliverDirect_frame [simp]:
  "cl_entities (deliverDirect order m c) = cl_entities c"
  "cl_events (deliverDirect order m c) = cl_events c"
  "cl_queueSize (deliverDirect order m c) = cl_queueSize c"
  "cl_done (deliverDirect order m c) = cl_done c"
  "cl_connected (deliverDirect order m c) = cl_connected c"
  "cl_closeReason (deliverDirect order m c) = cl_closeReason c"
  "cl_handlers (deliverDirect order m c) = cl_handlers c"
  "cl_nextHandler (deliverDirect order m c) = cl_nextHandler c"
  "cl_list (deliverDirect order m c) = cl_list c"
  "cl_lists (deliverDirect order m c) = cl_lists c"
  "cl_nextList (deliverDirect order m c) = cl_nextList c"
  "cl_pingGate (deliverDirect order m c) = cl_pingGate c"
  "cl_deviceInfoGate (deliverDirect order m c) = cl_deviceInfoGate c"
  "cl_callbacksDone (deliverDirect order m c) = cl_callbacksDone c"
  using deliverDirect_update[of order m c] by force+

lemma handleList_frame [simp]:
  "cl_entities (handleList m c) = cl_entities c"
  "cl_events (handleList m c) = cl_events c"
  "cl_queueSize (handleList m c) = cl_queueSize c"
  "cl_done (handleList m c) = cl_done c"
  "cl_connected (handleList m c) = cl_connected c"
  "cl_closeReason (handleList m c) = cl_closeReason c"
  "cl_handlers (handleList m c) = cl_handlers c"
  "cl_nextHandler (handleList m c) = cl_nextHandler c"
  "cl_nextList (handleList m c) = cl_nextList c"
  "cl_pingGate (handleList m c) = cl_pingGate c"
  "cl_deviceInfoGate (handleList m c) = cl_deviceInfoGate c"
  "cl_channels (handleList m c) = cl_channels c"
  "cl_calls (handleList m c) = cl_calls c"
  "cl_callbacksDone (handleList m c) = cl_callbacksDone c"
  by (simp_all add: handleList_def split: option.split)

lemma forget_list_frame [simp]:
  "cl_entities (forget_list a c) = cl_entities c"
  "cl_events (forget_list a c) = cl_events c"
  "cl_queueSize (forget_list a c) = cl_queueSize c"
  "cl_done (forget_list a c) = cl_done c"
  "cl_connected (forget_list a c) = cl_connected c"
  "cl_closeReason (forget_list a c) = cl_closeReason c"
  "cl_handlers (forget_list a c) = cl_handlers c"
  "cl_nextHandler (forget_list a c) = cl_nextHandler c"
  "cl_lists (forget_list a c) = cl_lists c"
  "cl_nextList (forget_list a c) = cl_nextList c"
  "cl_pingGate (forget_list a c) = cl_pingGate c"
  "cl_deviceInfoGate (forget_list a c) = cl_deviceInfoGate c"
  "cl_channels (forget_list a c) = cl_channels c"
  "cl_calls (forget_list a c) = cl_calls c"
  "cl_callbacksDone (forget_list a c) = cl_callbacksDone c"
  by (simp_all add: forget_list_def)

lemma set_gate_frame [simp]:
  "cl_entities (set_gate k b c) = cl_entities c"
  "cl_events (set_gate k b c) = cl_events c"
  "cl_queueSize (set_gate k b c) = cl_queueSize c"
  "cl_done (set_gate k b c) = cl_done c"
  "cl_connected (set_gate k b c) = cl_connected c"
  "cl_closeReason (set_gate k b c) = cl_closeReason c"
  "cl_handlers (set_gate k b c) = cl_handlers c"
  "cl_nextHandler (set_gate k b c) = cl_nextHandler c"
  "cl_list (set_gate k b c) = cl_list c"
  "cl_lists (set_gate k b c) = cl_lists c"
  "cl_nextList (set_gate k b c) = cl_nextList c"
  "cl_channels (set_gate k b c) = cl_channels c"
  "cl_calls (set_gate k b c) = cl_calls c"
  "cl_callbacksDone (set_gate k b c) = cl_callbacksDone c"
  by (simp_all add: set_gate_def split: exchange_kind.split)

lemma unsubscribe_frame [simp]:
  "cl_entities (unsubscribe rs c) = cl_entities c"
  "cl_events (unsubscribe rs c) = cl_events c"
  "cl_queueSize (unsubscribe rs c) = cl_queueSize c"
  "cl_done (unsubscribe rs c) = cl_done c"
  "cl_connected (unsubscribe rs c) = cl_connected c"
  "cl_closeReason (unsubscribe rs c) = cl_closeReason c"
  "cl_nextHandler (unsubscribe rs c) = cl_nextHandler c"
  "cl_list (unsubscribe rs c) = cl_list c"
  "cl_lists (unsubscribe rs c) = cl_lists c"
  "cl_nextList (unsubscribe rs c) = cl_nextList c"
  "cl_pingGate (unsubscribe rs c) = cl_pingGate c"
  "cl_deviceInfoGate (unsubscribe rs c) = cl_deviceInfoGate c"
  "cl_channels (unsubscribe rs c) = cl_channels c"
  "cl_calls (unsubscribe rs c) = cl_calls c"
  "cl_callbacksDone (unsubscribe rs c) = cl_callbacksDone c"
  unfolding unsubscribe_def by (induction rs arbitrary: c) (simp_all add: split_beta)

lemma on_all_frame [simp]:
  "cl_entities (snd (on_all is h c)) = cl_entities c"
  "cl_events (snd (on_all is h c)) = cl_events c"
  "cl_queueSize (snd (on_all is h c)) = cl_queueSize c"
  "cl_done (snd (on_all is h c)) = cl_done c"
  "cl_connected (snd (on_all is h c)) = cl_connected c"
  "cl_closeReason (snd (on_all is h c)) = cl_closeReason c"
  "cl_list (snd (on_all is h c)) = cl_list c"
  "cl_lists (snd (on_all is h c)) = cl_lists c"
  "cl_nextList (snd (on_all is h c)) = cl_nextList c"
  "cl_pingGate (snd (on_all is h c)) = cl_pingGate c"
  "cl_deviceInfoGate (snd (on_all is h c)) = cl_deviceInfoGate c"
  "cl_channels (snd (on_all is h c)) = cl_channels c"
  "cl_calls (snd (on_all is h c)) = cl_calls c"
  "cl_callbacksDone (snd (on_all is h c)) = cl_callbacksDone c"
  by (induction "is" arbitrary: c) (simp_all add: split_beta)

lemma SubscribeStates_frame [simp]:
  "cl_entities (snd (SubscribeStates F pb h c)) = cl_entities c"
  "cl_events (snd (SubscribeStates F pb h c)) = cl_events c"
  "cl_queueSize (snd (SubscribeStates F pb h c)) = cl_queueSize c"
  "cl_done (snd (SubscribeStates F pb h c)) = cl_done c"
  "cl_connected (snd (SubscribeStates F pb h c)) = cl_connected c"
  "cl_closeReason (snd (SubscribeStates F pb h c)) = cl_closeReason c"
  "cl_list (snd (SubscribeStates F pb h c)) = cl_list c"
  "cl_lists (snd (SubscribeStates F pb h c)) = cl_lists c"
  "cl_nextList (snd (SubscribeStates F pb h c)) = cl_nextList c"
  "cl_pingGate (snd (SubscribeStates F pb h c)) = cl_pingGate c"
  "cl_deviceInfoGate (snd (SubscribeStates F pb h c)) = cl_deviceInfoGate c"
  "cl_channels (snd (SubscribeStates F pb h c)) = cl_channels c"
  "cl_calls (snd (SubscribeStates F pb h c)) = cl_calls c"
  "cl_callbacksDone (snd (SubscribeStates F pb h c)) = cl_callbacksDone c"
  by (simp_all add: SubscribeStates_def split_beta split: option.split)

lemma SubscribeLogs_frame [simp]:
  "cl_entities (snd (SubscribeLogs F pb l h c)) = cl_entities c"
  "cl_events (snd (SubscribeLogs F pb l h c)) = cl_events c"
  "cl_queueSize (snd (SubscribeLogs F pb l h c)) = cl_queueSize c"
  "cl_done (snd (SubscribeLogs F pb l h c)) = cl_done c"
  "cl_connected (snd (SubscribeLogs F pb l h c)) = cl_connected c"
  "cl_closeReason (snd (SubscribeLogs F pb l h c)) = cl_closeReason c"
  "cl_list (snd (SubscribeLogs F pb l h c)) = cl_list c"
  "cl_lists (snd (SubscribeLogs F pb l h c)) = cl_lists c"
  "cl_nextList (snd (SubscribeLogs F pb l h c)) = cl_nextList c"
  "cl_pingGate (snd (SubscribeLogs F pb l h c)) = cl_pingGate c"
  "cl_deviceInfoGate (snd (SubscribeLogs F pb l h c)) = cl_deviceInfoGate c"
  "cl_channels (snd (SubscribeLogs F pb l h c)) = cl_channels c"
  "cl_calls (snd (SubscribeLogs F pb l h c)) = cl_calls c"
  "cl_callbacksDone (snd (SubscribeLogs F pb l h c)) = cl_callbacksDone c"
  by (simp_all add: SubscribeLogs_def split_beta split: option.split)

lemma list_begin_frame [simp]:
  "cl_entities (snd (list_begin F pb c)) = cl_entities c"
  "cl_events (snd (list_begin F pb c)) = cl_events c"
  "cl_queueSize (snd (list_begin F pb c)) = cl_queueSize c"
  "cl_done (snd (list_begin F pb c)) = cl_done c"
  "cl_connected (snd (list_begin F pb c)) = cl_connected c"
  "cl_closeReason (snd (list_begin F pb c)) = cl_closeReason c"
  "cl_handlers (snd (list_begin F pb c)) = cl_handlers c"
  "cl_nextHandler (snd (list_begin F pb c)) = cl_nextHandler c"
  "cl_pingGate (snd (list_begin F pb c)) = cl_pingGate c"
  "cl_deviceInfoGate (snd (list_begin F pb c)) = cl_deviceInfoGate c"
  "cl_channels (snd (list_begin F pb c)) = cl_channels c"
  "cl_calls (snd (list_begin F pb c)) = cl_calls c"
  "cl_callbacksDone (snd (list_begin F pb c)) = cl_callbacksDone c"
  by (simp_all add: list_begin_def Let_def split_beta split: option.split)

lemma read_message_frame [simp]:
  "cl_entities (snd (read_message F pb c)) = cl_entities c"
  "cl_events (snd (read_message F pb c)) = cl_events c"
  "cl_queueSize (snd (read_message F pb c)) = cl_queueSize c"
  "cl_handlers (snd (read_message F pb c)) = cl_handlers c"
  "cl_nextHandler (snd (read_message F pb c)) = cl_nextHandler c"
  "cl_list (snd (read_message F pb c)) = cl_list c"
  "cl_lists (snd (read_message F pb c)) = cl_lists c"
  "cl_nextList (snd (read_message F pb c)) = cl_nextList c"
  "cl_pingGate (snd (read_message F pb c)) = cl_pingGate c"
  "cl_deviceInfoGate (snd (read_message F pb c)) = cl_deviceInfoGate c"
  "cl_channels (snd (read_message F pb c)) = cl_channels c"
  "cl_calls (snd (read_message F pb c)) = cl_calls c"
  "cl_callbacksDone (snd (read_message F pb c)) = cl_callbacksDone c"
  by (simp_all add: read_message_def Let_def split_beta split: sum.split)

end
