(* ===== verification/Client_Invariants.thy ===== *)
theory Client_Invariants
  imports Client_Frame
begin

text \<open>
  What holds in every reachable state of an established connection, whatever the schedule: the order
  and the effect of the messages the dispatcher handles, the bound of the event queue, the permanence
  of the close reason, and the content of an entity listing.
\<close>

section \<open>Steps, field by field\<close>

lemma handle_incoming_alt:
  "handle_incoming F pb order pick_done m c =
    (if m = PingRequest then answer_ping F pb c
     else if \<exists>x. m = DisconnectRequest x then answer_disconnect F pb c
     else if m = PingResponse \<or> (\<exists>x. m = DeviceInfoResponse x) then (True, deliverDirect order m c)
     else enqueue F pick_done m c)"
  unfolding handle_incoming_def by (cases m) simp_all

lemma handle_step_snd [simp]:
  "snd (handle_step F pb order pick_done m c) = snd (handle_incoming F pb order pick_done m c)"
  by (simp add: handle_step_def split_beta)

lemma answer_ping_split:
  obtains "snd (answer_ping F pb c) = snd (send F pb PingResponse c)"
  | r where "snd (answer_ping F pb c) = shutdown F r (snd (send F pb PingResponse c))"
  by (cases "send F pb PingResponse c"; cases "fst (send F pb PingResponse c)")
    (simp_all add: answer_ping_def)

lemma answer_disconnect_split:
  obtains r where "snd (answer_disconnect F pb c) = shutdown F r (snd (send F pb DisconnectResponse c))"
  by (cases "send F pb DisconnectResponse c"; cases "fst (send F pb DisconnectResponse c)")
    (simp_all add: answer_disconnect_def)

lemma enqueue_split:
  obtains "snd (enqueue F pick_done m c) = c"
  | "snd (enqueue F pick_done m c) = shutdown F (Some (Err ErrEventQueueFull)) c"
  | "snd (enqueue F pick_done m c) = c\<lparr>cl_events := cl_events c @ [m]\<rparr>"
      "length (cl_events c) < cl_queueSize c"
proof -
  have "snd (enqueue F pick_done m c) =
    (if cl_done c \<and> (pick_done \<or> \<not> length (cl_events c) < cl_queueSize c) then c
     else if length (cl_events c) < cl_queueSize c then c\<lparr>cl_events := cl_events c @ [m]\<rparr>
     else shutdown F (Some (Err ErrEventQueueFull)) c)"
    by (simp add: enqueue_def Let_def)
  then show thesis
    by (metis that)
qed

lemma handle_step_split:
  obtains
    (sent) m' where "snd (handle_step F pb order pick_done m c) = snd (send F pb m' c)"
  | (closed) m' r where "snd (handle_step F pb order pick_done m c) = shutdown F r (snd (send F pb m' c))"
  | (direct) "snd (handle_step F pb order pick_done m c) = deliverDirect order m c"
      "m = PingResponse \<or> (\<exists>x. m = DeviceInfoResponse x)"
  | (same) "snd (handle_step F pb order pick_done m c) = c"
  | (full) "snd (handle_step F pb order pick_done m c) = shutdown F (Some (Err ErrEventQueueFull)) c"
  | (queued) "snd (handle_step F pb order pick_done m c) = c\<lparr>cl_events := cl_events c @ [m]\<rparr>"
      "length (cl_events c) < cl_queueSize c"
proof -
  consider "m = PingRequest" | x where "m = DisconnectRequest x"
    | "m = PingResponse \<or> (\<exists>x. m = DeviceInfoResponse x)"
    | "handle_incoming F pb order pick_done m c = enqueue F pick_done m c"
    unfolding handle_incoming_alt by (cases m) simp_all
  then show ?thesis
  proof cases
    case 1
    then have "snd (handle_step F pb order pick_done m c) = snd (answer_ping F pb c)"
      by (simp add: handle_incoming_alt)
    then show ?thesis
      by (cases F pb c rule: answer_ping_split) (erule (1) sent[OF trans], erule (1) closed[OF trans])
  next
    case 2
    then have "snd (handle_step F pb order pick_done m c) = snd (answer_disconnect F pb c)"
      by (simp add: handle_incoming_alt)
    then show ?thesis
      by (cases F pb c rule: answer_disconnect_split) (erule (1) closed[OF trans])
  next
    case 3
    then have "snd (handle_step F pb order pick_done m c) = deliverDirect order m c"
      by (auto simp: handle_incoming_alt)
    then show ?thesis
      using 3 direct by blast
  next
    case 4
    then show ?thesis
      by (cases F pick_done m c rule: enqueue_split) (metis same full queued handle_step_snd)+
  qed
qed

lemma read_message_split:
  assumes "read_message F pb c = (r, c')"
  obtains f where "c' = c\<lparr>cl_framer := f\<rparr>" | f e where "c' = shutdown F e (c\<lparr>cl_framer := f\<rparr>)"
proof -
  let ?f = "Some (snd (fr_ReadFrame F (the (cl_framer c))))"
  have "c' = c\<lparr>cl_framer := ?f\<rparr> \<or> (\<exists>e. c' = shutdown F e (c\<lparr>cl_framer := ?f\<rparr>))"
    using assms by (auto simp: read_message_def Let_def split_beta split: sum.splits if_splits prod.splits)
  then show thesis
    using that by blast
qed

lemmas exchange_steps =
  ex_refuse_context_def ex_refuse_closed_def ex_acquire_def ex_watchdog_def ex_watchdog_close_def
  ex_send_def ex_receive_def ex_expire_def ex_closed_def ex_return_def

text \<open>The steps that touch neither the event queue nor the entity registry.\<close>

definition quiet :: "action \<Rightarrow> bool" where
  "quiet a \<longleftrightarrow> (case a of DoHandle _ _ \<Rightarrow> False | DoDispatch _ _ \<Rightarrow> False | _ \<Rightarrow> True)"

definition same_stream :: "'f session \<Rightarrow> 'f session \<Rightarrow> bool" where
  "same_stream s s' \<longleftrightarrow>
    cl_events (se_client s') = cl_events (se_client s) \<and>
    cl_queueSize (se_client s') = cl_queueSize (se_client s) \<and>
    cl_entities (se_client s') = cl_entities (se_client s) \<and>
    (cl_done (se_client s) \<longrightarrow> cl_done (se_client s')) \<and>
    se_pc s' = se_pc s \<and> se_accepted s' = se_accepted s \<and> se_handled s' = se_handled s"

lemma on_exchange_some:
  "on_exchange n f s = Some s' \<longleftrightarrow>
    n < length (se_exchanges s) \<and>
    (\<exists>c e. f (se_client s) (se_exchanges s ! n) = Some (c, e) \<and>
      s' = s\<lparr>se_client := c, se_exchanges := (se_exchanges s)[n := e]\<rparr>)"
  by (auto simp: on_exchange_def split: option.splits)

lemma keeps_client_some:
  "keeps_client f c e = Some (c', e') \<longleftrightarrow> c' = c \<and> f c e = Some e'"
  by (auto simp: keeps_client_def)

lemma exchange_same_stream:
  assumes "on_exchange n f s = Some s'"
    and "\<And>c e c' e'. f c e = Some (c', e') \<Longrightarrow>
      cl_events c' = cl_events c \<and> cl_queueSize c' = cl_queueSize c \<and>
      cl_entities c' = cl_entities c \<and> (cl_done c \<longrightarrow> cl_done c')"
  shows "same_stream s s'"
proof -
  obtain c e where f: "f (se_client s) (se_exchanges s ! n) = Some (c, e)"
      and s': "s' = s\<lparr>se_client := c, se_exchanges := (se_exchanges s)[n := e]\<rparr>"
    using assms(1) unfolding on_exchange_some by blast
  show ?thesis
    using assms(2)[OF f] unfolding s' same_stream_def by simp
qed

lemma keeps_client_same_stream:
  "on_exchange n (keeps_client f) s = Some s' \<Longrightarrow> same_stream s s'"
  by (erule exchange_same_stream) (simp add: keeps_client_some)

lemma ex_acquire_frame:
  assumes "ex_acquire n c e = Some (c', e')"
  shows "cl_events c' = cl_events c" "cl_queueSize c' = cl_queueSize c" "cl_entities c' = cl_entities c"
    "cl_done c' = cl_done c" "cl_connected c' = cl_connected c" "cl_closeReason c' = cl_closeReason c"
    "cl_list c' = cl_list c" "cl_lists c' = cl_lists c" "cl_nextList c' = cl_nextList c"
    "cl_calls c' = cl_calls c"
  using assms by (auto simp: ex_acquire_def split_beta split: if_splits)

lemma ex_send_client:
  "ex_send F pb c e = Some (c', e') \<Longrightarrow> c' = snd (send F pb (request_of (ex_kind e)) c)"
  by (auto simp: ex_send_def split: if_splits prod.splits option.splits)

lemma ex_expire_client:
  "ex_expire F c e = Some (c', e') \<Longrightarrow>
    c' = (if ex_verdict e = 0 then shutdown F (Some (no_response (ex_kind e) (the (ex_cause e)))) c else c)"
  by (auto simp: ex_expire_def Let_def split: if_splits exchange_phase.splits option.splits)

lemma ex_watchdog_close_client:
  "ex_watchdog_close F c e = Some (c', e') \<Longrightarrow> c' = shutdown F (ex_closing e) c"
  by (auto simp: ex_watchdog_close_def split: option.splits)

lemma ex_return_client:
  "ex_return c e = Some (c', e') \<Longrightarrow>
    c' = set_gate (ex_kind e) True (remove_handler (response_id (ex_kind e)) (ex_token e) c)"
  by (auto simp: ex_return_def split: exchange_phase.splits)

lemmas exchange_clients =
  ex_send_client ex_expire_client ex_watchdog_close_client ex_return_client

lemma subscribed_frame:
  "se_client (subscribed s r) = snd r" "se_pc (subscribed s r) = se_pc s"
  "se_accepted (subscribed s r) = se_accepted s" "se_handled (subscribed s r) = se_handled s"
  "se_exchanges (subscribed s r) = se_exchanges s" "se_reader (subscribed s r) = se_reader s"
  "se_keeper (subscribed s r) = se_keeper s" "se_listings (subscribed s r) = se_listings s"
  "se_listStart (subscribed s r) = se_listStart s"
  by (simp_all add: subscribed_def split_beta split: sum.split)

lemma reader_step_split:
  assumes "reader_step F pb s = Some s'"
  obtains f r where "s' = s\<lparr>se_client := (se_client s)\<lparr>cl_framer := f\<rparr>, se_reader := r\<rparr>"
  | f r e where "s' = s\<lparr>se_client := shutdown F e ((se_client s)\<lparr>cl_framer := f\<rparr>), se_reader := r\<rparr>"
proof -
  obtain r c where rc: "read_message F pb (se_client s) = (r, c)"
      and s': "s' = s\<lparr>se_client := c, se_reader := r\<rparr>"
    using assms by (auto simp: reader_step_def split: reader.splits prod.splits)
  from rc show thesis
    by (rule read_message_split) (auto simp: s' intro: that)
qed

lemma list_end_client:
  "list_end a w c = Some (r, c') \<Longrightarrow> c' = forget_list a c"
  by (auto simp: list_end_def split: list_wait.splits option.splits if_splits)

lemma keepalive_result_split:
  assumes "keepalive_result F s = Some s'"
  obtains "s' = s\<lparr>se_keeper := KeepSleeping\<rparr>"
  | n err where "s' = s\<lparr>se_client := shutdown F (Some err) (se_client s), se_keeper := KeepStopped\<rparr>"
    "se_keeper s = KeepProbing n" "ex_phase (se_exchanges s ! n) = Returned (Inl err)"
    "\<not> errors_is err ErrProbeNotStarted"
proof -
  obtain n r where n: "se_keeper s = KeepProbing n" "ex_phase (se_exchanges s ! n) = Returned r"
    using assms by (auto simp: keepalive_result_def split: keeper.splits exchange_phase.splits)
  show thesis
  proof (cases "\<exists>err. r = Inl err \<and> \<not> errors_is err ErrProbeNotStarted")
    case True
    then show thesis
      using assms n that(2) by (auto simp: keepalive_result_def keepalive_round_def)
  next
    case False
    then have "s' = s\<lparr>se_client := se_client s, se_keeper := KeepSleeping\<rparr>"
      using assms n by (cases r) (simp_all add: keepalive_result_def keepalive_round_def)
    then show thesis
      using that(1) by simp
  qed
qed

lemma list_begin_step_frame:
  assumes "list_begin_step F pb s = Some s'"
  shows "se_client s' = snd (list_begin F pb (se_client s))" "se_pc s' = se_pc s"
    "se_accepted s' = se_accepted s" "se_handled s' = se_handled s" "se_reader s' = se_reader s"
    "se_exchanges s' = se_exchanges s" "se_keeper s' = se_keeper s"
    "se_subscriptions s' = se_subscriptions s"
  using assms by (auto simp: list_begin_step_def split: prod.splits sum.splits)

lemma quiet_same_stream:
  assumes step: "session_step F pb a s = Some s'" and "quiet a"
  shows "same_stream s s'"
proof (cases a)
  case DoRead
  then have "reader_step F pb s = Some s'"
    using step by (simp add: session_step_def)
  then show ?thesis
    by (cases rule: reader_step_split) (auto simp: same_stream_def)
next
  case (DoListEnd x w)
  then show ?thesis
    using step by (auto simp: session_step_def list_end_step_def same_stream_def
        split: if_splits option.splits dest!: list_end_client)
next
  case DoKeepaliveResult
  then have "keepalive_result F s = Some s'"
    using step by (simp add: session_step_def)
  then show ?thesis
    by (cases rule: keepalive_result_split) (auto simp: same_stream_def)
next
  case (DoAcquire n)
  then have "on_exchange n (ex_acquire n) s = Some s'"
    using step by (simp add: session_step_def)
  then show ?thesis
    by (rule exchange_same_stream) (simp add: ex_acquire_frame)
next
  case DoListBegin
  then show ?thesis
    using step by (simp add: session_step_def same_stream_def list_begin_step_frame)
next
  case (DoWatchdogClose n)
  then have "on_exchange n (ex_watchdog_close F) s = Some s'"
    using step by (simp add: session_step_def)
  then show ?thesis
    by (rule exchange_same_stream) (drule ex_watchdog_close_client, simp)
next
  case (DoExchangeSend n)
  then have "on_exchange n (ex_send F pb) s = Some s'"
    using step by (simp add: session_step_def)
  then show ?thesis
    by (rule exchange_same_stream) (drule ex_send_client, simp)
next
  case (DoExpire n)
  then have "on_exchange n (ex_expire F) s = Some s'"
    using step by (simp add: session_step_def)
  then show ?thesis
    by (rule exchange_same_stream) (drule ex_expire_client, simp)
next
  case (DoReturn n)
  then have "on_exchange n ex_return s = Some s'"
    using step by (simp add: session_step_def)
  then show ?thesis
    by (rule exchange_same_stream) (drule ex_return_client, simp)
qed (use assms keeps_client_same_stream in \<open>auto simp: session_step_def quiet_def same_stream_def
    context_ended_def Close_def subscribed_frame unsubscribe_step_def begin_exchange_def
    keepalive_tick_def keepalive_closed_def split: if_splits\<close>)

section \<open>The event queue and the dispatcher\<close>

text \<open>
  Messages are handled in the order they were accepted. At most one accepted message is lost, taken by a
  dispatcher that found the client closed.
\<close>

definition stream_ok :: "'f session \<Rightarrow> bool" where
  "stream_ok s \<longleftrightarrow>
    length (cl_events (se_client s)) \<le> cl_queueSize (se_client s) \<and>
    cl_entities (se_client s) = fold handle (se_handled s) newEntityRegistry \<and>
    (\<exists>lost. se_accepted s = se_handled s @ lost @ cl_events (se_client s) \<and>
      (lost = [] \<or> se_pc s = Stopped \<and> length lost = 1)) \<and>
    (se_pc s = Stopped \<longrightarrow> cl_done (se_client s))"

lemma same_stream_ok: "stream_ok s \<Longrightarrow> same_stream s s' \<Longrightarrow> stream_ok s'"
  unfolding stream_ok_def same_stream_def by auto

lemma handler_step_stream:
  assumes "handler_step F pb order pick_done s = Some s'"
  shows "same_stream s s' \<or>
    (\<exists>r m. s' = s\<lparr>se_client := (se_client s)\<lparr>cl_events := cl_events (se_client s) @ [m]\<rparr>,
      se_reader := r, se_accepted := se_accepted s @ [m]\<rparr> \<and>
      length (cl_events (se_client s)) < cl_queueSize (se_client s))"
proof -
  obtain m r c where rc: "handle_step F pb order pick_done m (se_client s) = (r, c)"
      and s': "s' = s\<lparr>se_client := c, se_reader := r, se_accepted :=
        (if length (cl_events (se_client s)) < length (cl_events c)
         then se_accepted s @ [m] else se_accepted s)\<rparr>"
    using assms by (auto simp: handler_step_def split: reader.splits if_splits prod.splits)
  from rc have "c = snd (handle_step F pb order pick_done m (se_client s))"
    by simp
  then show ?thesis
    unfolding s' same_stream_def
    by (cases rule: handle_step_split[where F = F and pb = pb and order = order and
          pick_done = pick_done and m = m and c = "se_client s"]) auto
qed

lemma dispatch_event_fields:
  "cl_entities (snd (dispatch_event order m c)) = handle m (cl_entities c)"
  "cl_events (snd (dispatch_event order m c)) = cl_events c"
  "cl_queueSize (snd (dispatch_event order m c)) = cl_queueSize c"
  "cl_done (snd (dispatch_event order m c)) = cl_done c"
  "fst (dispatch_event order m c) \<noteq> Stopped"
  by (simp_all add: dispatch_event_def Let_def split: sum.split)

lemma dispatcher_step_stream:
  assumes "dispatcher_step order take_event s = Some s'" and "stream_ok s"
  shows "stream_ok s'"
proof (cases "se_pc s")
  case Idle
  show ?thesis
  proof (cases "cl_events (se_client s)")
    case Nil
    then show ?thesis
      using assms Idle by (auto simp: dispatcher_step_def dispatch_step_def stop_dispatch_def
          stream_ok_def split: if_splits)
  next
    case (Cons m q)
    show ?thesis
    proof (cases "cl_done (se_client s)")
      case True
      then show ?thesis
        using assms Idle Cons by (auto simp: dispatcher_step_def dispatch_step_def stop_dispatch_def
            stream_ok_def split: if_splits)
    next
      case False
      let ?c = "(se_client s)\<lparr>cl_events := q\<rparr>"
      have "s' = s\<lparr>se_client := snd (dispatch_event order m ?c),
          se_pc := fst (dispatch_event order m ?c), se_handled := se_handled s @ [m]\<rparr>"
        using assms(1) Idle Cons False
        by (auto simp: dispatcher_step_def dispatch_step_def split_beta split: if_splits)
      then show ?thesis
        using assms(2) Idle Cons False by (auto simp: stream_ok_def dispatch_event_fields)
    qed
  qed
next
  case (Calling m hs)
  then show ?thesis
    using assms by (cases hs) (auto simp: dispatcher_step_def dispatch_step_def stop_dispatch_def
        stream_ok_def split: if_splits)
next
  case Stopped
  then show ?thesis
    using assms by (simp add: dispatcher_step_def dispatch_step_def)
qed

lemma session_step_stream:
  assumes "session_step F pb a s = Some s'" and "stream_ok s"
  shows "stream_ok s'"
proof (cases "quiet a")
  case True
  then show ?thesis
    using assms quiet_same_stream same_stream_ok by blast
next
  case False
  then consider ord pick where "a = DoHandle ord pick" | ord pick where "a = DoDispatch ord pick"
    by (cases a) (simp_all add: quiet_def)
  then show ?thesis
  proof cases
    case 1
    then have "handler_step F pb ord pick s = Some s'"
      using assms(1) by (simp add: session_step_def)
    from handler_step_stream[OF this] show ?thesis
    proof
      assume "same_stream s s'"
      then show ?thesis
        using assms(2) by (blast intro: same_stream_ok)
    qed (use assms(2) in \<open>auto simp: stream_ok_def\<close>)
  next
    case 2
    then show ?thesis
      using assms dispatcher_step_stream by (simp add: session_step_def)
  qed
qed

lemma reachable_stream: "reachable F pb s \<Longrightarrow> stream_ok s"
proof (induction rule: reachable.induct)
  case (reachable_start c keepalive)
  then show ?case
    by (auto simp: dialed_client_def start_session_def stream_ok_def newClient_def)
next
  case (reachable_step s a s')
  then show ?case
    by (blast intro: session_step_stream)
qed

section \<open>Closing\<close>

text \<open>What a step may do to the state of the connection: nothing, or close it, once.\<close>

definition closes :: "'f client \<Rightarrow> 'f client \<Rightarrow> bool" where
  "closes c c' \<longleftrightarrow>
    (cl_done c' = cl_done c \<and> cl_closeReason c' = cl_closeReason c \<and> cl_connected c' = cl_connected c) \<or>
    (\<not> cl_done c \<and> cl_done c' \<and> \<not> cl_connected c')"

lemma closes_refl [intro, simp]: "closes c c"
  by (simp add: closes_def)

lemma closes_same:
  "cl_done c' = cl_done c \<Longrightarrow> cl_closeReason c' = cl_closeReason c \<Longrightarrow> cl_connected c' = cl_connected c \<Longrightarrow>
    closes c c'"
  by (simp add: closes_def)

lemma closes_shutdown:
  "cl_done c' = cl_done c \<Longrightarrow> cl_closeReason c' = cl_closeReason c \<Longrightarrow> cl_connected c' = cl_connected c \<Longrightarrow>
    closes c (shutdown F r c')"
  by (auto simp: closes_def shutdown_def)

lemma handle_step_closes: "closes c (snd (handle_step F pb order pick_done m c))"
  by (cases rule: handle_step_split[where F = F and pb = pb and order = order and
        pick_done = pick_done and m = m and c = c])
    (auto intro: closes_same closes_shutdown)

lemma dispatch_event_closes: "closes c (snd (dispatch_event order m c))"
  by (rule closes_same) (simp_all add: dispatch_event_def Let_def split: sum.split)

lemma dispatch_step_closes:
  assumes "dispatch_step order take_event pc c = Some (pc', c')"
  shows "closes c c'"
proof -
  have "closes c (snd (dispatch_event order m (c\<lparr>cl_events := q\<rparr>)))" for m q
    by (rule closes_same) (simp_all add: dispatch_event_def Let_def split: sum.split)
  from this[of "hd (cl_events c)" "tl (cl_events c)"] show ?thesis
    using assms by (auto simp: dispatch_step_def stop_dispatch_def closes_same
        split: dispatch_pc.splits list.splits if_splits)
qed

lemma exchange_closes:
  assumes "on_exchange n f s = Some s'"
    and "\<And>c e c' e'. f c e = Some (c', e') \<Longrightarrow> closes c c'"
  shows "closes (se_client s) (se_client s')"
  using assms unfolding on_exchange_some by auto

lemma keeps_client_closes:
  "on_exchange n (keeps_client f) s = Some s' \<Longrightarrow> closes (se_client s) (se_client s')"
  by (erule exchange_closes) (simp add: keeps_client_some)

lemma session_step_closes:
  assumes step: "session_step F pb a s = Some s'"
  shows "closes (se_client s) (se_client s')"
proof (cases a)
  case DoRead
  then have "reader_step F pb s = Some s'"
    using step by (simp add: session_step_def)
  then show ?thesis
    by (cases rule: reader_step_split) (auto intro: closes_same closes_shutdown)
next
  case (DoHandle ord pick)
  then show ?thesis
    using step handle_step_closes
    by (auto simp: session_step_def handler_step_def split_beta split: reader.splits if_splits)
next
  case (DoDispatch ord pick)
  then show ?thesis
    using step by (auto simp: session_step_def dispatcher_step_def Let_def
        split: if_splits option.splits dest: dispatch_step_closes)
next
  case (DoListEnd x w)
  then show ?thesis
    using step by (auto simp: session_step_def list_end_step_def
        split: if_splits option.splits dest!: list_end_client intro: closes_same)
next
  case DoKeepaliveResult
  then have "keepalive_result F s = Some s'"
    using step by (simp add: session_step_def)
  then show ?thesis
    by (cases rule: keepalive_result_split) (auto intro: closes_shutdown)
next
  case (DoAcquire n)
  then have "on_exchange n (ex_acquire n) s = Some s'"
    using step by (simp add: session_step_def)
  then show ?thesis
    by (rule exchange_closes) (simp add: ex_acquire_frame closes_same)
next
  case DoListBegin
  then show ?thesis
    using step by (simp add: session_step_def list_begin_step_frame closes_same)
next
  case (DoWatchdogClose n)
  then have "on_exchange n (ex_watchdog_close F) s = Some s'"
    using step by (simp add: session_step_def)
  then show ?thesis
    by (rule exchange_closes) (drule ex_watchdog_close_client, simp add: closes_shutdown)
next
  case (DoExchangeSend n)
  then have "on_exchange n (ex_send F pb) s = Some s'"
    using step by (simp add: session_step_def)
  then show ?thesis
    by (rule exchange_closes) (drule ex_send_client, simp add: closes_same)
next
  case (DoExpire n)
  then have "on_exchange n (ex_expire F) s = Some s'"
    using step by (simp add: session_step_def)
  then show ?thesis
    by (rule exchange_closes) (drule ex_expire_client, simp add: closes_shutdown)
next
  case (DoReturn n)
  then have "on_exchange n ex_return s = Some s'"
    using step by (simp add: session_step_def)
  then show ?thesis
    by (rule exchange_closes) (drule ex_return_client, simp add: closes_same)
qed (use step keeps_client_closes in \<open>auto simp: session_step_def context_ended_def Close_def
    subscribed_frame unsubscribe_step_def begin_exchange_def keepalive_tick_def keepalive_closed_def
    intro: closes_shutdown closes_same split: if_splits\<close>)

lemma session_run_closed:
  assumes "session_run F pb as s = Some s'" and "cl_done (se_client s)"
  shows "cl_done (se_client s') \<and> cl_closeReason (se_client s') = cl_closeReason (se_client s) \<and>
    cl_connected (se_client s') = cl_connected (se_client s)"
  using assms
proof (induction "as" arbitrary: s)
  case (Cons a "as")
  then obtain t where "session_step F pb a s = Some t" "session_run F pb as t = Some s'"
    by (auto split: option.splits)
  then show ?case
    using Cons.IH[of t] Cons.prems(2) session_step_closes[of F pb a s t] by (auto simp: closes_def)
qed simp

lemma reachable_open:
  "reachable F pb s \<Longrightarrow>
    cl_connected (se_client s) = (\<not> cl_done (se_client s)) \<and>
    (\<not> cl_done (se_client s) \<longrightarrow> cl_closeReason (se_client s) = None)"
proof (induction rule: reachable.induct)
  case (reachable_start c keepalive)
  then show ?case
    by (auto simp: dialed_client_def start_session_def newClient_def)
next
  case (reachable_step s a s')
  then show ?case
    using session_step_closes[of F pb a s s'] by (auto simp: closes_def)
qed

section \<open>Listings\<close>

text \<open>
  What a listing has collected: the list entities among the messages handled since it began, up to the
  first \<open>ListEntitiesDoneResponse\<close>.
\<close>

definition collecting :: "message list \<Rightarrow> listResult \<Rightarrow> bool" where
  "collecting since l \<longleftrightarrow> \<not> lr_done l \<and> ListEntitiesDoneResponse \<notin> set since \<and>
    lr_messages l = filter isListEntity since"

definition completed :: "message list \<Rightarrow> message list \<Rightarrow> bool" where
  "completed since ms \<longleftrightarrow>
    (\<exists>before rest. since = before @ ListEntitiesDoneResponse # rest \<and>
      ListEntitiesDoneResponse \<notin> set before \<and> ms = filter isListEntity before)"

lemma completed_append: "completed since ms \<Longrightarrow> completed (since @ later) ms"
  unfolding completed_def by fastforce

definition lists_ok :: "'f session \<Rightarrow> bool" where
  "lists_ok s \<longleftrightarrow>
    (\<forall>a. cl_list (se_client s) = Some a \<longrightarrow>
      a < cl_nextList (se_client s) \<and> (\<exists>l. cl_lists (se_client s) a = Some l \<and>
        collecting (drop (se_listStart s a) (se_handled s)) l)) \<and>
    (\<forall>a l. cl_lists (se_client s) a = Some l \<longrightarrow>
      a < cl_nextList (se_client s) \<and> se_listStart s a \<le> length (se_handled s) \<and>
      (lr_done l \<longrightarrow> completed (drop (se_listStart s a) (se_handled s)) (lr_messages l)))"

definition same_lists :: "'f session \<Rightarrow> 'f session \<Rightarrow> bool" where
  "same_lists s s' \<longleftrightarrow>
    (cl_list (se_client s') = cl_list (se_client s) \<or> cl_list (se_client s') = None) \<and>
    cl_lists (se_client s') = cl_lists (se_client s) \<and>
    cl_nextList (se_client s') = cl_nextList (se_client s) \<and>
    se_handled s' = se_handled s \<and> se_listStart s' = se_listStart s"

lemma same_lists_ok: "lists_ok s \<Longrightarrow> same_lists s s' \<Longrightarrow> lists_ok s'"
  unfolding lists_ok_def same_lists_def by auto

lemma exchange_same_lists:
  assumes "on_exchange n f s = Some s'"
    and "\<And>c e c' e'. f c e = Some (c', e') \<Longrightarrow> cl_list c' = cl_list c \<and> cl_lists c' = cl_lists c \<and>
      cl_nextList c' = cl_nextList c"
  shows "same_lists s s'"
  using assms unfolding on_exchange_some same_lists_def by fastforce

lemma keeps_client_same_lists: "on_exchange n (keeps_client f) s = Some s' \<Longrightarrow> same_lists s s'"
  by (erule exchange_same_lists) (simp add: keeps_client_some)

lemma handle_incoming_lists [simp]:
  "cl_list (snd (handle_incoming F pb order pick_done m c)) = cl_list c"
  "cl_lists (snd (handle_incoming F pb order pick_done m c)) = cl_lists c"
  "cl_nextList (snd (handle_incoming F pb order pick_done m c)) = cl_nextList c"
  unfolding handle_step_snd[symmetric]
  by (cases rule: handle_step_split[where F = F and pb = pb and order = order and
        pick_done = pick_done and m = m and c = c], simp_all del: handle_step_snd)+

lemma same_listsI:
  "cl_list (se_client s') = cl_list (se_client s) \<Longrightarrow> cl_lists (se_client s') = cl_lists (se_client s) \<Longrightarrow>
    cl_nextList (se_client s') = cl_nextList (se_client s) \<Longrightarrow> se_handled s' = se_handled s \<Longrightarrow>
    se_listStart s' = se_listStart s \<Longrightarrow> same_lists s s'"
  by (simp add: same_lists_def)

lemma same_lists_step:
  assumes step: "session_step F pb a s = Some s'"
    and a: "a \<noteq> DoListBegin" "\<And>ord t. a \<noteq> DoDispatch ord t"
  shows "same_lists s s'"
proof (cases a)
  case DoRead
  then have "reader_step F pb s = Some s'"
    using step by (simp add: session_step_def)
  then show ?thesis
    by (cases rule: reader_step_split) (auto simp: same_lists_def)
next
  case (DoHandle ord pick)
  then show ?thesis
    using step
    by (auto simp: session_step_def handler_step_def split_beta intro!: same_listsI
        split: reader.splits if_splits)
next
  case (DoListEnd x w)
  then show ?thesis
    using step by (auto simp: session_step_def list_end_step_def same_lists_def forget_list_def
        split: if_splits option.splits dest!: list_end_client)
next
  case DoKeepaliveResult
  then have "keepalive_result F s = Some s'"
    using step by (simp add: session_step_def)
  then show ?thesis
    by (cases rule: keepalive_result_split) (auto simp: same_lists_def)
next
  case (DoAcquire n)
  then have "on_exchange n (ex_acquire n) s = Some s'"
    using step by (simp add: session_step_def)
  then show ?thesis
    by (rule exchange_same_lists) (simp add: ex_acquire_frame)
next
  case (DoWatchdogClose n)
  then have "on_exchange n (ex_watchdog_close F) s = Some s'"
    using step by (simp add: session_step_def)
  then show ?thesis
    by (rule exchange_same_lists) (drule ex_watchdog_close_client, simp)
next
  case (DoExchangeSend n)
  then have "on_exchange n (ex_send F pb) s = Some s'"
    using step by (simp add: session_step_def)
  then show ?thesis
    by (rule exchange_same_lists) (drule ex_send_client, simp)
next
  case (DoExpire n)
  then have "on_exchange n (ex_expire F) s = Some s'"
    using step by (simp add: session_step_def)
  then show ?thesis
    by (rule exchange_same_lists) (drule ex_expire_client, simp)
next
  case (DoReturn n)
  then have "on_exchange n ex_return s = Some s'"
    using step by (simp add: session_step_def)
  then show ?thesis
    by (rule exchange_same_lists) (drule ex_return_client, simp)
qed (use step a in \<open>auto simp: session_step_def context_ended_def Close_def subscribed_frame
    unsubscribe_step_def begin_exchange_def keepalive_tick_def keepalive_closed_def
    intro: keeps_client_same_lists intro: same_listsI split: if_splits\<close>)

lemma list_begin_lists:
  "snd (list_begin F pb c) = c \<or>
   cl_nextList (snd (list_begin F pb c)) = cl_nextList c + 1 \<and>
   cl_lists (snd (list_begin F pb c)) =
     (cl_lists c)(cl_nextList c \<mapsto> \<lparr>lr_messages = [], lr_done = False\<rparr>) \<and>
   cl_list (snd (list_begin F pb c)) \<in> {None, Some (cl_nextList c)}"
  by (cases "cl_list c") (auto simp: list_begin_def Let_def split_beta forget_list_def split: option.split)

lemma list_begin_step_ok:
  assumes "list_begin_step F pb s = Some s'" and ok: "lists_ok s"
  shows "lists_ok s'"
proof -
  have start: "se_listStart s' = (se_listStart s)(cl_nextList (se_client s) := length (se_handled s))"
    if "se_client s' \<noteq> se_client s"
    using assms(1) that by (auto simp: list_begin_step_def list_begin_def Let_def
        split: prod.splits sum.splits if_splits option.splits)
  have start': "se_listStart s' a = se_listStart s a" if "a \<noteq> cl_nextList (se_client s)" for a
    using assms(1) that by (auto simp: list_begin_step_def list_begin_def Let_def
        split: prod.splits sum.splits if_splits option.splits)
  note frame = list_begin_step_frame[OF assms(1)]
  show ?thesis
  proof (cases "se_client s' = se_client s")
    case True
    then show ?thesis
      using ok start' frame unfolding lists_ok_def by (metis less_irrefl_nat)
  next
    case False
    then have
      c: "cl_nextList (se_client s') = cl_nextList (se_client s) + 1"
        "cl_lists (se_client s') = (cl_lists (se_client s))
          (cl_nextList (se_client s) \<mapsto> \<lparr>lr_messages = [], lr_done = False\<rparr>)"
        "cl_list (se_client s') \<in> {None, Some (cl_nextList (se_client s))}"
      using list_begin_lists[of F pb "se_client s"] frame(1) by auto
    then show ?thesis
      using ok frame start[OF False] unfolding lists_ok_def
      by (auto simp: collecting_def intro: less_SucI)
  qed
qed

lemma dispatch_event_lists:
  "cl_nextList (snd (dispatch_event order m c)) = cl_nextList c"
  "cl_list (snd (dispatch_event order m c)) = cl_list (handleList m c)"
  "cl_lists (snd (dispatch_event order m c)) = cl_lists (handleList m c)"
  by (simp_all add: dispatch_event_def Let_def handleList_def split: sum.split option.split)

lemma dispatch_lists_ok:
  assumes ok: "lists_ok s" and handled: "se_handled s' = se_handled s @ [m]"
    and start: "se_listStart s' = se_listStart s"
    and nextl: "cl_nextList (se_client s') = cl_nextList (se_client s)"
    and list: "cl_list (se_client s') = cl_list (handleList m (se_client s))"
    and lists: "cl_lists (se_client s') = cl_lists (handleList m (se_client s))"
  shows "lists_ok s'"
proof -
  let ?since = "\<lambda>a. drop (se_listStart s a) (se_handled s)"
  have since: "drop (se_listStart s a) (se_handled s @ [m]) = ?since a @ [m]"
    if "cl_lists (se_client s) a = Some l" for a l
    using ok that by (simp add: lists_ok_def)
  show ?thesis
  proof (cases "cl_list (se_client s)")
    case None
    then show ?thesis
      using ok handled start nextl list lists since
      by (auto simp: lists_ok_def handleList_def completed_append intro: le_SucI)
  next
    case (Some a)
    then obtain l where l: "cl_lists (se_client s) a = Some l" "collecting (?since a) l"
        "a < cl_nextList (se_client s)"
      using ok by (auto simp: lists_ok_def)
    have other: "b < cl_nextList (se_client s) \<and> se_listStart s b \<le> Suc (length (se_handled s)) \<and>
        (lr_done l' \<longrightarrow> completed (drop (se_listStart s b) (se_handled s @ [m])) (lr_messages l'))"
      if "cl_lists (se_client s) b = Some l'" for b l'
      using ok that since[OF that] by (auto simp: lists_ok_def completed_append intro: le_SucI)
    consider "m = ListEntitiesDoneResponse" | "m \<noteq> ListEntitiesDoneResponse" "isListEntity m"
      | "m \<noteq> ListEntitiesDoneResponse" "\<not> isListEntity m"
      by blast
    then show ?thesis
    proof cases
      case 1
      have "completed (?since a @ [m]) (lr_messages l)"
        using l(2) unfolding completed_def collecting_def 1 by blast
      then show ?thesis
        using Some l other handled start nextl list lists since[OF l(1)] 1
        by (auto simp: lists_ok_def handleList_def)
    next
      case 2
      have "collecting (?since a @ [m]) (l\<lparr>lr_messages := lr_messages l @ [m]\<rparr>)"
        using l(2) 2 by (simp add: collecting_def)
      then show ?thesis
        using Some l other[of a] other handled start nextl list lists since[OF l(1)] 2
        by (auto simp: lists_ok_def handleList_def collecting_def)
    next
      case 3
      have "collecting (?since a @ [m]) l"
        using l(2) 3 by (simp add: collecting_def)
      then show ?thesis
        using Some l other handled start nextl list lists since[OF l(1)] 3
        by (auto simp: lists_ok_def handleList_def)
    qed
  qed
qed

lemma dispatcher_step_lists:
  assumes step: "dispatcher_step order take_event s = Some s'" and ok: "lists_ok s"
  shows "lists_ok s'"
proof (cases "se_pc s = Idle \<and> cl_events (se_client s) \<noteq> [] \<and> \<not> cl_done (se_client s)")
  case True
  then obtain m q where q: "cl_events (se_client s) = m # q"
    by (meson list.exhaust)
  let ?c = "(se_client s)\<lparr>cl_events := q\<rparr>"
  have s': "s' = s\<lparr>se_client := snd (dispatch_event order m ?c),
      se_pc := fst (dispatch_event order m ?c), se_handled := se_handled s @ [m]\<rparr>"
    using step True q by (auto simp: dispatcher_step_def dispatch_step_def split_beta split: if_splits)
  show ?thesis
    by (rule dispatch_lists_ok[OF ok, of _ m])
      (simp_all add: s' dispatch_event_lists handleList_def split: option.split)
next
  case False
  then have "same_lists s s'"
    using step by (auto simp: dispatcher_step_def dispatch_step_def stop_dispatch_def
        intro!: same_listsI split: dispatch_pc.splits list.splits if_splits)
  then show ?thesis
    using ok by (blast intro: same_lists_ok)
qed

lemma reachable_lists: "reachable F pb s \<Longrightarrow> lists_ok s"
proof (induction rule: reachable.induct)
  case (reachable_start c keepalive)
  then show ?case
    by (auto simp: dialed_client_def start_session_def lists_ok_def newClient_def)
next
  case (reachable_step s a s')
  show ?case
  proof (cases "a = DoListBegin")
    case True
    then show ?thesis
      using reachable_step by (simp add: session_step_def list_begin_step_ok)
  next
    case False
    show ?thesis
    proof (cases "\<exists>ord pick. a = DoDispatch ord pick")
      case True
      then show ?thesis
        using reachable_step by (auto simp: session_step_def dispatcher_step_lists)
    next
      case False
      with \<open>a \<noteq> DoListBegin\<close> have "same_lists s s'"
        using same_lists_step[OF reachable_step.hyps(2)] by blast
      then show ?thesis
        using reachable_step.IH by (blast intro: same_lists_ok)
    qed
  qed
qed

end
