(* ===== verification/Exchange_Invariants.thy ===== *)
theory Exchange_Invariants
  imports Client_Invariants
begin

text \<open>
  What holds of the exchanges of a connection (\<open>Ping\<close>, \<open>DeviceInfo\<close>, keepalive probes) in every
  reachable state: who holds a gate, which responses can be in a channel, and what the outcome of an
  exchange says about the connection.
\<close>

section \<open>One exchange\<close>

definition answers :: "exchange_kind \<Rightarrow> message \<Rightarrow> bool" where
  "answers kind m \<longleftrightarrow>
    (case kind of Probe _ \<Rightarrow> m = PingResponse | DeviceInfoExchange \<Rightarrow> (\<exists>i. m = DeviceInfoResponse i))"

definition finished :: "exchange \<Rightarrow> message result option" where
  "finished e = (case ex_phase e of Holding r \<Rightarrow> Some r | Returned r \<Rightarrow> Some r | _ \<Rightarrow> None)"

text \<open>The invariant of an exchange beside a client that is closed (\<open>d\<close>) or not.\<close>

definition exchange_ok :: "bool \<Rightarrow> exchange \<Rightarrow> bool" where
  "exchange_ok d e \<longleftrightarrow>
    (ex_phase e = Waiting \<longrightarrow> ex_verdict e = 0 \<and> \<not> ex_fired e \<and> \<not> ex_sent e) \<and>
    (ex_phase e = Sending \<longrightarrow> \<not> ex_sent e) \<and>
    (ex_phase e = Receiving \<longrightarrow> ex_sent e) \<and>
    (\<forall>m. finished e = Some (Inr m) \<longrightarrow>
      ex_sent e \<and> ex_verdict e = verdictCompleted \<and> answers (ex_kind e) m) \<and>
    (\<forall>err. finished e = Some (Inl err) \<longrightarrow> errors_is err (category (ex_kind e))) \<and>
    (\<forall>err. finished e = Some (Inl err) \<and> ex_sent e \<longrightarrow> ex_verdict e = verdictExpired \<or> d) \<and>
    (ex_verdict e = verdictCompleted \<longrightarrow> (\<exists>m. finished e = Some (Inr m))) \<and>
    ex_verdict e \<in> {0, verdictCompleted, verdictExpired} \<and>
    (ex_verdict e = verdictExpired \<longrightarrow> ex_closing e \<noteq> None \<or> d) \<and>
    (ex_closing e \<noteq> None \<longrightarrow> ex_verdict e = verdictExpired) \<and>
    (ex_fired e \<longrightarrow> ex_cause e \<noteq> None)"

lemma exchange_errors [simp]:
  "errors_is (not_started kind cause) (category kind)"
  "errors_is (no_response kind cause) (category kind)"
  "errors_is (send_failed kind err c') (category kind)"
  "errors_is (closedError (category kind) c) (category kind)"
  by (simp_all add: not_started_def category_def no_response_def send_failed_def closedError_def
      split: exchange_kind.split option.split)

lemma exchange_ok_mono: "exchange_ok d e \<Longrightarrow> d \<longrightarrow> d' \<Longrightarrow> exchange_ok d' e"
  unfolding exchange_ok_def by blast

lemma new_exchange_ok: "exchange_ok d (new_exchange kind)"
  by (simp add: exchange_ok_def new_exchange_def finished_def verdict_defs)

lemma ex_refuse_context_ok: "exchange_ok d e \<Longrightarrow> ex_refuse_context e = Some e' \<Longrightarrow> exchange_ok d e'"
  by (auto simp: ex_refuse_context_def exchange_ok_def finished_def verdict_defs
      split: exchange_phase.splits option.splits)

lemma ex_refuse_closed_ok: "exchange_ok d e \<Longrightarrow> ex_refuse_closed c e = Some e' \<Longrightarrow> exchange_ok d e'"
  by (auto simp: ex_refuse_closed_def exchange_ok_def finished_def verdict_defs split: if_splits)

lemma ex_acquire_ok: "exchange_ok d e \<Longrightarrow> ex_acquire n c e = Some (c', e') \<Longrightarrow> exchange_ok d e'"
  by (auto simp: ex_acquire_def split_beta exchange_ok_def finished_def verdict_defs split: if_splits)

lemma ex_context_ends_ok: "exchange_ok d e \<Longrightarrow> exchange_ok d (ex_context_ends cause e)"
  by (cases "ex_phase e") (auto simp: ex_context_ends_def exchange_ok_def finished_def)

lemma ex_watchdog_ok: "exchange_ok d e \<Longrightarrow> ex_watchdog e = Some e' \<Longrightarrow> exchange_ok d e'"
  by (cases "ex_phase e")
    (auto simp: ex_watchdog_def exchange_ok_def finished_def verdict_defs split: if_splits)

lemma ex_watchdog_close_ok:
  "exchange_ok d e \<Longrightarrow> ex_watchdog_close F c e = Some (c', e') \<Longrightarrow> exchange_ok (cl_done c') e'"
  by (cases "ex_phase e")
    (auto simp: ex_watchdog_close_def exchange_ok_def finished_def verdict_defs split: option.splits)

lemma ex_send_exchange:
  assumes "ex_send F pb c e = Some (c', e')"
  shows "ex_phase e = Sending \<and> (e' = e\<lparr>ex_phase := Receiving, ex_sent := True\<rparr> \<or>
    (\<exists>err. errors_is err (category (ex_kind e)) \<and> e' = e\<lparr>ex_phase := Holding (Inl err)\<rparr>))"
proof -
  obtain r c1 where r: "send F pb (request_of (ex_kind e)) c = (r, c1)"
    by (cases "send F pb (request_of (ex_kind e)) c")
  have sending: "ex_phase e = Sending"
    using assms by (simp add: ex_send_def split: if_splits)
  show ?thesis
  proof (cases r)
    case None
    then show ?thesis
      using assms r sending by (auto simp: ex_send_def)
  next
    case (Some err)
    then have "e' = e\<lparr>ex_phase := Holding (Inl (send_failed (ex_kind e) err (ex_cause e)))\<rparr>"
      using assms r sending by (simp add: ex_send_def)
    then show ?thesis
      using sending exchange_errors(3) by blast
  qed
qed

lemma ex_send_ok:
  assumes "exchange_ok d e" and "ex_send F pb c e = Some (c', e')"
  shows "exchange_ok d e'"
proof -
  have "exchange_ok d (e\<lparr>ex_phase := Receiving, ex_sent := True\<rparr>)" if "ex_phase e = Sending"
    using assms(1) that by (auto simp: exchange_ok_def finished_def verdict_defs)
  moreover have "exchange_ok d (e\<lparr>ex_phase := Holding (Inl err)\<rparr>)"
    if "ex_phase e = Sending" "errors_is err (category (ex_kind e))" for err
    using assms(1) that by (auto simp: exchange_ok_def finished_def verdict_defs)
  ultimately show ?thesis
    using ex_send_exchange[OF assms(2)] by blast
qed

lemma ex_receive_ok:
  assumes "exchange_ok d e" and "ex_receive n c e = Some e'"
    and "\<And>m. cl_channels c n = Some m \<Longrightarrow> answers (ex_kind e) m"
  shows "exchange_ok d e'"
  using assms by (auto simp: ex_receive_def exchange_ok_def finished_def verdict_defs
      split: exchange_phase.splits option.splits if_splits)

lemma ex_expire_ok:
  "exchange_ok (cl_done c) e \<Longrightarrow> ex_expire F c e = Some (c', e') \<Longrightarrow> exchange_ok (cl_done c') e'"
  by (auto simp: ex_expire_def Let_def exchange_ok_def finished_def verdict_defs
      split: exchange_phase.splits option.splits if_splits)

lemma ex_closed_ok:
  assumes "exchange_ok (cl_done c) e" and "ex_closed c e = Some e'"
  shows "exchange_ok (cl_done c) e'"
proof -
  obtain err where e: "ex_phase e = Receiving" "cl_done c" "e' = e\<lparr>ex_phase := Holding (Inl err)\<rparr>"
      "errors_is err (category (ex_kind e))"
    using assms(2) by (auto simp: ex_closed_def split: if_splits)
  moreover have "ex_verdict e \<noteq> verdictCompleted"
    using assms(1) e(1) by (auto simp: exchange_ok_def finished_def)
  ultimately show ?thesis
    using assms(1) by (simp add: exchange_ok_def finished_def)
qed

lemma ex_return_ok:
  assumes "exchange_ok d e" and "ex_return c e = Some (c', e')"
  shows "exchange_ok d e'"
proof -
  obtain r where r: "ex_phase e = Holding r" "e' = e\<lparr>ex_phase := Returned r\<rparr>"
    using assms(2) by (auto simp: ex_return_def split: exchange_phase.splits)
  then have "finished e' = finished e"
    by (simp add: finished_def)
  then show ?thesis
    using assms(1) r by (simp add: exchange_ok_def)
qed

section \<open>Gates\<close>

definition is_probe :: "exchange_kind \<Rightarrow> bool" where
  "is_probe kind = (case kind of Probe _ \<Rightarrow> True | DeviceInfoExchange \<Rightarrow> False)"

definition gate_of :: "bool \<Rightarrow> 'f client \<Rightarrow> bool" where
  "gate_of probe c = (if probe then cl_pingGate c else cl_deviceInfoGate c)"

text \<open>The exchanges of a kind between taking their gate and giving it back.\<close>

definition holds_gate :: "bool \<Rightarrow> exchange \<Rightarrow> bool" where
  "holds_gate probe e \<longleftrightarrow> is_probe (ex_kind e) = probe \<and>
    (case ex_phase e of Waiting \<Rightarrow> False | Returned _ \<Rightarrow> False | _ \<Rightarrow> True)"

definition gate_ok :: "bool \<Rightarrow> 'f session \<Rightarrow> bool" where
  "gate_ok probe s \<longleftrightarrow>
    length (filter (holds_gate probe) (se_exchanges s)) + of_bool (gate_of probe (se_client s)) = 1"

lemma length_filter_update:
  "n < length xs \<Longrightarrow>
    length (filter P (xs[n := x])) + of_bool (P (xs ! n)) = length (filter P xs) + of_bool (P x)"
proof (induction xs arbitrary: n)
  case (Cons y ys)
  show ?case
  proof (cases n)
    case (Suc k)
    then show ?thesis
      using Cons.IH[of k] Cons.prems by auto
  qed simp
qed simp

definition gate_balance :: "'f client \<Rightarrow> exchange \<Rightarrow> 'f client \<Rightarrow> exchange \<Rightarrow> bool" where
  "gate_balance c e c' e' \<longleftrightarrow>
    (\<forall>probe. (of_bool (holds_gate probe e') :: nat) + of_bool (gate_of probe c') =
      of_bool (holds_gate probe e) + of_bool (gate_of probe c))"

lemma gate_ok_update:
  assumes "gate_ok probe s" and "n < length (se_exchanges s)"
    and "gate_balance (se_client s) (se_exchanges s ! n) c e"
  shows "gate_ok probe (s\<lparr>se_client := c, se_exchanges := (se_exchanges s)[n := e]\<rparr>)"
  using assms(1) assms(3)[unfolded gate_balance_def, rule_format, of probe]
    length_filter_update[OF assms(2), of "holds_gate probe" e]
  unfolding gate_ok_def by simp

lemma gate_balance_still:
  "cl_pingGate c' = cl_pingGate c \<Longrightarrow> cl_deviceInfoGate c' = cl_deviceInfoGate c \<Longrightarrow>
    (\<And>probe. holds_gate probe e' = holds_gate probe e) \<Longrightarrow> gate_balance c e c' e'"
  by (simp add: gate_balance_def gate_of_def)

lemma gate_alt: "gate kind c = gate_of (is_probe kind) c"
  by (simp add: gate_def gate_of_def is_probe_def split: exchange_kind.split)

lemma gate_of_set_gate [simp]:
  "gate_of probe (set_gate kind b c) = (if probe = is_probe kind then b else gate_of probe c)"
  by (simp add: gate_of_def set_gate_def is_probe_def split: exchange_kind.split)

lemma gate_of_on [simp]: "gate_of probe (snd (on i h c)) = gate_of probe c"
  by (simp add: gate_of_def)

lemma gate_of_remove [simp]: "gate_of probe (remove_handler i t c) = gate_of probe c"
  by (simp add: gate_of_def)

lemma gate_of_channels [simp]: "gate_of probe (c\<lparr>cl_channels := x\<rparr>) = gate_of probe c"
  by (simp add: gate_of_def)

lemma ex_acquire_split:
  assumes "ex_acquire n c e = Some (c', e')"
  obtains token where "ex_phase e = Waiting" "gate (ex_kind e) c"
    "c' = snd (on (response_id (ex_kind e)) (hook (ex_kind e) n)
      (set_gate (ex_kind e) False (c\<lparr>cl_channels := (cl_channels c)(n := None)\<rparr>)))"
    "e' = e\<lparr>ex_phase := Sending, ex_token := token, ex_fired := (ex_cause e \<noteq> None)\<rparr>"
  using assms by (auto simp: ex_acquire_def split_beta split: if_splits)

lemma ex_acquire_balance:
  assumes "ex_acquire n c e = Some (c', e')"
  shows "gate_balance c e c' e'"
  using assms
  by (cases rule: ex_acquire_split) (auto simp: gate_balance_def gate_alt holds_gate_def)

lemma ex_return_balance:
  assumes "ex_return c e = Some (c', e')" and "\<not> gate (ex_kind e) c"
  shows "gate_balance c e c' e'"
proof -
  obtain r where r: "ex_phase e = Holding r" "e' = e\<lparr>ex_phase := Returned r\<rparr>"
    using assms(1) by (auto simp: ex_return_def split: exchange_phase.splits)
  then show ?thesis
    using assms(2) ex_return_client[OF assms(1)]
    by (auto simp: gate_balance_def holds_gate_def gate_alt)
qed

lemma holder_gate_taken:
  assumes "gate_ok probe s" and "n < length (se_exchanges s)" and "holds_gate probe (se_exchanges s ! n)"
  shows "\<not> gate_of probe (se_client s)"
proof
  assume "gate_of probe (se_client s)"
  then have "filter (holds_gate probe) (se_exchanges s) = []"
    using assms(1) by (simp add: gate_ok_def)
  then show False
    using assms(2,3) by (metis filter_empty_conv nth_mem)
qed

section \<open>Hooks and channels\<close>

text \<open>
  A hook belongs to an exchange of its kind, so what arrives in the channel of an exchange is always a
  response to its kind of request.
\<close>

definition hook_ok :: "exchange_kind list \<Rightarrow> handler \<Rightarrow> bool" where
  "hook_ok ks h \<longleftrightarrow>
    (case h of
      PingHook n \<Rightarrow> n < length ks \<and> is_probe (ks ! n)
    | InfoHook n \<Rightarrow> n < length ks \<and> \<not> is_probe (ks ! n)
    | _ \<Rightarrow> True)"

definition wired :: "exchange_kind list \<Rightarrow> 'f client \<Rightarrow> bool" where
  "wired ks c \<longleftrightarrow>
    (\<forall>i t h. cl_handlers c i t = Some h \<longrightarrow> hook_ok ks h) \<and>
    (\<forall>n m. cl_channels c n = Some m \<longrightarrow> n < length ks \<and> answers (ks ! n) m)"

lemma hook_ok_user [simp]: "hook_ok ks (StateHandler u)" "hook_ok ks (LogHandler v)"
  by (simp_all add: hook_ok_def)

lemma hook_ok_append: "hook_ok ks h \<Longrightarrow> hook_ok (ks @ ks') h"
  by (auto simp: hook_ok_def nth_append split: handler.splits)

lemma wired_append: "wired ks c \<Longrightarrow> wired (ks @ ks') c"
  unfolding wired_def by (auto simp: hook_ok_append nth_append trans_less_add1)

lemma wired_cong: "cl_handlers c' = cl_handlers c \<Longrightarrow> cl_channels c' = cl_channels c \<Longrightarrow> wired ks c' = wired ks c"
  by (simp add: wired_def)

lemma wired_updates [simp]:
  "wired ks (c\<lparr>cl_events := q\<rparr>) = wired ks c"
  "wired ks (c\<lparr>cl_callbacksDone := b\<rparr>) = wired ks c"
  "wired ks (c\<lparr>cl_framer := f\<rparr>) = wired ks c"
  "wired ks (forget_list a c) = wired ks c"
  "wired ks (snd (list_begin F pb c)) = wired ks c"
  by (simp_all add: wired_def)

lemma answers_probe: "is_probe kind \<Longrightarrow> answers kind m = (m = PingResponse)"
  by (simp add: is_probe_def answers_def split: exchange_kind.splits)

lemma answers_info: "\<not> is_probe kind \<Longrightarrow> answers kind m = (\<exists>i. m = DeviceInfoResponse i)"
  by (simp add: is_probe_def answers_def split: exchange_kind.splits)

lemma run_handler_wired: "wired ks c \<Longrightarrow> hook_ok ks h \<Longrightarrow> wired ks (run_handler h m c)"
  by (cases h) (auto simp: run_handler_alt offer_def wired_def hook_ok_def answers_probe answers_info)

lemma run_handlers_wired:
  "wired ks c \<Longrightarrow> list_all (hook_ok ks) hs \<Longrightarrow> wired ks (fold (\<lambda>h. run_handler h m) hs c)"
  by (induction hs arbitrary: c) (simp_all add: run_handler_wired)

lemma callbacks_hooks: "wired ks c \<Longrightarrow> list_all (hook_ok ks) (callbacks_for order i c)"
  by (auto simp: list_all_iff callbacks_for_def snapshot_values_def List.map_filter_def wired_def)

lemma deliverDirect_wired: "wired ks c \<Longrightarrow> wired ks (deliverDirect order m c)"
  unfolding deliverDirect_def by (auto split: sum.split intro: run_handlers_wired callbacks_hooks)

lemma on_wired: "wired ks c \<Longrightarrow> hook_ok ks h \<Longrightarrow> wired ks (snd (on i h c))"
  by (auto simp: wired_def on_def Let_def)

lemma remove_handler_wired: "wired ks c \<Longrightarrow> wired ks (remove_handler i t c)"
  by (auto simp: wired_def remove_handler_def split: if_splits)

lemma unsubscribe_wired: "wired ks c \<Longrightarrow> wired ks (unsubscribe rs c)"
  unfolding unsubscribe_def
  by (induction rs arbitrary: c) (simp_all add: remove_handler_wired split_beta)

lemma on_all_wired: "wired ks c \<Longrightarrow> hook_ok ks h \<Longrightarrow> wired ks (snd (on_all is h c))"
  by (induction "is" arbitrary: c) (simp_all add: split_beta on_wired)

lemma send_wired: "wired ks c \<Longrightarrow> wired ks (snd (send F pb m c))"
  by (simp add: wired_def)

lemma shutdown_wired: "wired ks c \<Longrightarrow> wired ks (shutdown F r c)"
  by (simp add: wired_def)

lemma SubscribeStates_wired: "wired ks c \<Longrightarrow> wired ks (snd (SubscribeStates F pb h c))"
  unfolding SubscribeStates_def
  by (auto simp: split_beta intro!: unsubscribe_wired send_wired on_all_wired split: option.split)

lemma SubscribeLogs_wired: "wired ks c \<Longrightarrow> wired ks (snd (SubscribeLogs F pb l h c))"
  unfolding SubscribeLogs_def
  by (auto simp: split_beta intro!: remove_handler_wired send_wired on_wired split: option.split)

lemma handle_step_wired: "wired ks c \<Longrightarrow> wired ks (snd (handle_incoming F pb order pick_done m c))"
  unfolding handle_step_snd[symmetric]
  by (cases rule: handle_step_split[where F = F and pb = pb and order = order and
        pick_done = pick_done and m = m and c = c])
    (simp_all only: send_wired shutdown_wired deliverDirect_wired, auto simp: wired_def)

lemma dispatch_event_wired:
  assumes "wired ks c"
  shows "wired ks (snd (dispatch_event order m c))"
    and "fst (dispatch_event order m c) = Calling m' hs \<Longrightarrow> list_all (hook_ok ks) hs"
proof -
  let ?c = "handleList m (c\<lparr>cl_entities := handle m (cl_entities c)\<rparr>)"
  have c: "wired ks ?c"
    using assms by (simp add: wired_def)
  show "wired ks (snd (dispatch_event order m c))"
    using c by (simp add: dispatch_event_def Let_def split: sum.split)
  show "fst (dispatch_event order m c) = Calling m' hs \<Longrightarrow> list_all (hook_ok ks) hs"
    using callbacks_hooks[OF c] by (auto simp: dispatch_event_def Let_def split: sum.splits)
qed

section \<open>The connection\<close>

abbreviation kinds :: "'f session \<Rightarrow> exchange_kind list" where
  "kinds s \<equiv> map ex_kind (se_exchanges s)"

definition exchanges_ok :: "'f session \<Rightarrow> bool" where
  "exchanges_ok s \<longleftrightarrow>
    list_all (exchange_ok (cl_done (se_client s))) (se_exchanges s) \<and>
    (\<forall>probe. gate_ok probe s) \<and>
    wired (kinds s) (se_client s) \<and>
    (\<forall>m hs. se_pc s = Calling m hs \<longrightarrow> list_all (hook_ok (kinds s)) hs)"

text \<open>A step that leaves the exchanges alone.\<close>

lemma exchanges_ok_client:
  assumes ok: "exchanges_ok s" and same: "se_exchanges s' = se_exchanges s"
    and "cl_done (se_client s) \<longrightarrow> cl_done (se_client s')"
    and "cl_pingGate (se_client s') = cl_pingGate (se_client s)"
    and "cl_deviceInfoGate (se_client s') = cl_deviceInfoGate (se_client s)"
    and "wired (kinds s) (se_client s')"
    and "\<And>m hs. se_pc s' = Calling m hs \<Longrightarrow> se_pc s' = se_pc s \<or> list_all (hook_ok (kinds s)) hs"
  shows "exchanges_ok s'"
proof -
  have "list_all (exchange_ok (cl_done (se_client s'))) (se_exchanges s')"
    using ok assms(3) unfolding exchanges_ok_def same by (auto simp: list_all_iff intro: exchange_ok_mono)
  moreover have "gate_ok probe s'" for probe
  proof -
    have "gate_of probe (se_client s') = gate_of probe (se_client s)"
      using assms(4,5) by (simp add: gate_of_def)
    then show ?thesis
      using ok unfolding exchanges_ok_def gate_ok_def same by simp
  qed
  moreover have "list_all (hook_ok (kinds s')) hs" if "se_pc s' = Calling m hs" for m hs
    using assms(7)[OF that] ok that unfolding exchanges_ok_def same by metis
  ultimately show ?thesis
    using assms(6) unfolding exchanges_ok_def same by blast
qed

lemma begin_exchange_ok: "exchanges_ok s \<Longrightarrow> exchanges_ok (begin_exchange kind s)"
  unfolding exchanges_ok_def
  by (auto simp: begin_exchange_def new_exchange_ok gate_ok_def wired_append list_all_iff hook_ok_append)
    (simp_all add: holds_gate_def new_exchange_def)

text \<open>A step of one exchange.\<close>

definition exchange_step_ok :: "nat \<Rightarrow> 'f client \<Rightarrow> exchange \<Rightarrow> 'f client \<Rightarrow> exchange \<Rightarrow> bool" where
  "exchange_step_ok n c e c' e' \<longleftrightarrow>
    exchange_ok (cl_done c') e' \<and> ex_kind e' = ex_kind e \<and> (cl_done c \<longrightarrow> cl_done c') \<and>
    gate_balance c e c' e' \<and>
    (\<forall>ks. wired ks c \<and> n < length ks \<and> ks ! n = ex_kind e \<longrightarrow> wired ks c')"

lemma on_exchange_ok:
  assumes step: "on_exchange n f s = Some s'" and ok: "exchanges_ok s"
    and f: "\<And>c e. f (se_client s) (se_exchanges s ! n) = Some (c, e) \<Longrightarrow> n < length (se_exchanges s) \<Longrightarrow>
      exchange_step_ok n (se_client s) (se_exchanges s ! n) c e"
  shows "exchanges_ok s'"
proof -
  obtain c e where n: "n < length (se_exchanges s)"
      and fe: "f (se_client s) (se_exchanges s ! n) = Some (c, e)"
      and s': "s' = s\<lparr>se_client := c, se_exchanges := (se_exchanges s)[n := e]\<rparr>"
    using step unfolding on_exchange_some by blast
  note good = f[OF fe n, unfolded exchange_step_ok_def]
  have kinds: "kinds s' = kinds s"
    using good n by (simp add: s' map_update list_update_same_conv)
  have "list_all (exchange_ok (cl_done c)) ((se_exchanges s)[n := e])"
    using ok good unfolding exchanges_ok_def list_all_iff
    by (auto dest!: set_update_subset_insert[THEN subsetD] intro: exchange_ok_mono)
  moreover have "gate_ok probe s'" for probe
    unfolding s' using ok good n by (intro gate_ok_update) (auto simp: exchanges_ok_def)
  moreover have "wired (kinds s) c"
    using ok good n unfolding exchanges_ok_def by simp
  ultimately show ?thesis
    using ok kinds unfolding exchanges_ok_def by (simp add: s')
qed

lemma keeps_client_step_ok:
  "keeps_client f c e = Some (c', e') \<Longrightarrow> exchange_ok (cl_done c) e' \<Longrightarrow> ex_kind e' = ex_kind e \<Longrightarrow>
    (\<And>probe. holds_gate probe e' = holds_gate probe e) \<Longrightarrow> exchange_step_ok n c e c' e'"
  by (auto simp: keeps_client_some exchange_step_ok_def intro: gate_balance_still)

lemma refuse_context_step:
  assumes "exchange_ok (cl_done c) e" and step: "keeps_client (\<lambda>_. ex_refuse_context) c e = Some (c', e')"
  shows "exchange_step_ok n c e c' e'"
proof -
  from step obtain r where "ex_phase e = Waiting" "e' = e\<lparr>ex_phase := Returned r\<rparr>"
    by (auto simp: keeps_client_some ex_refuse_context_def split: exchange_phase.splits option.splits)
  moreover have "exchange_ok (cl_done c) e'"
    using assms ex_refuse_context_ok by (simp add: keeps_client_some)
  ultimately show ?thesis
    by (intro keeps_client_step_ok[OF step]) (auto simp: holds_gate_def)
qed

lemma refuse_closed_step:
  assumes "exchange_ok (cl_done c) e" and step: "keeps_client ex_refuse_closed c e = Some (c', e')"
  shows "exchange_step_ok n c e c' e'"
proof -
  from step obtain r where "ex_phase e = Waiting" "e' = e\<lparr>ex_phase := Returned r\<rparr>"
    by (auto simp: keeps_client_some ex_refuse_closed_def split: if_splits)
  moreover have "exchange_ok (cl_done c) e'"
    using assms by (auto simp: keeps_client_some intro: ex_refuse_closed_ok)
  ultimately show ?thesis
    by (intro keeps_client_step_ok[OF step]) (auto simp: holds_gate_def)
qed

lemma acquire_step:
  assumes e: "exchange_ok (cl_done c) e" and step: "ex_acquire n c e = Some (c', e')"
  shows "exchange_step_ok n c e c' e'"
proof -
  have "wired ks c'" if "wired ks c" "n < length ks" "ks ! n = ex_kind e" for ks
    using step
  proof (cases rule: ex_acquire_split)
    case (1 token)
    have "wired ks (set_gate (ex_kind e) False (c\<lparr>cl_channels := (cl_channels c)(n := None)\<rparr>))"
      using that(1) by (auto simp: wired_def)
    moreover have "hook_ok ks (hook (ex_kind e) n)"
      using that(2,3) by (simp add: hook_ok_def hook_def is_probe_def split: exchange_kind.splits)
    ultimately show ?thesis
      unfolding 1(3) by (rule on_wired)
  qed
  then show ?thesis
    unfolding exchange_step_ok_def
    using ex_acquire_ok[OF e step] ex_acquire_balance[OF step] ex_acquire_frame(4)[OF step] step
    by (auto elim: ex_acquire_split)
qed

lemma context_step:
  assumes e: "exchange_ok (cl_done c) e"
    and step: "keeps_client (\<lambda>_ e. Some (ex_context_ends cause e)) c e = Some (c', e')"
  shows "exchange_step_ok n c e c' e'"
proof -
  have e': "e' = ex_context_ends cause e"
    using step by (simp add: keeps_client_some)
  show ?thesis
    by (rule keeps_client_step_ok[OF step])
      (use ex_context_ends_ok[OF e] in \<open>simp_all add: e' ex_context_ends_def holds_gate_def\<close>)
qed

lemma watchdog_step:
  assumes e: "exchange_ok (cl_done c) e"
    and step: "keeps_client (\<lambda>_. ex_watchdog) c e = Some (c', e')"
  shows "exchange_step_ok n c e c' e'"
proof -
  have e': "ex_watchdog e = Some e'"
    using step by (simp add: keeps_client_some)
  then have "ex_kind e' = ex_kind e" "ex_phase e' = ex_phase e"
    by (auto simp: ex_watchdog_def split: if_splits)
  then show ?thesis
    using ex_watchdog_ok[OF e e'] by (intro keeps_client_step_ok[OF step]) (simp_all add: holds_gate_def)
qed

lemma watchdog_close_step:
  assumes e: "exchange_ok (cl_done c) e" and step: "ex_watchdog_close F c e = Some (c', e')"
  shows "exchange_step_ok n c e c' e'"
proof -
  have "ex_kind e' = ex_kind e" "ex_phase e' = ex_phase e"
    using step by (auto simp: ex_watchdog_close_def split: option.splits)
  then have "holds_gate probe e' = holds_gate probe e" for probe
    by (simp add: holds_gate_def)
  then show ?thesis
    using ex_watchdog_close_ok[OF e step] ex_watchdog_close_client[OF step] \<open>ex_kind e' = ex_kind e\<close>
    by (auto simp: exchange_step_ok_def shutdown_wired intro: gate_balance_still)
qed

lemma send_step:
  assumes e: "exchange_ok (cl_done c) e" and step: "ex_send F pb c e = Some (c', e')"
  shows "exchange_step_ok n c e c' e'"
proof -
  have kind: "ex_kind e' = ex_kind e"
    using ex_send_exchange[OF step] by auto
  have "holds_gate probe e' = holds_gate probe e" for probe
    using ex_send_exchange[OF step] by (auto simp: holds_gate_def)
  then show ?thesis
    using ex_send_ok[OF e step] ex_send_client[OF step] kind
    by (auto simp: exchange_step_ok_def send_wired intro: gate_balance_still)
qed

lemma receive_step:
  assumes e: "exchange_ok (cl_done c) e" and step: "keeps_client (ex_receive n) c e = Some (c', e')"
    and "\<And>m. cl_channels c n = Some m \<Longrightarrow> answers (ex_kind e) m"
  shows "exchange_step_ok n c e c' e'"
proof -
  have e': "ex_receive n c e = Some e'"
    using step by (simp add: keeps_client_some)
  then have "ex_kind e' = ex_kind e" "ex_phase e = Receiving" "\<exists>r. ex_phase e' = Holding r"
    by (auto simp: ex_receive_def split: exchange_phase.splits option.splits if_splits)
  then show ?thesis
    using ex_receive_ok[OF e e' assms(3)]
    by (intro keeps_client_step_ok[OF step]) (auto simp: holds_gate_def)
qed

lemma expire_step:
  assumes e: "exchange_ok (cl_done c) e" and step: "ex_expire F c e = Some (c', e')"
  shows "exchange_step_ok n c e c' e'"
proof -
  have kind: "ex_kind e' = ex_kind e" "ex_phase e = Receiving" "\<exists>r. ex_phase e' = Holding r"
    using step by (auto simp: ex_expire_def Let_def split: exchange_phase.splits option.splits if_splits)
  then have "holds_gate probe e' = holds_gate probe e" for probe
    by (auto simp: holds_gate_def)
  then show ?thesis
    using ex_expire_ok[OF e step] ex_expire_client[OF step] kind(1)
    by (auto simp: exchange_step_ok_def shutdown_wired intro: gate_balance_still)
qed

lemma closed_step:
  assumes e: "exchange_ok (cl_done c) e" and step: "keeps_client ex_closed c e = Some (c', e')"
  shows "exchange_step_ok n c e c' e'"
proof -
  have e': "ex_closed c e = Some e'"
    using step by (simp add: keeps_client_some)
  then have "ex_kind e' = ex_kind e" "ex_phase e = Receiving" "\<exists>r. ex_phase e' = Holding r"
    by (auto simp: ex_closed_def split: if_splits)
  then show ?thesis
    using ex_closed_ok[OF e e'] by (intro keeps_client_step_ok[OF step]) (auto simp: holds_gate_def)
qed

lemma return_step:
  assumes e: "exchange_ok (cl_done c) e" and step: "ex_return c e = Some (c', e')"
    and "\<not> gate (ex_kind e) c"
  shows "exchange_step_ok n c e c' e'"
proof -
  have "ex_kind e' = ex_kind e"
    using step by (auto simp: ex_return_def split: exchange_phase.splits)
  moreover have "wired ks (set_gate (ex_kind e) True (remove_handler i t c))" if "wired ks c" for ks i t
    using remove_handler_wired[OF that] by (simp add: wired_def)
  ultimately show ?thesis
    using ex_return_ok[OF e step] ex_return_client[OF step] ex_return_balance[OF step assms(3)]
    by (simp add: exchange_step_ok_def)
qed

lemma session_exchange_step_ok:
  assumes ok: "exchanges_ok s" and step: "session_step F pb a s = Some s'"
    and a: "a = DoRefuseContext n \<or> a = DoRefuseClosed n \<or> a = DoAcquire n \<or>
      a = DoExchangeContext n cause \<or> a = DoWatchdog n \<or> a = DoWatchdogClose n \<or>
      a = DoExchangeSend n \<or> a = DoReceive n \<or> a = DoExpire n \<or> a = DoExchangeClosed n \<or> a = DoReturn n"
  shows "exchanges_ok s'"
proof (cases "n < length (se_exchanges s)")
  case True
  let ?c = "se_client s" and ?e = "se_exchanges s ! n"
  have e: "exchange_ok (cl_done ?c) ?e"
    using ok True unfolding exchanges_ok_def by (simp add: list_all_length)
  have chan: "answers (ex_kind ?e) m" if "cl_channels ?c n = Some m" for m
    using ok that True unfolding exchanges_ok_def wired_def by fastforce
  have taken: "\<not> gate (ex_kind ?e) ?c" if "ex_return ?c ?e = Some ce" for ce
    using ok that True unfolding exchanges_ok_def gate_alt
    by (intro holder_gate_taken) (auto simp: holds_gate_def ex_return_def split: exchange_phase.splits)
  from a step obtain f where f: "on_exchange n f s = Some s'"
      "f = keeps_client (\<lambda>_. ex_refuse_context) \<or> f = keeps_client ex_refuse_closed \<or> f = ex_acquire n \<or>
       f = keeps_client (\<lambda>_ e. Some (ex_context_ends cause e)) \<or> f = keeps_client (\<lambda>_. ex_watchdog) \<or>
       f = ex_watchdog_close F \<or> f = ex_send F pb \<or> f = keeps_client (ex_receive n) \<or> f = ex_expire F \<or>
       f = keeps_client ex_closed \<or> f = ex_return"
    by (auto simp: session_step_def)
  show ?thesis
    by (rule on_exchange_ok[OF f(1) ok])
      (use f(2) e chan taken in \<open>blast intro: refuse_context_step refuse_closed_step acquire_step
        context_step watchdog_step watchdog_close_step send_step receive_step expire_step closed_step
        return_step\<close>)
next
  case False
  then show ?thesis
    using a step by (auto simp: session_step_def on_exchange_def)
qed

lemma dispatch_step_wired:
  assumes step: "dispatch_step order take_event pc c = Some (pc', c')"
    and w: "wired ks c" and calling: "\<And>m hs. pc = Calling m hs \<Longrightarrow> list_all (hook_ok ks) hs"
  shows "wired ks c' \<and> (\<forall>m hs. pc' = Calling m hs \<longrightarrow> list_all (hook_ok ks) hs)"
proof (cases pc)
  case Idle
  show ?thesis
  proof (cases "cl_events c \<noteq> [] \<and> \<not> cl_done c")
    case True
    then obtain m q where q: "cl_events c = m # q"
      by (meson list.exhaust)
    then have "(pc', c') = dispatch_event order m (c\<lparr>cl_events := q\<rparr>)"
      using step Idle True by (simp add: dispatch_step_def)
    then show ?thesis
      using dispatch_event_wired[of ks "c\<lparr>cl_events := q\<rparr>" order m] w by (metis fst_conv snd_conv wired_updates(1))
  next
    case False
    then show ?thesis
      using step Idle w by (auto simp: dispatch_step_def stop_dispatch_def split: list.splits if_splits)
  qed
next
  case (Calling m hs)
  then show ?thesis
    using step w calling[OF Calling]
    by (cases hs) (auto simp: dispatch_step_def stop_dispatch_def run_handler_wired split: if_splits)
qed (use step in \<open>simp add: dispatch_step_def\<close>)

lemma dispatch_step_gates:
  assumes "dispatch_step order take_event pc c = Some (pc', c')"
  shows "cl_done c' = cl_done c" "cl_pingGate c' = cl_pingGate c" "cl_deviceInfoGate c' = cl_deviceInfoGate c"
proof -
  have "cl_done (snd (dispatch_event order m c)) = cl_done c \<and>
      cl_pingGate (snd (dispatch_event order m c)) = cl_pingGate c \<and>
      cl_deviceInfoGate (snd (dispatch_event order m c)) = cl_deviceInfoGate c" for m and c :: "'a client"
    by (simp add: dispatch_event_def Let_def split: sum.split)
  from this[of "hd (cl_events c)" "c\<lparr>cl_events := tl (cl_events c)\<rparr>"]
  show "cl_done c' = cl_done c" "cl_pingGate c' = cl_pingGate c" "cl_deviceInfoGate c' = cl_deviceInfoGate c"
    using assms by (auto simp: dispatch_step_def stop_dispatch_def
        split: dispatch_pc.splits list.splits if_splits)
qed

lemma dispatcher_step_ok:
  assumes "dispatcher_step order take_event s = Some s'" and ok: "exchanges_ok s"
  shows "exchanges_ok s'"
proof -
  obtain pc c where step: "dispatch_step order take_event (se_pc s) (se_client s) = Some (pc, c)"
      and s': "se_client s' = c" "se_pc s' = pc" "se_exchanges s' = se_exchanges s"
    using assms(1) by (auto simp: dispatcher_step_def Let_def split: if_splits option.splits)
  have "wired (kinds s) c \<and> (\<forall>m hs. pc = Calling m hs \<longrightarrow> list_all (hook_ok (kinds s)) hs)"
    using ok by (intro dispatch_step_wired[OF step]) (auto simp: exchanges_ok_def)
  then show ?thesis
    using s' dispatch_step_gates[OF step] by (intro exchanges_ok_client[OF ok]) auto
qed

lemma handle_incoming_gates [simp]:
  "cl_pingGate (snd (handle_incoming F pb order pick_done m c)) = cl_pingGate c"
  "cl_deviceInfoGate (snd (handle_incoming F pb order pick_done m c)) = cl_deviceInfoGate c"
  unfolding handle_step_snd[symmetric]
  by (cases rule: handle_step_split[where F = F and pb = pb and order = order and
        pick_done = pick_done and m = m and c = c], simp_all del: handle_step_snd)+

lemma closes_done: "closes c c' \<Longrightarrow> cl_done c \<longrightarrow> cl_done c'"
  by (auto simp: closes_def)

lemma session_step_exchanges:
  assumes step: "session_step F pb a s = Some s'" and ok: "exchanges_ok s"
  shows "exchanges_ok s'"
proof -
  note client = exchanges_ok_client[OF ok _ closes_done[OF session_step_closes[OF step]]]
  have w: "wired (kinds s) (se_client s)"
    using ok by (simp add: exchanges_ok_def)
  show ?thesis
  proof (cases a)
    case DoRead
    then have "reader_step F pb s = Some s'"
      using step by (simp add: session_step_def)
    then show ?thesis
    proof (cases rule: reader_step_split)
      case (1 f r)
      then show ?thesis
        using w by (intro client) simp_all
    next
      case (2 f r e)
      then show ?thesis
        using w by (intro client) (simp_all add: shutdown_wired)
    qed
  next
    case (DoHandle ord pick)
    then show ?thesis
      using step w handle_step_wired
      by (intro client) (auto simp: session_step_def handler_step_def split_beta
          split: reader.splits if_splits)
  next
    case (DoDispatch ord pick)
    then show ?thesis
      using step ok dispatcher_step_ok by (simp add: session_step_def)
  next
    case (DoSubscribeStates h)
    then show ?thesis
      using step w by (intro client) (auto simp: session_step_def subscribed_frame SubscribeStates_wired)
  next
    case (DoSubscribeLogs l h)
    then show ?thesis
      using step w by (intro client) (auto simp: session_step_def subscribed_frame SubscribeLogs_wired)
  next
    case (DoUnsubscribe i)
    then show ?thesis
      using step w
      by (intro client) (auto simp: session_step_def unsubscribe_step_def unsubscribe_wired split: if_splits)
  next
    case DoListBegin
    then have lb: "list_begin_step F pb s = Some s'"
      using step by (simp add: session_step_def)
    show ?thesis
      using list_begin_step_frame[OF lb] w by (intro client) simp_all
  next
    case (DoListEnd x w')
    then show ?thesis
      using step w by (intro client) (auto simp: session_step_def list_end_step_def
          split: if_splits option.splits dest!: list_end_client)
  next
    case DoKeepaliveResult
    then have "keepalive_result F s = Some s'"
      using step by (simp add: session_step_def)
    then show ?thesis
    proof (cases rule: keepalive_result_split)
      case 1
      then show ?thesis
        using w by (intro client) simp_all
    next
      case (2 n err)
      then show ?thesis
        using w by (intro client) (simp_all add: shutdown_wired)
    qed
  next
    case DoKeepaliveTick
    then obtain s1 where "exchanges_ok s1" "se_exchanges s' = se_exchanges s1" "se_client s' = se_client s1"
        "se_pc s' = se_pc s1"
      using step begin_exchange_ok[OF ok, of "Probe ErrKeepalive"]
      by (auto simp: session_step_def keepalive_tick_def split: if_splits)
    then show ?thesis
      by (simp add: exchanges_ok_def gate_ok_def)
  next
    case DoPing
    then show ?thesis
      using step ok begin_exchange_ok by (auto simp: session_step_def)
  next
    case DoDeviceInfo
    then show ?thesis
      using step ok begin_exchange_ok by (auto simp: session_step_def)
  next
    case (DoContextEnded cause)
    then show ?thesis
      using step w by (intro client) (auto simp: session_step_def context_ended_def shutdown_wired)
  next
    case DoClose
    then show ?thesis
      using step w by (intro client) (auto simp: session_step_def Close_def shutdown_wired)
  next
    case (DoSend m)
    then show ?thesis
      using step w by (intro client) (auto simp: session_step_def send_wired)
  next
    case DoKeepaliveClosed
    then show ?thesis
      using step w by (intro client) (auto simp: session_step_def keepalive_closed_def split: if_splits)
  qed (use session_exchange_step_ok[OF ok step] in blast)+
qed

lemma reachable_exchanges: "reachable F pb s \<Longrightarrow> exchanges_ok s"
proof (induction rule: reachable.induct)
  case (reachable_start c keepalive)
  then show ?case
    by (auto simp: dialed_client_def start_session_def exchanges_ok_def newClient_def gate_ok_def
        gate_of_def wired_def)
next
  case (reachable_step s a s')
  then show ?case
    by (blast intro: session_step_exchanges)
qed

end
