(* ===== verification/Client_Properties.thy ===== *)
theory Client_Properties
  imports Exchange_Invariants Client_Dial
begin

text \<open>
  The properties of an established connection that follow from its invariants, each with a witness on a
  concrete run over a plaintext connection.
\<close>

section \<open>A concrete connection\<close>

text \<open>The peer's bytes are frames without payload, so the runtime of the witnesses only needs messages
  without fields.\<close>

definition empty_frame :: "u32 \<Rightarrow> bytes" where
  "empty_frame t = 0 # put_uvarint 0 @ put_uvarint (ucast t)"

definition demo_conn :: "u32 list \<Rightarrow> u32 list \<Rightarrow> conn" where
  "demo_conn ins outs =
    \<lparr>cn_in = \<lparr>pending = concat (map empty_frame ins), failing = Err EOF\<rparr>,
     cn_out = \<lparr>sent = concat (map empty_frame outs), outcomes = []\<rparr>, cn_closed = False\<rparr>"

definition demo_session :: "u32 list \<Rightarrow> (plain_framer \<times> conn) session" where
  "demo_session ins = start_session False
    ((newClient (NewPlainFramer 0, demo_conn ins []) 4)\<lparr>cl_connected := True\<rparr>)"

lemma demo_reachable: "reachable plain_ops pb (demo_session bs)"
proof -
  have "dialed_client ((newClient (NewPlainFramer 0, demo_conn bs []) 4)\<lparr>cl_connected := True\<rparr>)"
    unfolding dialed_client_def
    by (intro exI[of _ "(NewPlainFramer 0, demo_conn bs [])"] exI[of _ 4] exI[of _ 0] exI[of _ "''''"] conjI)
      (simp_all add: newClient_def)
  then show ?thesis
    unfolding demo_session_def by (rule reachable_start)
qed

lemma demo_read [simp]:
  "fr_ReadFrame plain_ops (NewPlainFramer n, demo_conn (t # ins) outs) =
    (Inr (t, []), NewPlainFramer n, demo_conn ins outs)"
proof -
  have "plain_encode (NewPlainFramer n) (t, []) = Inr (empty_frame t)"
    by (simp add: plain_encode_def empty_frame_def)
  from plain_dec_enc [OF this, where s = "\<lparr>pending = concat (map empty_frame ins), failing = Err EOF\<rparr>"
      and rest = "concat (map empty_frame ins)"]
  show ?thesis by (simp add: demo_conn_def plain_read_def plain_ops_def)
qed

lemma demo_write [simp]:
  "fr_WriteFrame plain_ops t [] (NewPlainFramer n, demo_conn ins outs) =
    (None, NewPlainFramer n, demo_conn ins (outs @ [t]))"
  by (simp add: plain_write_def demo_conn_def plain_WriteFrame_encode plain_encode_def write_full_ok
      empty_frame_def plain_ops_def)

lemma demo_send:
  "m \<in> set empty_messages \<Longrightarrow> MessageID api_registry (Some m) = Inr i \<Longrightarrow> \<not> cl_done c \<Longrightarrow>
    cl_framer c = Some (NewPlainFramer n, demo_conn ins outs) \<Longrightarrow>
    send plain_ops fieldless_protobuf m c =
      (None, c\<lparr>cl_framer := Some (NewPlainFramer n, demo_conn ins (outs @ [i]))\<rparr>)"
  by (simp add: send_def fieldless_protobuf_def)

lemma demo_read_message:
  "m \<in> set empty_messages \<Longrightarrow> MessageID api_registry (Some m) = Inr i \<Longrightarrow>
    cl_framer c = Some (NewPlainFramer n, demo_conn (i # ins) outs) \<Longrightarrow>
    read_message plain_ops fieldless_protobuf c =
      (Handling m, c\<lparr>cl_framer := Some (NewPlainFramer n, demo_conn ins outs)\<rparr>)"
  using decode_of_marshal [OF fieldless_protobuf_ok, of m i "[]"]
  by (simp add: read_message_def fieldless_protobuf_def Let_def)

lemma demo_ids:
  "MessageID api_registry (Some ListEntitiesDoneResponse) = Inr 19"
  "MessageID api_registry (Some ListEntitiesRequest) = Inr 11"
  "MessageID api_registry (Some PingRequest) = Inr 7"
  "MessageID api_registry (Some PingResponse) = Inr 8"
  by (simp_all add: MessageID_eq_Inr)

lemmas demo_run = demo_ids
  demo_read_message[of ListEntitiesDoneResponse 19] demo_send[of ListEntitiesRequest 11]
  demo_read_message[of PingResponse 8] demo_send[of PingRequest 7]
  session_step_def demo_session_def start_session_def newClient_def empty_messages_def
  list_begin_step_def list_begin_def reader_step_def handler_step_def handle_step_def
  handle_incoming_def enqueue_def dispatcher_step_def dispatch_step_def dispatch_event_def
  visits_handlers_def visits_def handleList_def callbacks_for_def

text \<open>One message is read, accepted and handled.\<close>

lemma demo_list_run:
  "\<exists>s. session_run plain_ops fieldless_protobuf [DoListBegin, DoRead, DoHandle [] False, DoDispatch [] False]
      (demo_session [19]) = Some s \<and>
    se_handled s = [ListEntitiesDoneResponse] \<and> se_accepted s = [ListEntitiesDoneResponse] \<and>
    se_listStart s 0 = 0 \<and> list_end 0 ListDone (se_client s) = Some (Inr [], forget_list 0 (se_client s))"
  by (simp add: demo_run list_end_def)

lemmas demo_exchange =
  begin_exchange_def new_exchange_def on_exchange_def keeps_client_def ex_acquire_def ex_send_def
  ex_context_ends_def ex_watchdog_def ex_expire_def ex_return_def ex_receive_def gate_def set_gate_def
  on_def remove_handler_def hook_def response_id_def request_of_def Let_def category_def verdict_defs
  deliverDirect_def snapshot_values_def run_handler_alt offer_def

text \<open>One probe is answered.\<close>

lemma demo_ping_run:
  "\<exists>s. session_run plain_ops fieldless_protobuf
      [DoPing, DoAcquire 0, DoExchangeSend 0, DoRead, DoHandle [1] False, DoReceive 0, DoReturn 0]
      (demo_session [8]) = Some s \<and>
    length (se_exchanges s) = 1 \<and> ex_phase (se_exchanges s ! 0) = Returned (Inr PingResponse)"
  by (simp add: demo_run demo_exchange)

section \<open>Properties\<close>

text \<open>C1. Whatever the schedule, the dispatcher handles the messages in the order the reader accepted
  them, none twice, and only the last accepted ones can be missing; the queue never exceeds its size, and
  the entity registry is exactly the effect of the handled messages in that order. While the connection
  is open, no accepted message is lost.\<close>

theorem events_handled_in_order:
  assumes "reachable F pb s"
  shows "length (cl_events (se_client s)) \<le> cl_queueSize (se_client s) \<and>
    cl_entities (se_client s) = fold handle (se_handled s) newEntityRegistry \<and>
    take (length (se_handled s)) (se_accepted s) = se_handled s \<and>
    (cl_done (se_client s) \<or> se_accepted s = se_handled s @ cl_events (se_client s))"
  using reachable_stream[OF assms] unfolding stream_ok_def by auto

lemma events_handled_in_order_witness:
  "\<exists>s. session_run plain_ops fieldless_protobuf [DoListBegin, DoRead, DoHandle [] False, DoDispatch [] False]
      (demo_session [19]) = Some s \<and> se_handled s = [ListEntitiesDoneResponse] \<and>
    cl_entities (se_client s) = fold handle [ListEntitiesDoneResponse] newEntityRegistry"
proof -
  obtain s where s: "session_run plain_ops fieldless_protobuf
      [DoListBegin, DoRead, DoHandle [] False, DoDispatch [] False] (demo_session [19]) = Some s"
      "se_handled s = [ListEntitiesDoneResponse]"
    using demo_list_run by blast
  then show ?thesis
    using events_handled_in_order[OF reachable_run[OF demo_reachable s(1)]] by auto
qed

text \<open>C11. Closing is final and keeps its first reason: a connection is connected exactly until it is
  closed and has no reason before; once closed, whatever runs afterwards, it stays closed for the same
  reason.\<close>

theorem close_is_final:
  assumes "reachable F pb s" and "session_run F pb as s = Some s'"
  shows "cl_connected (se_client s) = (\<not> cl_done (se_client s)) \<and>
    (if cl_done (se_client s)
     then cl_done (se_client s') \<and> \<not> cl_connected (se_client s') \<and>
       CloseReason (se_client s') = CloseReason (se_client s)
     else CloseReason (se_client s) = None)"
  using reachable_open[OF assms(1)] session_run_closed[OF assms(2)] by (auto simp: CloseReason_def)

lemma close_is_final_witness:
  "\<exists>s. session_run plain_ops fieldless_protobuf [DoClose, DoContextEnded (Err OsDeadlineExceeded)]
      (demo_session []) = Some s \<and> cl_done (se_client s) \<and> CloseReason (se_client s) = None"
proof -
  define t where "t = (demo_session [])\<lparr>se_client := Close plain_ops (se_client (demo_session []))\<rparr>"
  have t: "session_run plain_ops fieldless_protobuf [DoClose] (demo_session []) = Some t"
    by (simp add: t_def session_step_def)
  obtain s where s: "session_run plain_ops fieldless_protobuf [DoContextEnded (Err OsDeadlineExceeded)] t = Some s"
    by (simp add: session_step_def)
  have "cl_done (se_client t)" "CloseReason (se_client t) = None"
    by (simp_all add: t_def Close_def shutdown_def demo_session_def start_session_def newClient_def CloseReason_def)
  then have "cl_done (se_client s)" "CloseReason (se_client s) = None"
    using close_is_final[OF reachable_run[OF demo_reachable t] s] by auto
  moreover have "session_run plain_ops fieldless_protobuf [DoClose, DoContextEnded (Err OsDeadlineExceeded)]
      (demo_session []) = Some s"
    using t s by (auto split: option.splits)
  ultimately show ?thesis
    by blast
qed

text \<open>C3. A listing that completes returns exactly the list entities the dispatcher handled between the
  call and the first \<open>ListEntitiesDoneResponse\<close> after it, in their order.\<close>

theorem listing_is_exact:
  assumes "reachable F pb s" and "list_end a ListDone (se_client s) = Some (Inr ms, c)"
  shows "\<exists>before rest. drop (se_listStart s a) (se_handled s) = before @ ListEntitiesDoneResponse # rest \<and>
    ListEntitiesDoneResponse \<notin> set before \<and> ms = filter isListEntity before"
proof -
  obtain l where "cl_lists (se_client s) a = Some l" "lr_done l" "ms = lr_messages l"
    using assms(2) by (auto simp: list_end_def split: option.splits if_splits)
  then show ?thesis
    using reachable_lists[OF assms(1)] unfolding lists_ok_def completed_def by blast
qed

lemma listing_is_exact_witness:
  "\<exists>s before rest. session_run plain_ops fieldless_protobuf
      [DoListBegin, DoRead, DoHandle [] False, DoDispatch [] False] (demo_session [19]) = Some s \<and>
    drop (se_listStart s 0) (se_handled s) = before @ ListEntitiesDoneResponse # rest \<and>
    filter isListEntity before = []"
proof -
  obtain s where s: "session_run plain_ops fieldless_protobuf
      [DoListBegin, DoRead, DoHandle [] False, DoDispatch [] False] (demo_session [19]) = Some s"
      "list_end 0 ListDone (se_client s) = Some (Inr [], forget_list 0 (se_client s))"
    using demo_list_run by blast
  then show ?thesis
    using listing_is_exact[OF reachable_run[OF demo_reachable s(1)] s(2)] by metis
qed

text \<open>C12. At most one caller of each kind is between taking its gate and giving it back, and the gate is
  free exactly when there is none.\<close>

theorem gates_are_exclusive:
  assumes "reachable F pb s"
  shows "length (filter (holds_gate probe) (se_exchanges s)) = (if gate_of probe (se_client s) then 0 else 1)"
proof -
  have "gate_ok probe s"
    using reachable_exchanges[OF assms] by (simp add: exchanges_ok_def)
  then show ?thesis
    by (cases "gate_of probe (se_client s)") (simp_all add: gate_ok_def)
qed

lemma gates_are_exclusive_witness:
  "length (filter (holds_gate True) (se_exchanges (demo_session []))) = 0"
  using gates_are_exclusive[OF demo_reachable[where bs = "[]"], of True]
  by (simp add: gate_of_def demo_session_def start_session_def newClient_def)

text \<open>C2. What \<open>Ping\<close>, \<open>DeviceInfo\<close> and a keepalive probe report is true of the connection: success
  comes with a response of the right type to a request that was written, and its watchdog will never
  close the connection; a failure is in the category of the call, and if the request had been written,
  the connection is closed, or the watchdog has taken the verdict and is about to close it.\<close>

theorem exchange_outcome:
  assumes "reachable F pb s" and "n < length (se_exchanges s)"
    and "ex_phase (se_exchanges s ! n) = Returned r"
  shows "case r of
      Inr m \<Rightarrow> answers (ex_kind (se_exchanges s ! n)) m \<and> ex_sent (se_exchanges s ! n) \<and>
        ex_closing (se_exchanges s ! n) = None \<and> ex_watchdog (se_exchanges s ! n) = None
    | Inl err \<Rightarrow> errors_is err (category (ex_kind (se_exchanges s ! n))) \<and>
        (\<not> ex_sent (se_exchanges s ! n) \<or> cl_done (se_client s) \<or> ex_closing (se_exchanges s ! n) \<noteq> None)"
proof -
  have "exchange_ok (cl_done (se_client s)) (se_exchanges s ! n)"
    using reachable_exchanges[OF assms(1)] assms(2) by (simp add: exchanges_ok_def list_all_length)
  moreover have "finished (se_exchanges s ! n) = Some r"
    using assms(3) by (simp add: finished_def)
  ultimately show ?thesis
    by (cases r) (auto simp: exchange_ok_def ex_watchdog_def verdict_defs)
qed

lemma exchange_outcome_witness:
  "\<exists>s. session_run plain_ops fieldless_protobuf
      [DoPing, DoAcquire 0, DoExchangeSend 0, DoRead, DoHandle [1] False, DoReceive 0, DoReturn 0]
      (demo_session [8]) = Some s \<and> ex_sent (se_exchanges s ! 0) \<and> ex_closing (se_exchanges s ! 0) = None"
proof -
  obtain s where s: "session_run plain_ops fieldless_protobuf
      [DoPing, DoAcquire 0, DoExchangeSend 0, DoRead, DoHandle [1] False, DoReceive 0, DoReturn 0]
      (demo_session [8]) = Some s"
      "length (se_exchanges s) = 1" "ex_phase (se_exchanges s ! 0) = Returned (Inr PingResponse)"
    using demo_ping_run by blast
  then have "0 < length (se_exchanges s)"
    by simp
  then show ?thesis
    using exchange_outcome[OF reachable_run[OF demo_reachable s(1)] _ s(3)] s(1) by auto
qed

text \<open>An exchange takes at most three more steps of its own once its context has ended.\<close>

lemma ended_exchange_returns:
  assumes n: "n < length (se_exchanges s)" and cause: "ex_cause (se_exchanges s ! n) \<noteq> None"
  shows "\<exists>as s' r. length as \<le> 3 \<and> session_run F pb as s = Some s' \<and>
    ex_phase (se_exchanges s' ! n) = Returned r"
proof -
  have waiting: ?thesis if "ex_phase (se_exchanges s ! n) = Waiting"
    using that n cause by (intro exI[of _ "[DoRefuseContext n]"])
      (auto simp: session_step_def on_exchange_def keeps_client_def ex_refuse_context_def)
  have holding: "\<exists>s'. session_run F pb [DoReturn n] t = Some s' \<and> ex_phase (se_exchanges s' ! n) = Returned r"
    if "ex_phase (se_exchanges t ! n) = Holding r" "n < length (se_exchanges t)" for t :: "'a session" and r
    using that by (simp add: session_step_def on_exchange_def ex_return_def)
  have receiving: "\<exists>s' r. session_run F pb [DoExpire n, DoReturn n] t = Some s' \<and>
      ex_phase (se_exchanges s' ! n) = Returned r"
    if "ex_phase (se_exchanges t ! n) = Receiving" "n < length (se_exchanges t)"
      "ex_cause (se_exchanges t ! n) \<noteq> None" for t :: "'a session"
    using that by (auto simp: session_step_def on_exchange_def ex_return_def ex_expire_def Let_def)
  have sending: "\<exists>as s' r. length as \<le> 3 \<and> session_run F pb as s = Some s' \<and>
      ex_phase (se_exchanges s' ! n) = Returned r"
    if "ex_phase (se_exchanges s ! n) = Sending"
  proof -
    obtain r c where rc: "send F pb (request_of (ex_kind (se_exchanges s ! n))) (se_client s) = (r, c)"
      by fastforce
    show ?thesis
    proof (cases r)
      case None
      let ?t = "s\<lparr>se_client := c, se_exchanges := (se_exchanges s)[n := (se_exchanges s ! n)\<lparr>
        ex_phase := Receiving, ex_sent := True\<rparr>]\<rparr>"
      have "session_step F pb (DoExchangeSend n) s = Some ?t"
        using that n rc None by (simp add: session_step_def on_exchange_def ex_send_def)
      moreover obtain s' r where "session_run F pb [DoExpire n, DoReturn n] ?t = Some s'"
          "ex_phase (se_exchanges s' ! n) = Returned r"
        using receiving[of ?t] n cause by auto
      ultimately show ?thesis
        by (intro exI[of _ "[DoExchangeSend n, DoExpire n, DoReturn n]"] exI[of _ s'] exI[of _ r]) simp
    next
      case (Some err)
      let ?e = "se_exchanges s ! n"
      let ?t = "s\<lparr>se_client := c, se_exchanges := (se_exchanges s)[n := ?e\<lparr>
        ex_phase := Holding (Inl (send_failed (ex_kind ?e) err (ex_cause ?e)))\<rparr>]\<rparr>"
      have "session_step F pb (DoExchangeSend n) s = Some ?t"
        using that n rc Some by (simp add: session_step_def on_exchange_def ex_send_def)
      moreover obtain s' where "session_run F pb [DoReturn n] ?t = Some s'"
          "ex_phase (se_exchanges s' ! n) = Returned (Inl (send_failed (ex_kind ?e) err (ex_cause ?e)))"
        using holding[of ?t] n by auto
      ultimately show ?thesis
        by (intro exI[of _ "[DoExchangeSend n, DoReturn n]"] exI[of _ s']) auto
    qed
  qed
  show ?thesis
  proof (cases "ex_phase (se_exchanges s ! n)")
    case Receiving
    then show ?thesis
      using receiving[OF Receiving n cause] by (metis (no_types) eval_nat_numeral(3) le_SucI le_refl
          length_Cons list.size(3) numeral_2_eq_2)
  next
    case (Holding r)
    then show ?thesis
      using holding[OF Holding n] by (metis One_nat_def length_Cons list.size(3) numeral_3_eq_3
          le_SucI le_refl)
  next
    case (Returned r)
    then show ?thesis
      by (intro exI[of _ "[]"]) simp
  qed (use waiting sending in blast)+
qed



section \<open>The state stream\<close>

text \<open>The entity families of the protocol: the \<open>X\<close> with a message \<open>ListEntitiesXResponse\<close>.\<close>

definition api_ids :: "(string \<times> u32) list" where
  "api_ids = List.map_filter (\<lambda>d. map_option (Pair (desc_Name d)) (desc_id d)) api_descriptors"

definition family_of :: "string \<Rightarrow> string option" where
  "family_of n =
    (if take 12 n = ''ListEntities'' \<and> drop (length n - 8) n = ''Response''
     then Some (take (length n - 20) (drop 12 n)) else None)"

definition entity_families :: "string list" where
  "entity_families = List.map_filter (\<lambda>(n, i). family_of n) api_ids"

definition reports_state :: "string \<Rightarrow> bool" where
  "reports_state n =
    list_ex (\<lambda>x. n = x @ ''StateResponse'' \<or> n = x @ ''ImageResponse'' \<or> n = x @ ''Response'') entity_families"

lemma entity_families_eq:
  "entity_families = [''Done'', ''BinarySensor'', ''Cover'', ''Fan'', ''Light'', ''Sensor'',
    ''Switch'', ''TextSensor'', ''Services'', ''Camera'', ''Climate'', ''WaterHeater'', ''Number'',
    ''Select'', ''Siren'', ''Lock'', ''Button'', ''MediaPlayer'', ''AlarmControlPanel'', ''Text'',
    ''Date'', ''Time'', ''Event'', ''Valve'', ''DateTime'', ''Update'', ''Infrared'', ''RadioFrequency'']"
  by code_simp

lemma state_ids_eq:
  "map snd (filter (\<lambda>(n, i). reports_state n) api_ids) =
    [21, 22, 23, 24, 25, 26, 27, 44, 47, 133, 50, 53, 56, 59, 64, 95, 98, 101, 104, 108, 110, 113, 117]"
  unfolding reports_state_def entity_families_eq by code_simp

lemma api_ids_scanner: "(''BluetoothScannerStateResponse'', 126) \<in> set api_ids"
  by code_simp

text \<open>The ids \<open>SubscribeStates\<close> registers for are complete: exactly the state, image and event
  responses of the entity families of the protocol, and the Bluetooth scanner state, each once.\<close>

theorem state_ids_are_complete:
  "distinct stateResponseIDs \<and>
   (\<exists>i. (''BluetoothScannerStateResponse'', i) \<in> set api_ids \<and>
     set stateResponseIDs = insert i {j. \<exists>n. (n, j) \<in> set api_ids \<and> reports_state n})"
proof -
  have "{j. \<exists>n. (n, j) \<in> set api_ids \<and> reports_state n} =
      set (map snd (filter (\<lambda>(n, i). reports_state n) api_ids))"
    by force
  then have "set stateResponseIDs = insert 126 {j. \<exists>n. (n, j) \<in> set api_ids \<and> reports_state n}"
    unfolding state_ids_eq stateResponseIDs_def by auto
  then show ?thesis
    using api_ids_scanner by (auto simp: stateResponseIDs_def)
qed

section \<open>A late response\<close>

text \<open>
  The comment of \<open>Ping\<close> says that a probe whose context ends once the request may be in flight closes
  the connection, so that \<open>a late response can therefore never satisfy a later probe\<close>. The closing is the
  watchdog's second step. Between its two steps the expired probe can return and give back the gate, and
  a second probe can start, send its request and be satisfied by the response to the first one.
\<close>

definition late_schedule :: "action list" where
  "late_schedule =
    [DoPing, DoAcquire 0, DoExchangeSend 0, DoExchangeContext 0 (Err OsDeadlineExceeded), DoWatchdog 0,
     DoExpire 0, DoReturn 0,
     DoPing, DoAcquire 1, DoExchangeSend 1, DoRead, DoHandle [2] False, DoReceive 1, DoReturn 1]"


end
