(* ===== verification/Client_Wire.thy ===== *)
theory Client_Wire
  imports Client_State
begin

text \<open>
  What the other end of a connection gets from \<open>send\<close>, proved once for the interface \<open>framer_peer\<close> of
  the transports and any protobuf runtime that restores what it marshalled. The interface is interpreted
  on the transport value a dialed client holds, whichever transport that is.
\<close>

text \<open>A device reads a frame and decodes it; a program sends one message after the other.\<close>

definition receive_message ::
  "('g \<Rightarrow> stream \<Rightarrow> ((u32 \<times> bytes) \<times> 'g \<times> stream) result) \<Rightarrow> protobuf \<Rightarrow> 'g \<Rightarrow> stream \<Rightarrow>
    (message \<times> 'g \<times> stream) result" where
  "receive_message recv pb b s = unless_err (recv b s) id (\<lambda>((i, p), b, s).
    unless_err (Decode pb api_registry i p) id (\<lambda>m. Inr (m, b, s)))"

fun receive_messages ::
  "('g \<Rightarrow> stream \<Rightarrow> ((u32 \<times> bytes) \<times> 'g \<times> stream) result) \<Rightarrow> protobuf \<Rightarrow> nat \<Rightarrow> 'g \<Rightarrow> stream \<Rightarrow>
    (message list \<times> 'g \<times> stream) result" where
  "receive_messages recv pb 0 b s = Inr ([], b, s)"
| "receive_messages recv pb (Suc n) b s =
    unless_err (receive_message recv pb b s) id (\<lambda>(m, b, s).
      unless_err (receive_messages recv pb n b s) id (\<lambda>(ms, b, s). Inr (m # ms, b, s)))"

fun send_all :: "'f framer \<Rightarrow> protobuf \<Rightarrow> message list \<Rightarrow> 'f client \<Rightarrow> goerror option \<times> 'f client" where
  "send_all F pb [] c = (None, c)"
| "send_all F pb (m # ms) c =
    (case send F pb m c of (Some err, c) \<Rightarrow> (Some err, c) | (None, c) \<Rightarrow> send_all F pb ms c)"

context framer_peer
begin

lemma send_written:
  assumes "send W pb m c = (None, c')"
  obtains i p a a' where "MessageID api_registry (Some m) = Inr i" "pb_marshal pb m = Inr p"
    "cl_framer c = Some a" "fr_WriteFrame W i p a = (None, a')" "c' = c\<lparr>cl_framer := Some a'\<rparr>"
  using assms by (auto simp: send_def split: option.splits if_splits sum.splits prod.splits)

lemma send_delivered:
  assumes pb_ok: "protobuf_ok pb"
    and "send W pb m c = (None, c')" and "cl_framer c = Some a" and "ready a b"
  shows "\<exists>bs a' b'. cl_framer c' = Some a' \<and> out a' = out a @ bs \<and> ready a' b' \<and>
    (\<forall>s rest. receive_message recv pb b (s\<lparr>pending := bs @ rest\<rparr>) = Inr (m, b', s\<lparr>pending := rest\<rparr>))"
proof -
  obtain i p a' where m: "MessageID api_registry (Some m) = Inr i" "pb_marshal pb m = Inr p"
      and w: "fr_WriteFrame W i p a = (None, a')" and c': "c' = c\<lparr>cl_framer := Some a'\<rparr>"
    using send_written[OF assms(2)] assms(3) by (metis option.inject)
  obtain bs b' where "out a' = out a @ bs" "ready a' b'"
      "\<And>s rest. recv b (s\<lparr>pending := bs @ rest\<rparr>) = Inr ((i, p), b', s\<lparr>pending := rest\<rparr>)"
    using deliver[OF assms(4) w] by blast
  then show ?thesis
    using decode_of_marshal[OF pb_ok m] c' by (auto simp: receive_message_def)
qed

lemma all_delivered:
  assumes pb_ok: "protobuf_ok pb"
    and "send_all W pb ms c = (None, c')" and "cl_framer c = Some a" and "ready a b"
  shows "\<exists>bs a' b'. cl_framer c' = Some a' \<and> out a' = out a @ bs \<and> ready a' b' \<and>
    (\<forall>s rest. receive_messages recv pb (length ms) b (s\<lparr>pending := bs @ rest\<rparr>) = Inr (ms, b', s\<lparr>pending := rest\<rparr>))"
  using assms(2-)
proof (induction ms arbitrary: c a b)
  case (Cons m ms)
  obtain c1 where sent: "send W pb m c = (None, c1)" "send_all W pb ms c1 = (None, c')"
    using Cons.prems(1) by (auto split: prod.splits option.splits)
  obtain bs a1 b1 where 1: "cl_framer c1 = Some a1" "out a1 = out a @ bs" "ready a1 b1"
      "\<And>s rest. receive_message recv pb b (s\<lparr>pending := bs @ rest\<rparr>) = Inr (m, b1, s\<lparr>pending := rest\<rparr>)"
    using send_delivered[OF pb_ok sent(1) Cons.prems(2,3)] by blast
  obtain cs a' b' where 2: "cl_framer c' = Some a'" "out a' = out a1 @ cs" "ready a' b'"
      "\<And>s rest. receive_messages recv pb (length ms) b1 (s\<lparr>pending := cs @ rest\<rparr>) = Inr (ms, b', s\<lparr>pending := rest\<rparr>)"
    using Cons.IH[OF sent(2) 1(1,3)] by blast
  show ?case
    by (intro exI[of _ "bs @ cs"] exI[of _ a'] exI[of _ b']) (simp add: 1 2)
qed auto

end

section \<open>The transport of a dialed client\<close>

datatype 'c wire_peer = PlainPeer plain_framer | NoisePeer "'c noise_framer"

definition wire_recv ::
  "('h, 'c) noise_lib \<Rightarrow> 'c wire_peer \<Rightarrow> stream \<Rightarrow> ((u32 \<times> bytes) \<times> 'c wire_peer \<times> stream) result" where
  "wire_recv lib b s =
    (case b of
      PlainPeer f \<Rightarrow> unless_err (plain_recv f s) id (\<lambda>(m, f, s). Inr (m, PlainPeer f, s))
    | NoisePeer f \<Rightarrow> unless_err (noise_ReadFrame lib f s) id (\<lambda>(m, f, s). Inr (m, NoisePeer f, s)))"

fun wire_ready :: "('h, 'c) noise_lib \<Rightarrow> ('c \<Rightarrow> 'c \<Rightarrow> bool) \<Rightarrow> 'c wire_conn \<Rightarrow> 'c wire_peer \<Rightarrow> bool" where
  "wire_ready lib sync (PlainConn a) (PlainPeer b) = plain_ready a b"
| "wire_ready lib sync (NoiseConn a) (NoisePeer b) = noise_ready lib sync a b"
| "wire_ready lib sync _ _ = False"

interpretation wire_link: framer_peer "wire_ops lib" "\<lambda>w. sent (cn_out (wire_conn_of w))"
  "wire_recv lib" "wire_ready lib sync" for lib sync
proof
  fix a :: "'b wire_conn" and b t p a'
  assume ready: "wire_ready lib sync a b" and w: "fr_WriteFrame (wire_ops lib) t p a = (None, a')"
  show "\<exists>bs b'. sent (cn_out (wire_conn_of a')) = sent (cn_out (wire_conn_of a)) @ bs \<and>
    wire_ready lib sync a' b' \<and>
    (\<forall>s rest. wire_recv lib b (s\<lparr>pending := bs @ rest\<rparr>) = Inr ((t, p), b', s\<lparr>pending := rest\<rparr>))"
  proof (cases a)
    case (PlainConn fc)
    then obtain f fc' where b: "b = PlainPeer f" "plain_ready fc f" "a' = PlainConn fc'"
        "fr_WriteFrame plain_ops t p fc = (None, fc')"
      using ready w by (cases b) (auto simp: wire_ops_def plain_ops_def split: prod.splits)
    obtain bs f' where "sent (cn_out (snd fc')) = sent (cn_out (snd fc)) @ bs" "plain_ready fc' f'"
        "\<And>s rest. plain_recv f (s\<lparr>pending := bs @ rest\<rparr>) = Inr ((t, p), f', s\<lparr>pending := rest\<rparr>)"
      using plain_link.deliver[OF b(2,4)] by blast
    then show ?thesis
      by (intro exI[of _ bs] exI[of _ "PlainPeer f'"]) (simp add: b PlainConn wire_recv_def)
  next
    case (NoiseConn fc)
    then obtain f fc' where b: "b = NoisePeer f" "noise_ready lib sync fc f" "a' = NoiseConn fc'"
        "fr_WriteFrame (noise_ops lib) t p fc = (None, fc')"
      using ready w by (cases b) (auto simp: wire_ops_def noise_ops_def split: prod.splits)
    obtain bs f' where "sent (cn_out (snd fc')) = sent (cn_out (snd fc)) @ bs" "noise_ready lib sync fc' f'"
        "\<And>s rest. noise_ReadFrame lib f (s\<lparr>pending := bs @ rest\<rparr>) = Inr ((t, p), f', s\<lparr>pending := rest\<rparr>)"
      using noise_link.deliver[OF b(2,4)] by blast
    then show ?thesis
      by (intro exI[of _ bs] exI[of _ "NoisePeer f'"]) (simp add: b NoiseConn wire_recv_def)
  qed
qed

end
