(* ===== verification/Commands.thy ===== *)
theory Commands
  imports Client_Wire
begin

text \<open>
  \<open>commands.go\<close>: the command methods of the client, which check the entity registry before they send,
  and the message a device gets from them over either transport.
\<close>

definition validateEntity :: "u32 \<Rightarrow> EntityDomain \<Rightarrow> 'f client \<Rightarrow> goerror option" where
  "validateEntity key want c =
    (case domain (cl_entities c) key of
      None \<Rightarrow> Some (Errorf ''%w: key %d'' [Err ErrEntityNotFound])
    | Some d \<Rightarrow>
        if d \<noteq> want then Some (Errorf ''%w: key %d is %s, not %s'' [Err ErrEntityTypeMismatch]) else None)"

definition SendCommand ::
  "'f framer \<Rightarrow> protobuf \<Rightarrow> message \<Rightarrow> 'f client \<Rightarrow> goerror option \<times> 'f client" where
  "SendCommand F pb command c = send F pb command c"

text \<open>A command method: the check, then the send.\<close>

definition checked_send ::
  "'f framer \<Rightarrow> protobuf \<Rightarrow> u32 \<Rightarrow> EntityDomain \<Rightarrow> message \<Rightarrow> 'f client \<Rightarrow> goerror option \<times> 'f client"
where
  "checked_send F pb key want m c =
    (case validateEntity key want c of Some err \<Rightarrow> (Some err, c) | None \<Rightarrow> send F pb m c)"

definition SetSwitch ::
  "'f framer \<Rightarrow> protobuf \<Rightarrow> u32 \<Rightarrow> bool \<Rightarrow> 'f client \<Rightarrow> goerror option \<times> 'f client" where
  "SetSwitch F pb key state = checked_send F pb key DomainSwitch
    (SwitchCommandRequest (zero_SwitchCommandRequest\<lparr>SwitchCmd_Key := key, SwitchCmd_State := state\<rparr>))"

definition SetNumber ::
  "'f framer \<Rightarrow> protobuf \<Rightarrow> u32 \<Rightarrow> f32 \<Rightarrow> 'f client \<Rightarrow> goerror option \<times> 'f client" where
  "SetNumber F pb key v = checked_send F pb key DomainNumber
    (NumberCommandRequest (zero_NumberCommandRequest\<lparr>NumberCmd_Key := key, NumberCmd_State := v\<rparr>))"

definition PressButton ::
  "'f framer \<Rightarrow> protobuf \<Rightarrow> u32 \<Rightarrow> 'f client \<Rightarrow> goerror option \<times> 'f client" where
  "PressButton F pb key = checked_send F pb key DomainButton
    (ButtonCommandRequest (zero_ButtonCommandRequest\<lparr>ButtonCmd_Key := key\<rparr>))"

record FanCommandOpts =
  fo_HasState :: bool
  fo_State :: bool
  fo_HasOscillating :: bool
  fo_Oscillating :: bool
  fo_HasDirection :: bool
  fo_Direction :: i32
  fo_HasSpeedLevel :: bool
  fo_SpeedLevel :: i32
  fo_HasPresetMode :: bool
  fo_PresetMode :: string

definition fan_command :: "u32 \<Rightarrow> FanCommandOpts \<Rightarrow> FanCommandRequest" where
  "fan_command key options = zero_FanCommandRequest\<lparr>FanCmd_Key := key,
      FanCmd_HasState := fo_HasState options,
      FanCmd_State := fo_State options,
      FanCmd_HasOscillating := fo_HasOscillating options,
      FanCmd_Oscillating := fo_Oscillating options,
      FanCmd_HasDirection := fo_HasDirection options,
      FanCmd_Direction := fo_Direction options,
      FanCmd_HasSpeedLevel := fo_HasSpeedLevel options,
      FanCmd_SpeedLevel := fo_SpeedLevel options,
      FanCmd_HasPresetMode := fo_HasPresetMode options,
      FanCmd_PresetMode := fo_PresetMode options\<rparr>"

definition SetFan ::
  "'f framer \<Rightarrow> protobuf \<Rightarrow> u32 \<Rightarrow> FanCommandOpts \<Rightarrow> 'f client \<Rightarrow> goerror option \<times> 'f client" where
  "SetFan F pb key options = checked_send F pb key DomainFan (FanCommandRequest (fan_command key options))"

record LightCommandOpts =
  lo_HasState :: bool
  lo_State :: bool
  lo_HasBrightness :: bool
  lo_Brightness :: f32
  lo_HasColourMode :: bool
  lo_ColourMode :: i32
  lo_HasColourBrightness :: bool
  lo_ColourBrightness :: f32
  lo_HasRGB :: bool
  lo_Red :: f32
  lo_Green :: f32
  lo_Blue :: f32
  lo_HasWhite :: bool
  lo_White :: f32
  lo_HasColourTemperature :: bool
  lo_ColourTemperature :: f32
  lo_HasColdWhite :: bool
  lo_ColdWhite :: f32
  lo_HasWarmWhite :: bool
  lo_WarmWhite :: f32
  lo_HasTransitionLength :: bool
  lo_TransitionLength :: u32
  lo_HasFlashLength :: bool
  lo_FlashLength :: u32
  lo_HasEffect :: bool
  lo_Effect :: string

definition light_command :: "u32 \<Rightarrow> LightCommandOpts \<Rightarrow> LightCommandRequest" where
  "light_command key options = zero_LightCommandRequest\<lparr>LightCmd_Key := key,
      LightCmd_HasState := lo_HasState options,
      LightCmd_State := lo_State options,
      LightCmd_HasBrightness := lo_HasBrightness options,
      LightCmd_Brightness := lo_Brightness options,
      LightCmd_HasColorMode := lo_HasColourMode options,
      LightCmd_ColorMode := lo_ColourMode options,
      LightCmd_HasColorBrightness := lo_HasColourBrightness options,
      LightCmd_ColorBrightness := lo_ColourBrightness options,
      LightCmd_HasRgb := lo_HasRGB options,
      LightCmd_Red := lo_Red options,
      LightCmd_Green := lo_Green options,
      LightCmd_Blue := lo_Blue options,
      LightCmd_HasWhite := lo_HasWhite options,
      LightCmd_White := lo_White options,
      LightCmd_HasColorTemperature := lo_HasColourTemperature options,
      LightCmd_ColorTemperature := lo_ColourTemperature options,
      LightCmd_HasColdWhite := lo_HasColdWhite options,
      LightCmd_ColdWhite := lo_ColdWhite options,
      LightCmd_HasWarmWhite := lo_HasWarmWhite options,
      LightCmd_WarmWhite := lo_WarmWhite options,
      LightCmd_HasTransitionLength := lo_HasTransitionLength options,
      LightCmd_TransitionLength := lo_TransitionLength options,
      LightCmd_HasFlashLength := lo_HasFlashLength options,
      LightCmd_FlashLength := lo_FlashLength options,
      LightCmd_HasEffect := lo_HasEffect options,
      LightCmd_Effect := lo_Effect options\<rparr>"

definition SetLight ::
  "'f framer \<Rightarrow> protobuf \<Rightarrow> u32 \<Rightarrow> LightCommandOpts \<Rightarrow> 'f client \<Rightarrow> goerror option \<times> 'f client" where
  "SetLight F pb key options = checked_send F pb key DomainLight (LightCommandRequest (light_command key options))"

section \<open>What a device gets\<close>

text \<open>The commands a program can give through these methods, with the family each one addresses and the
  message it stands for.\<close>

datatype command =
    SwitchCommand u32 bool
  | NumberCommand u32 f32
  | ButtonCommand u32
  | FanCommand u32 FanCommandOpts
  | LightCommand u32 LightCommandOpts

definition perform ::
  "'f framer \<Rightarrow> protobuf \<Rightarrow> command \<Rightarrow> 'f client \<Rightarrow> goerror option \<times> 'f client" where
  "perform F pb cmd = (case cmd of
      SwitchCommand k b \<Rightarrow> SetSwitch F pb k b
    | NumberCommand k v \<Rightarrow> SetNumber F pb k v
    | ButtonCommand k \<Rightarrow> PressButton F pb k
    | FanCommand k fo \<Rightarrow> SetFan F pb k fo
    | LightCommand k lo \<Rightarrow> SetLight F pb k lo)"

definition addressee :: "command \<Rightarrow> u32 \<times> EntityDomain" where
  "addressee cmd = (case cmd of
      SwitchCommand k b \<Rightarrow> (k, DomainSwitch)
    | NumberCommand k v \<Rightarrow> (k, DomainNumber)
    | ButtonCommand k \<Rightarrow> (k, DomainButton)
    | FanCommand k fo \<Rightarrow> (k, DomainFan)
    | LightCommand k lo \<Rightarrow> (k, DomainLight))"

definition command_message :: "command \<Rightarrow> message" where
  "command_message cmd = (case cmd of
      SwitchCommand k b \<Rightarrow> SwitchCommandRequest \<lparr>SwitchCmd_Key = k, SwitchCmd_State = b, SwitchCmd_DeviceId = 0\<rparr>
    | NumberCommand k v \<Rightarrow> NumberCommandRequest \<lparr>NumberCmd_Key = k, NumberCmd_State = v, NumberCmd_DeviceId = 0\<rparr>
    | ButtonCommand k \<Rightarrow> ButtonCommandRequest \<lparr>ButtonCmd_Key = k, ButtonCmd_DeviceId = 0\<rparr>
    | FanCommand k fo \<Rightarrow> FanCommandRequest (fan_command k fo)
    | LightCommand k lo \<Rightarrow> LightCommandRequest (light_command k lo))"

lemma perform_alt:
  "perform F pb cmd = checked_send F pb (fst (addressee cmd)) (snd (addressee cmd)) (command_message cmd)"
  by (cases cmd) (simp_all add: perform_def addressee_def command_message_def SetSwitch_def SetNumber_def
      PressButton_def SetFan_def SetLight_def zero_SwitchCommandRequest_def zero_NumberCommandRequest_def
      zero_ButtonCommandRequest_def)

lemma performed_command:
  "perform F pb cmd c = (if domain (cl_entities c) (fst (addressee cmd)) = Some (snd (addressee cmd))
    then send F pb (command_message cmd) c
    else (validateEntity (fst (addressee cmd)) (snd (addressee cmd)) c, c))"
  by (auto simp: perform_alt checked_send_def validateEntity_def split: option.splits)

text \<open>C30. A command for a key that is not a registered entity of the command's family writes nothing: the
  client is unchanged and the error tells a missing entity from one of another family. Any other command
  is sent as the message it stands for.\<close>

theorem commands_are_checked:
  "case domain (cl_entities c) (fst (addressee cmd)) of
     None \<Rightarrow> \<exists>err. perform F pb cmd c = (Some err, c) \<and> errors_is err ErrEntityNotFound
   | Some d \<Rightarrow>
       if d = snd (addressee cmd) then perform F pb cmd c = send F pb (command_message cmd) c
       else \<exists>err. perform F pb cmd c = (Some err, c) \<and> errors_is err ErrEntityTypeMismatch"
  by (auto simp: performed_command validateEntity_def split: option.split)


text \<open>A runtime that knows one button command, and a plaintext device that gets it.\<close>

definition press_seven :: message where
  "press_seven = ButtonCommandRequest \<lparr>ButtonCmd_Key = 7, ButtonCmd_DeviceId = 0\<rparr>"

definition button_protobuf :: protobuf where
  "button_protobuf =
    \<lparr>pb_marshal = (\<lambda>m. if m = press_seven then Inr [13, 7, 0, 0, 0] else Fail ErrThirdParty),
     pb_unmarshal = (\<lambda>p m. if p = [13, 7, 0, 0, 0] \<and> m = new_message ''ButtonCommandRequest'' then Inr press_seven
       else Fail ErrThirdParty),
     pb_size = (\<lambda>m. 0)\<rparr>"

definition button_client :: "nat wire_conn \<Rightarrow> nat wire_conn client" where
  "button_client w = (newClient w 1)\<lparr>cl_entities := handle (ListEntitiesButtonResponse
    (zero_ListEntitiesButtonResponse\<lparr>ButtonInfo_Key := 7\<rparr>)) newEntityRegistry\<rparr>"

definition open_conn :: conn where
  "open_conn = \<lparr>cn_in = \<lparr>pending = [], failing = Err EOF\<rparr>,
    cn_out = \<lparr>sent = [], outcomes = []\<rparr>, cn_closed = False\<rparr>"


end
