(* ===== verification/Scenario.thy ===== *)
theory Scenario
  imports Registry Go_Net
begin

text \<open>
  \<open>simulator.Scenario\<close> and its validation (\<open>simulator/validation.go\<close>, the types of
  \<open>simulator.go\<close>, \<open>fault.go\<close>, \<open>network.go\<close> and \<open>command_expectations.go\<close>).

  A nil message in a scenario is \<open>None\<close>. A duration is the integer number of nanoseconds. Names of
  triggers and actions the simulator does not know are kept as their text. \<open>validate_iff\<close> is the
  declarative meaning of \<open>Validate\<close>.
\<close>

section \<open>Scenarios\<close>

datatype FaultTrigger =
    FaultAfterHello | FaultBeforeEntitiesDone | FaultAfterInitialStates | OtherTrigger string

datatype FaultAction =
    FaultDropConnection | FaultMalformedProtobuf | FaultUnknownMessage | FaultDuplicateEntitiesDone
  | FaultStall | OtherFault string

datatype NetworkAction =
    NetworkFragmentFrame | NetworkCoalesceSegments | NetworkDelayReply | OtherNetworkAction string

record Fault =
  ft_Trigger :: FaultTrigger
  ft_Action :: FaultAction

record NetworkFault =
  nf_Trigger :: FaultTrigger
  nf_Action :: NetworkAction
  nf_Delay :: int

record StateEvent =
  ev_At :: int
  ev_State :: "message option"

record CommandExpectation =
  ce_Command :: "message option"
  ce_Count :: u32

record Scenario =
  sc_Name :: string
  sc_Seed :: u64
  sc_Entities :: "message option list"
  sc_States :: "message option list"
  sc_InitialStates :: "message option list"
  sc_StateTimeline :: "StateEvent list"
  sc_Logs :: "SubscribeLogsResponse option list"
  sc_Commands :: "CommandExpectation list"
  sc_Faults :: "Fault list"
  sc_Network :: "NetworkFault list"

text \<open>A scenario of which only the name and the seed are set.\<close>

definition bare_scenario :: "string \<Rightarrow> u64 \<Rightarrow> Scenario" where
  "bare_scenario name seed =
    \<lparr>sc_Name = name, sc_Seed = seed, sc_Entities = [], sc_States = [], sc_InitialStates = [],
     sc_StateTimeline = [], sc_Logs = [], sc_Commands = [], sc_Faults = [], sc_Network = []\<rparr>"

text \<open>The deep copy that a device keeps. \<open>proto.Clone\<close> of an immutable message is the message itself.\<close>

definition proto_Clone :: "'a \<Rightarrow> 'a" where
  "proto_Clone m = m"

definition cloneScenario :: "Scenario \<Rightarrow> Scenario" where
  "cloneScenario s =
    \<lparr>sc_Name = sc_Name s, sc_Seed = sc_Seed s,
     sc_Entities = map proto_Clone (sc_Entities s),
     sc_States = map proto_Clone (sc_States s),
     sc_InitialStates = map proto_Clone (sc_InitialStates s),
     sc_StateTimeline = map (\<lambda>e. \<lparr>ev_At = ev_At e, ev_State = proto_Clone (ev_State e)\<rparr>) (sc_StateTimeline s),
     sc_Logs = map proto_Clone (sc_Logs s),
     sc_Commands = map (\<lambda>e. \<lparr>ce_Command = proto_Clone (ce_Command e), ce_Count = ce_Count e\<rparr>) (sc_Commands s),
     sc_Faults = sc_Faults s, sc_Network = sc_Network s\<rparr>"

lemma map_proto_Clone [simp]: "map proto_Clone xs = xs"
  by (rule map_idI) (simp add: proto_Clone_def)

lemma cloneScenario_is_complete [simp]: "cloneScenario s = s"
proof -
  have t: "map (\<lambda>e. \<lparr>ev_At = ev_At e, ev_State = proto_Clone (ev_State e)\<rparr>) es = es" for es :: "StateEvent list"
    by (rule map_idI) (simp add: proto_Clone_def)
  have c: "map (\<lambda>e. \<lparr>ce_Command = proto_Clone (ce_Command e), ce_Count = ce_Count e\<rparr>) es = es"
    for es :: "CommandExpectation list"
    by (rule map_idI) (simp add: proto_Clone_def)
  show ?thesis by (simp add: cloneScenario_def t c)
qed

section \<open>Limits and errors\<close>

datatype ValidationCode =
    ValidationInvalidType | ValidationDuplicateKey | ValidationNegativeTime
  | ValidationDecreasingTime | ValidationInvalidDuration | ValidationResourceLimit
  | ValidationSeedRequired | ValidationExpectation

record ValidationError =
  ve_Field :: string
  ve_Index :: nat
  ve_RelatedIndex :: "nat option"
  ve_Code :: ValidationCode

definition MaxCommandExpectationCount :: u32 where "MaxCommandExpectationCount = 1000000"
definition MaxScenarioItemsPerField :: nat where "MaxScenarioItemsPerField = 4096"
definition MaxScenarioMessageBytes :: nat where "MaxScenarioMessageBytes = 65536"
definition MaxScenarioEncodedBytes :: nat where "MaxScenarioEncodedBytes = 4 * 1024 * 1024"
definition MaxNetworkDelay :: int where "MaxNetworkDelay = 24 * 3600 * 1000000000"

definition validationError :: "string \<Rightarrow> nat \<Rightarrow> nat option \<Rightarrow> ValidationCode \<Rightarrow> ValidationError" where
  "validationError field index related code =
    \<lparr>ve_Field = field, ve_Index = index, ve_RelatedIndex = related, ve_Code = code\<rparr>"

text \<open>\<open>Unwrap\<close> of a validation error.\<close>

definition validation_goerror :: "ValidationError \<Rightarrow> goerror" where
  "validation_goerror e = Errorf ''%v: %s[%d] (%s)'' [Err ErrInvalidScenario]"

section \<open>Kinds of messages\<close>

definition entityIdentity :: "message option \<Rightarrow> (string \<times> u32) option" where
  "entityIdentity m =
    (case m of
      None \<Rightarrow> None
    | Some msg \<Rightarrow> (case msg of
        ListEntitiesBinarySensorResponse x \<Rightarrow> Some (''binary_sensor'', BinarySensorInfo_Key x)
      | ListEntitiesSensorResponse x \<Rightarrow> Some (''sensor'', SensorInfo_Key x)
      | ListEntitiesTextSensorResponse x \<Rightarrow> Some (''text_sensor'', TextSensorInfo_Key x)
      | ListEntitiesSwitchResponse x \<Rightarrow> Some (''switch'', SwitchInfo_Key x)
      | ListEntitiesNumberResponse x \<Rightarrow> Some (''number'', NumberInfo_Key x)
      | ListEntitiesButtonResponse x \<Rightarrow> Some (''button'', ButtonInfo_Key x)
      | ListEntitiesFanResponse x \<Rightarrow> Some (''fan'', FanInfo_Key x)
      | ListEntitiesLightResponse x \<Rightarrow> Some (''light'', LightInfo_Key x)
      | _ \<Rightarrow> None))"

type_synonym stateIdentity = "string \<times> u32"

definition stateIdentityOf :: "message option \<Rightarrow> stateIdentity option" where
  "stateIdentityOf m =
    (case m of
      None \<Rightarrow> None
    | Some msg \<Rightarrow> (case msg of
        BinarySensorStateResponse x \<Rightarrow> Some (''binary_sensor'', BinarySensorState_Key x)
      | SensorStateResponse x \<Rightarrow> Some (''sensor'', SensorState_Key x)
      | TextSensorStateResponse x \<Rightarrow> Some (''text_sensor'', TextSensorState_Key x)
      | SwitchStateResponse x \<Rightarrow> Some (''switch'', SwitchState_Key x)
      | NumberStateResponse x \<Rightarrow> Some (''number'', NumberState_Key x)
      | FanStateResponse x \<Rightarrow> Some (''fan'', FanState_Key x)
      | LightStateResponse x \<Rightarrow> Some (''light'', LightState_Key x)
      | _ \<Rightarrow> None))"

definition validState :: "message option \<Rightarrow> bool" where
  "validState m =
    (case m of
      None \<Rightarrow> False
    | Some msg \<Rightarrow> (case msg of
        BinarySensorStateResponse _ \<Rightarrow> True
      | SensorStateResponse _ \<Rightarrow> True
      | TextSensorStateResponse _ \<Rightarrow> True
      | SwitchStateResponse _ \<Rightarrow> True
      | NumberStateResponse _ \<Rightarrow> True
      | FanStateResponse _ \<Rightarrow> True
      | LightStateResponse _ \<Rightarrow> True
      | _ \<Rightarrow> False))"

definition validCommand :: "message option \<Rightarrow> bool" where
  "validCommand m =
    (case m of
      None \<Rightarrow> False
    | Some msg \<Rightarrow> (case msg of
        SwitchCommandRequest _ \<Rightarrow> True
      | NumberCommandRequest _ \<Rightarrow> True
      | ButtonCommandRequest _ \<Rightarrow> True
      | FanCommandRequest _ \<Rightarrow> True
      | LightCommandRequest _ \<Rightarrow> True
      | _ \<Rightarrow> False))"

lemma validState_iff: "validState m \<longleftrightarrow> stateIdentityOf m \<noteq> None"
proof (cases m)
  case (Some msg)
  then show ?thesis
    by (cases msg) (simp_all add: validState_def stateIdentityOf_def)
qed (simp add: validState_def stateIdentityOf_def)

section \<open>Validation\<close>

text \<open>The message budget: what is left after a message, or the error.\<close>

definition budget_add ::
  "protobuf \<Rightarrow> string \<Rightarrow> nat \<Rightarrow> message \<Rightarrow> nat \<Rightarrow> ValidationError + nat" where
  "budget_add pb field index m remaining =
    (let size = pb_size pb m in
     if size > MaxScenarioMessageBytes \<or> size > remaining
     then Inl (validationError field index None ValidationResourceLimit)
     else Inr (remaining - size))"

definition validateScenarioCounts :: "Scenario \<Rightarrow> ValidationError option" where
  "validateScenarioCounts s =
    map_option (\<lambda>(name, count). validationError name MaxScenarioItemsPerField None ValidationResourceLimit)
      (find (\<lambda>(name, count). count > MaxScenarioItemsPerField)
        [(''entities'', length (sc_Entities s)), (''states'', length (sc_States s)),
         (''initial_states'', length (sc_InitialStates s)),
         (''state_timeline'', length (sc_StateTimeline s)), (''logs'', length (sc_Logs s)),
         (''commands'', length (sc_Commands s)), (''faults'', length (sc_Faults s)),
         (''network'', length (sc_Network s))])"

text \<open>The loop over the entities and the one over a list of states have the same shape: the identities seen
  so far with their first index, and the budget.\<close>

fun validate_identities ::
  "protobuf \<Rightarrow> string \<Rightarrow> (message option \<Rightarrow> (string \<times> u32) option) \<Rightarrow> nat \<Rightarrow>
    ((string \<times> u32) \<rightharpoonup> nat) \<Rightarrow> message option list \<Rightarrow> nat \<Rightarrow> ValidationError + nat" where
  "validate_identities pb field ident index seen [] remaining = Inr remaining"
| "validate_identities pb field ident index seen (m # ms) remaining =
    (case ident m of
      None \<Rightarrow> Inl (validationError field index None ValidationInvalidType)
    | Some i \<Rightarrow>
        (case seen i of
          Some previous \<Rightarrow> Inl (validationError field index (Some previous) ValidationDuplicateKey)
        | None \<Rightarrow>
            (case budget_add pb field index (the m) remaining of
              Inl err \<Rightarrow> Inl err
            | Inr remaining \<Rightarrow>
                validate_identities pb field ident (Suc index) (seen(i \<mapsto> index)) ms remaining)))"

definition validateEntities :: "protobuf \<Rightarrow> message option list \<Rightarrow> nat \<Rightarrow> ValidationError + nat" where
  "validateEntities pb = validate_identities pb ''entities'' entityIdentity 0 Map.empty"

definition validateInitialStates ::
  "protobuf \<Rightarrow> string \<Rightarrow> message option list \<Rightarrow> nat \<Rightarrow> ValidationError + nat" where
  "validateInitialStates pb field = validate_identities pb field stateIdentityOf 0 Map.empty"

fun validateTimeline ::
  "protobuf \<Rightarrow> nat \<Rightarrow> int \<Rightarrow> StateEvent list \<Rightarrow> nat \<Rightarrow> ValidationError + nat" where
  "validateTimeline pb index previous [] remaining = Inr remaining"
| "validateTimeline pb index previous (e # es) remaining =
    (if ev_At e < 0 then Inl (validationError ''state_timeline'' index None ValidationNegativeTime)
     else if index > 0 \<and> ev_At e < previous
     then Inl (validationError ''state_timeline'' index (Some (index - 1)) ValidationDecreasingTime)
     else if \<not> validState (ev_State e)
     then Inl (validationError ''state_timeline'' index None ValidationInvalidType)
     else (case budget_add pb ''state_timeline'' index (the (ev_State e)) remaining of
         Inl err \<Rightarrow> Inl err
       | Inr remaining \<Rightarrow> validateTimeline pb (Suc index) (ev_At e) es remaining))"

fun validateLogs ::
  "protobuf \<Rightarrow> nat \<Rightarrow> SubscribeLogsResponse option list \<Rightarrow> nat \<Rightarrow> ValidationError + nat" where
  "validateLogs pb index [] remaining = Inr remaining"
| "validateLogs pb index (l # ls) remaining =
    (case l of
      None \<Rightarrow> Inl (validationError ''logs'' index None ValidationInvalidType)
    | Some entry \<Rightarrow>
        (case budget_add pb ''logs'' index (SubscribeLogsResponse entry) remaining of
          Inl err \<Rightarrow> Inl err
        | Inr remaining \<Rightarrow> validateLogs pb (Suc index) ls remaining))"

fun validateCommands ::
  "protobuf \<Rightarrow> nat \<Rightarrow> CommandExpectation list \<Rightarrow> nat \<Rightarrow> ValidationError + nat" where
  "validateCommands pb index [] remaining = Inr remaining"
| "validateCommands pb index (e # es) remaining =
    (if \<not> validCommand (ce_Command e)
     then Inl (validationError ''commands'' index None ValidationInvalidType)
     else if ce_Count e = 0 \<or> ce_Count e > MaxCommandExpectationCount
     then Inl (validationError ''commands'' index None ValidationExpectation)
     else (case budget_add pb ''commands'' index (the (ce_Command e)) remaining of
         Inl err \<Rightarrow> Inl err
       | Inr remaining \<Rightarrow> validateCommands pb (Suc index) es remaining))"

definition delay_ok :: "NetworkFault \<Rightarrow> bool" where
  "delay_ok f =
    (case nf_Action f of
      NetworkDelayReply \<Rightarrow> \<not> (nf_Delay f \<le> 0 \<or> nf_Delay f > MaxNetworkDelay)
    | NetworkFragmentFrame \<Rightarrow> nf_Delay f = 0
    | NetworkCoalesceSegments \<Rightarrow> nf_Delay f = 0
    | _ \<Rightarrow> True)"

fun validateNetwork :: "nat \<Rightarrow> NetworkFault list \<Rightarrow> ValidationError option" where
  "validateNetwork index [] = None"
| "validateNetwork index (f # fs) =
    (if delay_ok f then validateNetwork (Suc index) fs
     else Some (validationError ''network'' index None ValidationInvalidDuration))"

definition Validate :: "protobuf \<Rightarrow> Scenario \<Rightarrow> ValidationError option" where
  "Validate pb s =
    (case validateScenarioCounts s of
      Some err \<Rightarrow> Some err
    | None \<Rightarrow>
        if length (sc_Name s) > MaxScenarioMessageBytes
        then Some (validationError ''name'' 0 None ValidationResourceLimit)
        else (case validateEntities pb (sc_Entities s) MaxScenarioEncodedBytes of
            Inl err \<Rightarrow> Some err
          | Inr b1 \<Rightarrow>
              if sc_States s \<noteq> [] \<and> sc_InitialStates s \<noteq> []
              then Some (validationError ''initial_states'' 0 None ValidationExpectation)
              else (case validateInitialStates pb ''states'' (sc_States s) b1 of
                  Inl err \<Rightarrow> Some err
                | Inr b2 \<Rightarrow> (case validateInitialStates pb ''initial_states'' (sc_InitialStates s) b2 of
                    Inl err \<Rightarrow> Some err
                  | Inr b3 \<Rightarrow> (case validateTimeline pb 0 0 (sc_StateTimeline s) b3 of
                      Inl err \<Rightarrow> Some err
                    | Inr b4 \<Rightarrow> (case validateLogs pb 0 (sc_Logs s) b4 of
                        Inl err \<Rightarrow> Some err
                      | Inr b5 \<Rightarrow> (case validateCommands pb 0 (sc_Commands s) b5 of
                          Inl err \<Rightarrow> Some err
                        | Inr b6 \<Rightarrow> validateNetwork 0 (sc_Network s))))))))"

section \<open>What an accepted scenario is\<close>

text \<open>The declarative reading of \<open>Validate\<close>: bounds, kinds, identities and the total size.\<close>

definition messages_of_logs :: "SubscribeLogsResponse option list \<Rightarrow> message list" where
  "messages_of_logs ls = map (\<lambda>l. SubscribeLogsResponse (the l)) ls"

definition scenario_messages :: "Scenario \<Rightarrow> message list" where
  "scenario_messages s =
    map the (sc_Entities s) @ map the (sc_States s) @ map the (sc_InitialStates s) @
    map (\<lambda>e. the (ev_State e)) (sc_StateTimeline s) @ messages_of_logs (sc_Logs s) @
    map (\<lambda>e. the (ce_Command e)) (sc_Commands s)"

definition fits_budget :: "protobuf \<Rightarrow> message list \<Rightarrow> nat \<Rightarrow> bool" where
  "fits_budget pb ms remaining \<longleftrightarrow>
    list_all (\<lambda>m. pb_size pb m \<le> MaxScenarioMessageBytes) ms \<and> sum_list (map (pb_size pb) ms) \<le> remaining"

definition identified :: "(message option \<Rightarrow> (string \<times> u32) option) \<Rightarrow> message option list \<Rightarrow> bool" where
  "identified ident ms \<longleftrightarrow> list_all (\<lambda>m. ident m \<noteq> None) ms \<and> distinct (map ident ms)"

definition timeline_ok :: "StateEvent list \<Rightarrow> bool" where
  "timeline_ok es \<longleftrightarrow> list_all (\<lambda>e. 0 \<le> ev_At e \<and> validState (ev_State e)) es \<and> sorted (map ev_At es)"

definition command_ok :: "CommandExpectation \<Rightarrow> bool" where
  "command_ok e \<longleftrightarrow> validCommand (ce_Command e) \<and> 0 < ce_Count e \<and> ce_Count e \<le> MaxCommandExpectationCount"

definition scenario_ok :: "protobuf \<Rightarrow> Scenario \<Rightarrow> bool" where
  "scenario_ok pb s \<longleftrightarrow>
    length (sc_Name s) \<le> MaxScenarioMessageBytes \<and>
    list_all (\<lambda>n. n \<le> MaxScenarioItemsPerField)
      [length (sc_Entities s), length (sc_States s), length (sc_InitialStates s),
       length (sc_StateTimeline s), length (sc_Logs s), length (sc_Commands s), length (sc_Faults s),
       length (sc_Network s)] \<and>
    identified entityIdentity (sc_Entities s) \<and>
    (sc_States s = [] \<or> sc_InitialStates s = []) \<and>
    identified stateIdentityOf (sc_States s) \<and> identified stateIdentityOf (sc_InitialStates s) \<and>
    timeline_ok (sc_StateTimeline s) \<and>
    list_all (\<lambda>l. l \<noteq> None) (sc_Logs s) \<and>
    list_all command_ok (sc_Commands s) \<and>
    list_all delay_ok (sc_Network s) \<and>
    fits_budget pb (scenario_messages s) MaxScenarioEncodedBytes"

lemma fits_budget_simps [simp]:
  "fits_budget pb [] n"
  "fits_budget pb (m # ms) n \<longleftrightarrow> pb_size pb m \<le> MaxScenarioMessageBytes \<and> pb_size pb m \<le> n \<and>
    fits_budget pb ms (n - pb_size pb m)"
  by (auto simp: fits_budget_def)

lemma fits_budget_append:
  "fits_budget pb (ms @ ms') n \<longleftrightarrow>
    fits_budget pb ms n \<and> fits_budget pb ms' (n - sum_list (map (pb_size pb) ms))"
  by (auto simp: fits_budget_def)

lemma budget_add_eq:
  "budget_add pb field index m n =
    (if pb_size pb m \<le> MaxScenarioMessageBytes \<and> pb_size pb m \<le> n then Inr (n - pb_size pb m)
     else Inl (validationError field index None ValidationResourceLimit))"
  by (auto simp: budget_add_def Let_def)

lemma validate_identities_iff:
  "validate_identities pb field ident index seen ms n = Inr r \<longleftrightarrow>
    identified ident ms \<and> (\<forall>m \<in> set ms. seen (the (ident m)) = None) \<and> fits_budget pb (map the ms) n \<and>
    r = n - sum_list (map (pb_size pb) (map the ms))"
proof (induction ms arbitrary: index seen n)
  case (Cons m ms)
  show ?case
  proof (cases "ident m")
    case None
    then show ?thesis by (simp add: identified_def)
  next
    case (Some i)
    have later: "(\<forall>x \<in> set ms. (seen(i \<mapsto> index)) (the (ident x)) = None) \<longleftrightarrow>
        (\<forall>x \<in> set ms. seen (the (ident x)) = None) \<and> (\<forall>x \<in> set ms. the (ident x) \<noteq> i)"
      by auto
    have new: "identified ident ms \<and> (\<forall>x \<in> set ms. the (ident x) \<noteq> i) \<longleftrightarrow> identified ident (m # ms)"
      using Some by (fastforce simp: list_all_iff identified_def)
    show ?thesis
    proof (cases "seen i = None")
      case True
      then show ?thesis
        using Some new later Cons.IH[of "Suc index" "seen(i \<mapsto> index)" "n - pb_size pb (the m)"]
        by (simp add: budget_add_eq del: fun_upd_apply) blast
    next
      case False
      then show ?thesis using Some by auto
    qed
  qed
qed (auto simp: identified_def)

lemma validateTimeline_iff:
  "validateTimeline pb index previous es n = Inr r \<longleftrightarrow>
    timeline_ok es \<and> (index = 0 \<or> list_all (\<lambda>e. previous \<le> ev_At e) es) \<and>
    fits_budget pb (map (\<lambda>e. the (ev_State e)) es) n \<and>
    r = n - sum_list (map (pb_size pb) (map (\<lambda>e. the (ev_State e)) es))"
proof (induction es arbitrary: index previous n)
  case (Cons e es)
  show ?case
    using Cons.IH[of "Suc index" "ev_At e" "n - pb_size pb (the (ev_State e))"]
    by (auto simp: budget_add_eq timeline_ok_def list_all_iff not_less
        intro: order_trans[of previous "ev_At e"])
qed (auto simp: timeline_ok_def)

lemma validateLogs_iff:
  "validateLogs pb index ls n = Inr r \<longleftrightarrow>
    list_all (\<lambda>l. l \<noteq> None) ls \<and> fits_budget pb (messages_of_logs ls) n \<and>
    r = n - sum_list (map (pb_size pb) (messages_of_logs ls))"
  by (induction ls arbitrary: index n)
    (auto simp: budget_add_eq messages_of_logs_def split: option.split)

lemma validateCommands_iff:
  "validateCommands pb index es n = Inr r \<longleftrightarrow>
    list_all command_ok es \<and> fits_budget pb (map (\<lambda>e. the (ce_Command e)) es) n \<and>
    r = n - sum_list (map (pb_size pb) (map (\<lambda>e. the (ce_Command e)) es))"
proof (induction es arbitrary: index n)
  case (Cons e es)
  have "ce_Count e = 0 \<or> ce_Count e > MaxCommandExpectationCount \<longleftrightarrow>
      \<not> (0 < ce_Count e \<and> ce_Count e \<le> MaxCommandExpectationCount)"
    by (auto simp: word_gt_0 not_le)
  then show ?case
    using Cons.IH[of "Suc index" "n - pb_size pb (the (ce_Command e))"]
    by (auto simp: budget_add_eq command_ok_def)
qed auto

lemma validateNetwork_iff: "validateNetwork index fs = None \<longleftrightarrow> list_all delay_ok fs"
  by (induction fs arbitrary: index) simp_all

lemma validateScenarioCounts_iff:
  "validateScenarioCounts s = None \<longleftrightarrow>
    list_all (\<lambda>n. n \<le> MaxScenarioItemsPerField)
      [length (sc_Entities s), length (sc_States s), length (sc_InitialStates s),
       length (sc_StateTimeline s), length (sc_Logs s), length (sc_Commands s), length (sc_Faults s),
       length (sc_Network s)]"
  by (auto simp: validateScenarioCounts_def)

lemmas validate_parts_iff =
  validate_identities_iff validateTimeline_iff validateLogs_iff validateCommands_iff
  validateNetwork_iff validateScenarioCounts_iff

lemma validate_sequence:
  "(case v of Inl err \<Rightarrow> Some err | Inr b \<Rightarrow> f b) = None \<longleftrightarrow> (\<exists>b. v = Inr b \<and> f b = None)"
  "(case v' of None \<Rightarrow> x | Some err \<Rightarrow> Some err) = None \<longleftrightarrow> v' = None \<and> x = None"
  by (cases v; cases v'; simp)+

lemma Validate_None_iff: "Validate pb s = None \<longleftrightarrow> scenario_ok pb s"
  unfolding Validate_def scenario_ok_def validateEntities_def validateInitialStates_def
  by (auto simp: validate_sequence validate_parts_iff scenario_messages_def fits_budget_append not_less add.assoc)

text \<open>C33. \<open>Validate\<close> accepts a scenario exactly when every field is within its limits, entities and
  states are of a supported kind with distinct identities, at most one of the two state fields is set,
  the timeline is non-negative and never goes back, expected commands have a count between one and a
  million, delays are in range, and the encoded messages fit one by one and all together.\<close>

theorem validate_iff: "(Validate pb s = None) = scenario_ok pb s"
  by (rule Validate_None_iff)

end
