(* ===== verification/Device.thy ===== *)
theory Device
  imports Scenario Framer Base64
begin

text \<open>
  \<open>simulator.Device\<close>: its options, its state and the operations on it that need no connection
  (\<open>simulator.go\<close>, \<open>command_expectations.go\<close>).

  Values are immutable here, so the defensive copies of the code (\<open>proto.Clone\<close>, \<open>cloneScenario\<close>) are
  the values themselves. Locks make each operation atomic. A session is the object of one connection:
  \<open>dv_connections\<close> holds the sessions in the connection map, \<open>dv_running\<close> the sessions whose serving
  goroutine has not finished.
\<close>

section \<open>Options\<close>

record sim_config =
  sf_plaintext :: bool
  sf_key :: bytes
  sf_clock :: "nat option"

type_synonym sim_option = "sim_config \<Rightarrow> sim_config"

text \<open>\<open>base64.StdEncoding.DecodeString\<close>: unlike the strict decoder it ignores the trailing bits.\<close>

fun b64_groups_any :: "bytes \<Rightarrow> bytes option" where
  "b64_groups_any [] = Some []"
| "b64_groups_any (c0 # c1 # c2 # c3 # rest) =
     (case (b64_val c0, b64_val c1) of
        (Some p, Some q) \<Rightarrow>
          if c2 = b64_pad then
            (if c3 = b64_pad \<and> rest = [] then Some [fst (bytes24 p q 0 0)] else None)
          else (case b64_val c2 of
            None \<Rightarrow> None
          | Some r \<Rightarrow>
              if c3 = b64_pad then
                (if rest = [] then Some [fst (bytes24 p q r 0), fst (snd (bytes24 p q r 0))] else None)
              else (case (b64_val c3, b64_groups_any rest) of
                (Some s, Some bs) \<Rightarrow> (case bytes24 p q r s of (x, y, z) \<Rightarrow> Some (x # y # z # bs))
              | _ \<Rightarrow> None))
      | _ \<Rightarrow> None)"
| "b64_groups_any _ = None"

definition b64_decode :: "bytes \<Rightarrow> bytes option" where
  "b64_decode txt = b64_groups_any (b64_strip txt)"

definition DefaultTestEncryptionKey :: string where
  "DefaultTestEncryptionKey = ''kJ7hc0lJ0Zw9N3DcJzXn1kJ7hc0lJ0Zw9N3DcJzXn1k=''"

definition defaultTestKey :: bytes where
  "defaultTestKey = (case b64_decode (string_bytes DefaultTestEncryptionKey) of None \<Rightarrow> [] | Some k \<Rightarrow> k)"

definition WithPlaintext :: sim_option where
  "WithPlaintext c = c\<lparr>sf_plaintext := True\<rparr>"

definition WithEncryptionKey :: "string \<Rightarrow> sim_option" where
  "WithEncryptionKey base64Key c =
    (case b64_decode (string_bytes base64Key) of
      Some decoded \<Rightarrow> if length decoded = 32 then c\<lparr>sf_key := decoded\<rparr> else c
    | None \<Rightarrow> c)"

definition WithManualClock :: "nat option \<Rightarrow> sim_option" where
  "WithManualClock clock c = (if clock \<noteq> None then c\<lparr>sf_clock := clock\<rparr> else c)"

definition apply_sim_options :: "sim_option option list \<Rightarrow> sim_config" where
  "apply_sim_options options =
    fold (\<lambda>opt c. case opt of None \<Rightarrow> c | Some f \<Rightarrow> f c) options
      \<lparr>sf_plaintext = False, sf_key = defaultTestKey, sf_clock = None\<rparr>"

section \<open>State\<close>

datatype CommandExpectationCode =
    CommandMissing | CommandUnexpected | CommandOutOfOrder | CommandOverflow

record CommandExpectationError =
  cx_Code :: CommandExpectationCode
  cx_ExpectationIndex :: nat
  cx_MatchedCount :: u32
  cx_ObservedCommands :: u64
  cx_cause :: "goerror option"

record 'f deviceSession =
  ds_framer :: 'f
  ds_subscribed :: bool
  ds_logsSubscribed :: bool
  ds_logLevel :: i32

record 'f device =
  dv_scenario :: Scenario
  dv_validationErr :: "ValidationError option"
  dv_config :: sim_config
  dv_commands :: "message list"
  dv_commandIndex :: nat
  dv_commandMatched :: u32
  dv_commandObserved :: u64
  dv_commandErr :: "CommandExpectationError option"
  dv_done :: bool
  dv_accepted :: u64
  dv_answeredPings :: u64
  dv_droppedCommands :: u64
  dv_droppedSessions :: u64
  dv_connections :: "nat list"
  dv_running :: "nat list"
  dv_sessions :: "nat \<Rightarrow> 'f deviceSession"
  dv_nextSession :: nat
  dv_listeners :: "nat list"
  dv_sessionTasks :: nat
  dv_currentStates :: "stateIdentity \<rightharpoonup> message"
  dv_stateOrder :: "stateIdentity list"
  dv_timelineIndex :: nat

definition MaxDeviceConnections :: nat where "MaxDeviceConnections = 64"
definition MaxDeviceListeners :: nat where "MaxDeviceListeners = 8"
definition commands_capacity :: nat where "commands_capacity = 64"

section \<open>The state store\<close>

definition storeStateLocked :: "message \<Rightarrow> 'f device \<Rightarrow> 'f device" where
  "storeStateLocked state d =
    (case stateIdentityOf (Some state) of
      None \<Rightarrow> d
    | Some identity \<Rightarrow>
        d\<lparr>dv_stateOrder := (if dv_currentStates d identity = None
            then dv_stateOrder d @ [identity] else dv_stateOrder d),
          dv_currentStates := (dv_currentStates d)(identity \<mapsto> state)\<rparr>)"

definition stateSnapshotLocked :: "'f device \<Rightarrow> message list" where
  "stateSnapshotLocked d = List.map_filter (dv_currentStates d) (dv_stateOrder d)"

definition initialStates :: "Scenario \<Rightarrow> message option list" where
  "initialStates s = (if sc_InitialStates s \<noteq> [] then sc_InitialStates s else sc_States s)"

definition applyFan :: "FanStateResponse \<Rightarrow> FanCommandRequest \<Rightarrow> FanStateResponse" where
  "applyFan state command =
    (let state = (if FanCmd_HasState command then state\<lparr>FanState_State := FanCmd_State command\<rparr> else state);
         state = (if FanCmd_HasOscillating command
           then state\<lparr>FanState_Oscillating := FanCmd_Oscillating command\<rparr> else state);
         state = (if FanCmd_HasDirection command
           then state\<lparr>FanState_Direction := FanCmd_Direction command\<rparr> else state);
         state = (if FanCmd_HasSpeedLevel command
           then state\<lparr>FanState_SpeedLevel := FanCmd_SpeedLevel command\<rparr> else state);
         state = (if FanCmd_HasPresetMode command
           then state\<lparr>FanState_PresetMode := FanCmd_PresetMode command\<rparr> else state)
     in state)"

definition applyLight :: "LightStateResponse \<Rightarrow> LightCommandRequest \<Rightarrow> LightStateResponse" where
  "applyLight state command =
    (let state = (if LightCmd_HasState command
           then state\<lparr>LightState_State := LightCmd_State command\<rparr> else state);
         state = (if LightCmd_HasBrightness command
           then state\<lparr>LightState_Brightness := LightCmd_Brightness command\<rparr> else state);
         state = (if LightCmd_HasColorMode command
           then state\<lparr>LightState_ColorMode := LightCmd_ColorMode command\<rparr> else state);
         state = (if LightCmd_HasColorBrightness command
           then state\<lparr>LightState_ColorBrightness := LightCmd_ColorBrightness command\<rparr> else state);
         state = (if LightCmd_HasRgb command
           then state\<lparr>LightState_Red := LightCmd_Red command, LightState_Green := LightCmd_Green command,
             LightState_Blue := LightCmd_Blue command\<rparr> else state);
         state = (if LightCmd_HasWhite command
           then state\<lparr>LightState_White := LightCmd_White command\<rparr> else state);
         state = (if LightCmd_HasColorTemperature command
           then state\<lparr>LightState_ColorTemperature := LightCmd_ColorTemperature command\<rparr> else state);
         state = (if LightCmd_HasColdWhite command
           then state\<lparr>LightState_ColdWhite := LightCmd_ColdWhite command\<rparr> else state);
         state = (if LightCmd_HasWarmWhite command
           then state\<lparr>LightState_WarmWhite := LightCmd_WarmWhite command\<rparr> else state);
         state = (if LightCmd_HasEffect command
           then state\<lparr>LightState_Effect := LightCmd_Effect command\<rparr> else state)
     in state)"

text \<open>The fan or light state a command leads to: the stored one changed, or a new one.\<close>

definition commanded_fan :: "FanCommandRequest \<Rightarrow> 'f device \<Rightarrow> FanStateResponse" where
  "commanded_fan m d =
    applyFan (case dv_currentStates d (''fan'', FanCmd_Key m) of
        Some (FanStateResponse state) \<Rightarrow> state
      | _ \<Rightarrow> zero_FanStateResponse\<lparr>FanState_Key := FanCmd_Key m\<rparr>) m"

definition commanded_light :: "LightCommandRequest \<Rightarrow> 'f device \<Rightarrow> LightStateResponse" where
  "commanded_light m d =
    applyLight (case dv_currentStates d (''light'', LightCmd_Key m) of
        Some (LightStateResponse state) \<Rightarrow> state
      | _ \<Rightarrow> zero_LightStateResponse\<lparr>LightState_Key := LightCmd_Key m\<rparr>) m"

text \<open>
  The reference for the store: the effect of a history of state messages on a map, the last message of
  each identity, and the identities in the order of their first message.
\<close>

definition put_state :: "message \<Rightarrow> (stateIdentity \<rightharpoonup> message) \<Rightarrow> (stateIdentity \<rightharpoonup> message)" where
  "put_state m f = (case stateIdentityOf (Some m) of None \<Rightarrow> f | Some i \<Rightarrow> f(i \<mapsto> m))"

definition replay :: "message list \<Rightarrow> (stateIdentity \<rightharpoonup> message)" where
  "replay ms = fold put_state ms Map.empty"

definition identities :: "message list \<Rightarrow> stateIdentity list" where
  "identities ms = rev (remdups (rev (List.map_filter (\<lambda>m. stateIdentityOf (Some m)) ms)))"

definition latest :: "message list \<Rightarrow> stateIdentity \<Rightarrow> message" where
  "latest ms i = last (filter (\<lambda>m. stateIdentityOf (Some m) = Some i) ms)"

definition state_store_ok :: "'f device \<Rightarrow> bool" where
  "state_store_ok d \<longleftrightarrow>
    distinct (dv_stateOrder d) \<and> set (dv_stateOrder d) = dom (dv_currentStates d) \<and>
    (\<forall>i m. dv_currentStates d i = Some m \<longrightarrow> stateIdentityOf (Some m) = Some i)"

lemma store_states: "dv_currentStates (storeStateLocked m d) = put_state m (dv_currentStates d)"
  by (simp add: storeStateLocked_def put_state_def split: option.split)

lemma store_order:
  "dv_stateOrder (storeStateLocked m d) =
    (case stateIdentityOf (Some m) of None \<Rightarrow> dv_stateOrder d
     | Some i \<Rightarrow> if dv_currentStates d i = None then dv_stateOrder d @ [i] else dv_stateOrder d)"
  by (simp add: storeStateLocked_def split: option.split)

lemma store_frame [simp]:
  "dv_scenario (storeStateLocked m d) = dv_scenario d"
  "dv_config (storeStateLocked m d) = dv_config d"
  "dv_validationErr (storeStateLocked m d) = dv_validationErr d"
  "dv_done (storeStateLocked m d) = dv_done d"
  "dv_connections (storeStateLocked m d) = dv_connections d"
  "dv_running (storeStateLocked m d) = dv_running d"
  "dv_sessions (storeStateLocked m d) = dv_sessions d"
  "dv_nextSession (storeStateLocked m d) = dv_nextSession d"
  "dv_accepted (storeStateLocked m d) = dv_accepted d"
  "dv_listeners (storeStateLocked m d) = dv_listeners d"
  "dv_sessionTasks (storeStateLocked m d) = dv_sessionTasks d"
  "dv_timelineIndex (storeStateLocked m d) = dv_timelineIndex d"
  by (simp_all add: storeStateLocked_def split: option.split)

lemma store_ok: "state_store_ok d \<Longrightarrow> state_store_ok (storeStateLocked m d)"
  by (auto simp: state_store_ok_def store_states store_order put_state_def split: option.splits if_splits)

lemma replay_Nil [simp]: "replay [] = Map.empty"
  by (simp add: replay_def)

lemma replay_snoc [simp]: "replay (ms @ [m]) = put_state m (replay ms)"
  by (simp add: replay_def)

lemma put_all:
  assumes "\<And>i m. g i = Some m \<Longrightarrow> stateIdentityOf (Some m) = Some i"
  shows "fold put_state (List.map_filter g order) f =
    (\<lambda>i. if i \<in> set order \<and> g i \<noteq> None then g i else f i)"
proof (induction order arbitrary: f)
  case (Cons i order)
  show ?case
  proof (cases "g i")
    case (Some m)
    with assms have "put_state m f = f(i \<mapsto> m)" by (simp add: put_state_def)
    with Some show ?thesis by (auto simp: Cons.IH map_filter_simps fun_eq_iff)
  qed (auto simp: Cons.IH map_filter_simps fun_eq_iff)
qed (simp add: map_filter_simps)

text \<open>Whoever holds no identity beyond the stored ones and reads a snapshot holds the stored states.\<close>

lemma put_snapshot:
  assumes "state_store_ok d" "dom f \<subseteq> dom (dv_currentStates d)"
  shows "fold put_state (stateSnapshotLocked d) f = dv_currentStates d"
proof -
  have "fold put_state (stateSnapshotLocked d) f =
    (\<lambda>i. if i \<in> set (dv_stateOrder d) \<and> dv_currentStates d i \<noteq> None then dv_currentStates d i else f i)"
    unfolding stateSnapshotLocked_def by (rule put_all) (use assms(1) in \<open>auto simp: state_store_ok_def\<close>)
  also have "\<dots> = dv_currentStates d"
    using assms by (auto simp: state_store_ok_def fun_eq_iff)
  finally show ?thesis .
qed

lemma identities_snoc:
  "identities (ms @ [m]) =
    (case stateIdentityOf (Some m) of None \<Rightarrow> identities ms
     | Some i \<Rightarrow> if i \<in> set (identities ms) then identities ms else identities ms @ [i])"
  by (simp add: identities_def map_filter_append map_filter_simps split: option.split)

lemma replay_latest:
  "replay ms i = (if i \<in> set (identities ms) then Some (latest ms i) else None)"
  by (induction ms rule: rev_induct)
    (auto simp: identities_snoc latest_def put_state_def identities_def map_filter_simps split: option.split)

lemma replay_None: "replay ms i = None \<longleftrightarrow> i \<notin> set (identities ms)"
  by (simp add: replay_latest)

lemma stored_history:
  assumes "dv_currentStates d = Map.empty" "dv_stateOrder d = []"
  shows "dv_currentStates (fold storeStateLocked ms d) = replay ms \<and>
    dv_stateOrder (fold storeStateLocked ms d) = identities ms"
proof (induction ms rule: rev_induct)
  case (snoc m ms)
  then show ?case
    by (cases "stateIdentityOf (Some m)")
      (simp_all add: store_states store_order identities_snoc replay_None)
qed (simp add: assms identities_def map_filter_simps)

text \<open>Whatever states were stored, one after another, the snapshot a new subscriber gets has one
  message per entity: its last one, with the entities in the order in which they first had a state.\<close>

theorem snapshot_is_latest:
  assumes "dv_currentStates d = Map.empty" "dv_stateOrder d = []"
  shows "stateSnapshotLocked (fold storeStateLocked ms d) = map (latest ms) (identities ms)"
proof -
  have "List.map_filter (replay ms) is = map (latest ms) is" if "set is \<subseteq> set (identities ms)" for "is"
    using that by (induction "is") (auto simp: map_filter_simps replay_latest)
  with stored_history[OF assms] show ?thesis
    by (simp add: stateSnapshotLocked_def)
qed

section \<open>Expected commands\<close>

text \<open>\<open>eq\<close> is \<open>proto.Equal\<close>, a function of the protobuf runtime.\<close>

definition setCommandErrorLocked :: "CommandExpectationCode \<Rightarrow> 'f device \<Rightarrow> 'f device" where
  "setCommandErrorLocked code d =
    (if dv_commandErr d \<noteq> None then d
     else d\<lparr>dv_commandErr := Some \<lparr>cx_Code = code, cx_ExpectationIndex = dv_commandIndex d,
       cx_MatchedCount = dv_commandMatched d, cx_ObservedCommands = dv_commandObserved d,
       cx_cause = None\<rparr>\<rparr>)"

definition observeCommandLocked ::
  "(message \<Rightarrow> message \<Rightarrow> bool) \<Rightarrow> message \<Rightarrow> 'f device \<Rightarrow> 'f device" where
  "observeCommandLocked eq command d =
    (let expected = sc_Commands (dv_scenario d) in
     if expected = [] \<or> dv_commandErr d \<noteq> None then d
     else
       (let d = d\<lparr>dv_commandObserved := dv_commandObserved d + 1\<rparr> in
        if dv_commandIndex d = length expected then setCommandErrorLocked CommandUnexpected d
        else if \<not> eq command (the (ce_Command (expected ! dv_commandIndex d)))
        then setCommandErrorLocked
          (if list_ex (\<lambda>e. eq command (the (ce_Command e))) (drop (dv_commandIndex d + 1) expected)
           then CommandOutOfOrder else CommandUnexpected) d
        else
          (let d = d\<lparr>dv_commandMatched := dv_commandMatched d + 1\<rparr> in
           if dv_commandMatched d = ce_Count (expected ! dv_commandIndex d)
           then d\<lparr>dv_commandIndex := dv_commandIndex d + 1, dv_commandMatched := 0\<rparr>
           else d)))"

definition record_command :: "(message \<Rightarrow> message \<Rightarrow> bool) \<Rightarrow> message \<Rightarrow> 'f device \<Rightarrow> 'f device" where
  "record_command eq m d =
    (let d = observeCommandLocked eq m d in
     if length (dv_commands d) < commands_capacity then d\<lparr>dv_commands := dv_commands d @ [m]\<rparr>
     else
       (let d = d\<lparr>dv_droppedCommands := dv_droppedCommands d + 1\<rparr> in
        if sc_Commands (dv_scenario d) \<noteq> [] \<and> dv_commandErr d = None
        then setCommandErrorLocked CommandOverflow d else d))"

definition commandExpectationSentinel :: "CommandExpectationCode \<Rightarrow> sentinel" where
  "commandExpectationSentinel code =
    (case code of
      CommandMissing \<Rightarrow> ErrCommandMissing
    | CommandUnexpected \<Rightarrow> ErrCommandUnexpected
    | CommandOutOfOrder \<Rightarrow> ErrCommandOutOfOrder
    | CommandOverflow \<Rightarrow> ErrCommandOverflow)"

text \<open>\<open>Unwrap\<close> of a command expectation error.\<close>

definition expectation_goerror :: "CommandExpectationError \<Rightarrow> goerror" where
  "expectation_goerror e = Errorf ''%v: %s''
    ([Err ErrCommandExpectation, Err (commandExpectationSentinel (cx_Code e))] @
     (case cx_cause e of None \<Rightarrow> [] | Some c \<Rightarrow> [c]))"

definition commands_complete :: "'f device \<Rightarrow> bool" where
  "commands_complete d \<longleftrightarrow>
    sc_Commands (dv_scenario d) = [] \<or> dv_commandIndex d = length (sc_Commands (dv_scenario d))"

definition missingCommandError :: "goerror \<Rightarrow> 'f device \<Rightarrow> CommandExpectationError option" where
  "missingCommandError cause d =
    (case dv_commandErr d of
      Some err \<Rightarrow> Some err
    | None \<Rightarrow>
        if commands_complete d then None
        else Some \<lparr>cx_Code = CommandMissing, cx_ExpectationIndex = dv_commandIndex d,
          cx_MatchedCount = dv_commandMatched d, cx_ObservedCommands = dv_commandObserved d,
          cx_cause = Some cause\<rparr>)"

text \<open>One round of \<open>WaitForCommandExpectations\<close> with what its select finds: \<open>None\<close> waits on.\<close>

definition WaitForCommandExpectations ::
  "goerror option \<Rightarrow> 'f device \<Rightarrow> CommandExpectationError option option" where
  "WaitForCommandExpectations ctx d =
    (case dv_commandErr d of
      Some err \<Rightarrow> Some (Some err)
    | None \<Rightarrow>
        if commands_complete d then Some None
        else (case ctx of
            Some cause \<Rightarrow> Some (missingCommandError cause d)
          | None \<Rightarrow>
              if dv_done d then Some (missingCommandError (Err ErrSimulatorClosed) d) else None))"

section \<open>Construction\<close>

text \<open>\<open>New\<close> up to the first \<open>advanceTimeline\<close>, which has no subscribers to tell.\<close>

definition new_device :: "protobuf \<Rightarrow> Scenario \<Rightarrow> sim_option option list \<Rightarrow> (nat \<Rightarrow> 'f deviceSession) \<Rightarrow> 'f device" where
  "new_device pb scenario options sessions =
    (let scenario = (if sc_Name scenario = '''' then scenario\<lparr>sc_Name := ''simulated-esphome''\<rparr> else scenario);
         validationErr = Validate pb scenario;
         scenario = (if validationErr = None then cloneScenario scenario
           else bare_scenario (sc_Name scenario) (sc_Seed scenario));
         d = \<lparr>dv_scenario = scenario, dv_validationErr = validationErr,
           dv_config = apply_sim_options options, dv_commands = [], dv_commandIndex = 0,
           dv_commandMatched = 0, dv_commandObserved = 0, dv_commandErr = None, dv_done = False,
           dv_accepted = 0, dv_answeredPings = 0, dv_droppedCommands = 0, dv_droppedSessions = 0,
           dv_connections = [], dv_running = [], dv_sessions = sessions, dv_nextSession = 0,
           dv_listeners = [], dv_sessionTasks = 0, dv_currentStates = Map.empty, dv_stateOrder = [],
           dv_timelineIndex = 0\<rparr>
     in if validationErr = None
        then fold (\<lambda>s d. storeStateLocked (the s) d) (initialStates scenario) d else d)"

definition deviceInfo :: "'f device \<Rightarrow> DeviceInfoResponse" where
  "deviceInfo d = zero_DeviceInfoResponse\<lparr>
    DevInfo_Name := sc_Name (dv_scenario d), DevInfo_FriendlyName := sc_Name (dv_scenario d),
    DevInfo_MacAddress := ''02:00:00:00:00:01'', DevInfo_EsphomeVersion := ''2026.7.0'',
    DevInfo_Model := ''go-aioesphomeapi-simulator'', DevInfo_Manufacturer := ''go-aioesphomeapi'',
    DevInfo_ApiEncryptionSupported := (\<not> sf_plaintext (dv_config d))\<rparr>"

end
