(* ===== verification/Expectations.thy ===== *)
theory Expectations
  imports Device
begin

text \<open>
  What \<open>observeCommandLocked\<close> and \<open>WaitForCommandExpectations\<close> decide: a list of expected commands with
  counts stands for one sequence of commands, and the device compares what it receives with it.
\<close>

definition expected_commands :: "CommandExpectation list \<Rightarrow> message list" where
  "expected_commands E = concat (map (\<lambda>e. replicate (unat (ce_Count e)) (the (ce_Command e))) E)"

text \<open>\<open>k\<close> and \<open>m\<close> are the index and the matches so far when the first \<open>n\<close> commands were the expected ones.\<close>

definition position :: "CommandExpectation list \<Rightarrow> nat \<Rightarrow> nat \<Rightarrow> nat \<Rightarrow> bool" where
  "position E n k m \<longleftrightarrow>
    n = length (expected_commands (take k E)) + m \<and>
    (if k < length E then m < unat (ce_Count (E ! k)) else k = length E \<and> m = 0)"

lemma expected_split:
  assumes "k < length E"
  shows "expected_commands E = expected_commands (take k E) @
    replicate (unat (ce_Count (E ! k))) (the (ce_Command (E ! k))) @ expected_commands (drop (Suc k) E)"
  by (subst id_take_nth_drop[OF assms]) (simp add: expected_commands_def)

lemma position_end: "position E n k m \<Longrightarrow> \<not> k < length E \<Longrightarrow> n = length (expected_commands E)"
  by (simp add: position_def)

lemma position_nth:
  assumes "position E n k m" "k < length E"
  shows "n < length (expected_commands E) \<and> expected_commands E ! n = the (ce_Command (E ! k))"
proof -
  from assms have "m < unat (ce_Count (E ! k))" "n = length (expected_commands (take k E)) + m"
    by (simp_all add: position_def)
  then show ?thesis
    by (subst (1 2) expected_split[OF assms(2)]) (simp add: nth_append)
qed

lemma position_repeat:
  assumes "position E n k m" "k < length E" "Suc m \<noteq> unat (ce_Count (E ! k))"
  shows "position E (Suc n) k (Suc m)"
  using assms by (auto simp: position_def)

lemma position_advance:
  assumes "position E n k m" "k < length E" "Suc m = unat (ce_Count (E ! k))"
    and "list_all (\<lambda>e. ce_Count e \<noteq> 0) E"
  shows "position E (Suc n) (Suc k) 0"
proof -
  have "expected_commands (take (Suc k) E) = expected_commands (take k E) @
      replicate (unat (ce_Count (E ! k))) (the (ce_Command (E ! k)))"
    using assms(2) by (simp add: expected_commands_def take_Suc_conv_app_nth)
  moreover have "unat (ce_Count e) > 0" if "e \<in> set E" for e
    using assms(4) that by (simp add: list_all_iff unat_gt_0)
  ultimately show ?thesis
    using assms(1-3) by (auto simp: position_def)
qed

text \<open>What the device says of the first command that is not the expected one.\<close>

definition deviation :: "(message \<Rightarrow> message \<Rightarrow> bool) \<Rightarrow> CommandExpectation list \<Rightarrow> message list \<Rightarrow>
    nat \<Rightarrow> CommandExpectationError \<Rightarrow> bool" where
  "deviation eq E cs n e \<longleftrightarrow>
    n < length cs \<and> n \<le> length (expected_commands E) \<and>
    list_all2 eq (take n cs) (take n (expected_commands E)) \<and>
    (n = length (expected_commands E) \<or> \<not> eq (cs ! n) (expected_commands E ! n)) \<and>
    cx_ObservedCommands e = of_nat (Suc n) \<and>
    position E n (cx_ExpectationIndex e) (unat (cx_MatchedCount e)) \<and>
    cx_Code e = (if list_ex (\<lambda>x. eq (cs ! n) (the (ce_Command x))) (drop (Suc (cx_ExpectationIndex e)) E)
      then CommandOutOfOrder else CommandUnexpected)"

definition observed_ok :: "(message \<Rightarrow> message \<Rightarrow> bool) \<Rightarrow> CommandExpectation list \<Rightarrow> message list \<Rightarrow>
    'f device \<Rightarrow> bool" where
  "observed_ok eq E cs d \<longleftrightarrow>
    sc_Commands (dv_scenario d) = E \<and>
    (case dv_commandErr d of
       None \<Rightarrow>
         position E (length cs) (dv_commandIndex d) (unat (dv_commandMatched d)) \<and>
         length cs \<le> length (expected_commands E) \<and>
         list_all2 eq cs (take (length cs) (expected_commands E)) \<and>
         dv_commandObserved d = of_nat (length cs)
     | Some e \<Rightarrow> \<exists>n. deviation eq E cs n e)"

lemma deviation_later:
  assumes "deviation eq E cs n e"
  shows "deviation eq E (cs @ [c]) n e"
  using assms by (auto simp: deviation_def nth_append)

lemma setCommandError_fields [simp]:
  "dv_scenario (setCommandErrorLocked code d) = dv_scenario d"
  "dv_commandErr d = None \<Longrightarrow> dv_commandErr (setCommandErrorLocked code d) =
    Some \<lparr>cx_Code = code, cx_ExpectationIndex = dv_commandIndex d,
      cx_MatchedCount = dv_commandMatched d, cx_ObservedCommands = dv_commandObserved d, cx_cause = None\<rparr>"
  by (simp_all add: setCommandErrorLocked_def)

lemma unat_Suc_match:
  fixes m c :: u32
  assumes "Suc (unat m) = unat c \<or> Suc (unat m) < unat c"
  shows "unat (m + 1) = Suc (unat m)"
proof -
  have "unat c < 2 ^ 32" using unsigned_less[of c] by simp
  with assms show ?thesis by (auto simp: unat_word_ariths)
qed

lemma observe_ok:
  assumes ok: "observed_ok eq E cs d" and counts: "list_all (\<lambda>e. ce_Count e \<noteq> 0) E" and E: "E \<noteq> []"
  shows "observed_ok eq E (cs @ [c]) (observeCommandLocked eq c d)"
proof (cases "dv_commandErr d")
  case (Some e)
  with ok show ?thesis
    by (auto simp: observed_ok_def observeCommandLocked_def intro: deviation_later)
next
  case None
  let ?k = "dv_commandIndex d" and ?m = "dv_commandMatched d" and ?n = "length cs"
  from ok None have sc: "sc_Commands (dv_scenario d) = E"
    and pos: "position E ?n ?k (unat ?m)" and le: "?n \<le> length (expected_commands E)"
    and pre: "list_all2 eq cs (take ?n (expected_commands E))"
    and obs: "dv_commandObserved d = of_nat ?n"
    by (simp_all add: observed_ok_def)
  show ?thesis
  proof (cases "?k < length E")
    case False
    with pos have k: "?k = length E" by (simp add: position_def)
    with None E pos pre obs sc show ?thesis
      using position_end[OF pos False]
      by (auto simp: observed_ok_def observeCommandLocked_def Let_def deviation_def
          intro!: exI[of _ ?n])
  next
    case True
    note at = position_nth[OF pos True]
    show ?thesis
    proof (cases "eq c (the (ce_Command (E ! ?k)))")
      case False
      with None E pos pre obs sc True at show ?thesis
        by (auto simp: observed_ok_def observeCommandLocked_def Let_def deviation_def
            intro!: exI[of _ ?n])
    next
      case eq: True
      from pos True have lt: "unat ?m < unat (ce_Count (E ! ?k))" by (simp add: position_def)
      then have m: "unat (?m + 1) = Suc (unat ?m)"
        by (intro unat_Suc_match[of _ "ce_Count (E ! ?k)"]) auto
      then have mc: "(?m + 1 = ce_Count (E ! ?k)) = (Suc (unat ?m) = unat (ce_Count (E ! ?k)))"
        by (simp add: word_unat_eq_iff)
      have "list_all2 eq (cs @ [c]) (take (Suc ?n) (expected_commands E))"
        using pre at eq by (simp add: take_Suc_conv_app_nth list_all2_appendI)
      with None E obs sc True at eq m mc show ?thesis
        using position_repeat[OF pos True] position_advance[OF pos True _ counts]
        by (cases "?m + 1 = ce_Count (E ! ?k)")
          (simp_all add: observed_ok_def observeCommandLocked_def Let_def)
    qed
  qed
qed

lemma observe_all_ok:
  assumes "observed_ok eq E [] d" "list_all (\<lambda>e. ce_Count e \<noteq> 0) E" "E \<noteq> []"
  shows "observed_ok eq E cs (fold (observeCommandLocked eq) cs d)"
  by (induction cs rule: rev_induct) (simp_all add: assms observe_ok)

definition no_commands_yet :: "'f device \<Rightarrow> bool" where
  "no_commands_yet d \<longleftrightarrow>
    dv_commandErr d = None \<and> dv_commandIndex d = 0 \<and> dv_commandMatched d = 0 \<and> dv_commandObserved d = 0"

lemma observed_ok_start:
  assumes "no_commands_yet d" "sc_Commands (dv_scenario d) = E" "list_all (\<lambda>e. ce_Count e \<noteq> 0) E"
  shows "observed_ok eq E [] d"
  using assms
  by (auto simp: observed_ok_def no_commands_yet_def position_def expected_commands_def list_all_iff
      unat_gt_0 dest: nth_mem)

lemma complete_iff:
  assumes "observed_ok eq E cs d" "dv_commandErr d = None" "list_all (\<lambda>e. ce_Count e \<noteq> 0) E" "E \<noteq> []"
  shows "commands_complete d \<longleftrightarrow> length cs = length (expected_commands E)"
proof -
  from assms(1,2) have pos: "position E (length cs) (dv_commandIndex d) (unat (dv_commandMatched d))"
    and sc: "sc_Commands (dv_scenario d) = E"
    by (simp_all add: observed_ok_def)
  show ?thesis
    using pos position_end[OF pos] position_nth[OF pos] assms(4)
    by (auto simp: commands_complete_def sc position_def split: if_splits)
qed

lemma expectations_verdict:
  assumes start: "no_commands_yet d" and E: "sc_Commands (dv_scenario d) = E" "E \<noteq> []"
    and counts: "list_all (\<lambda>e. ce_Count e \<noteq> 0) E"
    and d': "d' = fold (observeCommandLocked eq) cs d"
  shows "WaitForCommandExpectations None d' = Some None \<longleftrightarrow> list_all2 eq cs (expected_commands E)"
    and "dv_commandErr d' = None \<longleftrightarrow> length cs \<le> length (expected_commands E) \<and>
      list_all2 eq cs (take (length cs) (expected_commands E))"
    and "dv_commandErr d' = Some e \<Longrightarrow> \<exists>n. deviation eq E cs n e"
proof -
  have ok: "observed_ok eq E cs d'"
    unfolding d' by (rule observe_all_ok[OF observed_ok_start[OF start E(1) counts] counts E(2)])
  have dev: "\<not> (length cs \<le> length (expected_commands E) \<and>
      list_all2 eq cs (take (length cs) (expected_commands E)))" if "deviation eq E cs n e" for n e
    using that by (auto simp: deviation_def list_all2_conv_all_nth)
  then show none: "dv_commandErr d' = None \<longleftrightarrow> length cs \<le> length (expected_commands E) \<and>
      list_all2 eq cs (take (length cs) (expected_commands E))"
    using ok by (auto simp: observed_ok_def split: option.splits)
  show "\<exists>n. deviation eq E cs n e" if "dv_commandErr d' = Some e"
    using ok that by (simp add: observed_ok_def)
  show "WaitForCommandExpectations None d' = Some None \<longleftrightarrow> list_all2 eq cs (expected_commands E)"
  proof (cases "dv_commandErr d'")
    case None
    with none have "list_all2 eq cs (take (length cs) (expected_commands E))" by simp
    then have "list_all2 eq cs (expected_commands E) \<longleftrightarrow> length cs = length (expected_commands E)"
      by (auto dest: list_all2_lengthD)
    with complete_iff[OF ok None counts E(2)] None show ?thesis
      by (auto simp: WaitForCommandExpectations_def missingCommandError_def)
  next
    case (Some e)
    with none show ?thesis
      by (auto simp: WaitForCommandExpectations_def list_all2_lengthD)
  qed
qed


lemma replicate_2: "replicate 2 x = [x, x]"
  by (simp add: numeral_2_eq_2)

definition two_presses :: Scenario where
  "two_presses = (bare_scenario ''device'' 0)\<lparr>sc_Commands :=
    [\<lparr>ce_Command = Some (ButtonCommandRequest \<lparr>ButtonCmd_Key = 1, ButtonCmd_DeviceId = 0\<rparr>), ce_Count = 2\<rparr>,
     \<lparr>ce_Command = Some (ButtonCommandRequest \<lparr>ButtonCmd_Key = 2, ButtonCmd_DeviceId = 0\<rparr>), ce_Count = 1\<rparr>]\<rparr>"

definition free_protobuf :: protobuf where
  "free_protobuf = \<lparr>pb_marshal = (\<lambda>_. Inr []), pb_unmarshal = (\<lambda>_ m. Inr m), pb_size = (\<lambda>_. 0)\<rparr>"

definition press :: "u32 \<Rightarrow> message" where
  "press k = ButtonCommandRequest \<lparr>ButtonCmd_Key = k, ButtonCmd_DeviceId = 0\<rparr>"

definition pressed_device :: "u32 list \<Rightarrow> unit device" where
  "pressed_device keys = fold (observeCommandLocked (=)) (map press keys)
    (new_device free_protobuf two_presses []
      (\<lambda>_. \<lparr>ds_framer = (), ds_subscribed = False, ds_logsSubscribed = False, ds_logLevel = 0\<rparr>))"

lemma two_presses_valid: "Validate free_protobuf two_presses = None"
  unfolding Validate_None_iff scenario_ok_def
  by (simp add: two_presses_def bare_scenario_def identified_def timeline_ok_def command_ok_def
      validCommand_def fits_budget_def scenario_messages_def messages_of_logs_def free_protobuf_def
      MaxScenarioMessageBytes_def MaxScenarioItemsPerField_def MaxCommandExpectationCount_def)

end
