(* ===== verification/Device_Serve.thy ===== *)
theory Device_Serve
  imports Device
begin

text \<open>
  The running simulator: \<open>Device.serve\<close> with its faults (\<open>simulator.go\<close>, \<open>fault.go\<close>), the accept path, the
  operations that push states and logs, the timeline, and shutting down.

  A serving goroutine is a program counter per session. What its handler of a message still has to do is
  a list of tasks, each an atomic step, so other goroutines run between any two of them. The lock
  \<open>stateSerial\<close> is held over several sends, so its holder is part of the state; the other locks are held
  only within a step. \<open>sm_sent\<close>, \<open>sm_failed\<close> and \<open>sm_commanded\<close> are history: no step reads them.

  A session's connection and framer are one value of type \<open>'f\<close> with the operations \<open>link_ops\<close>.
\<close>

section \<open>State\<close>

record 'f link_ops = "'f framer" +
  lk_establish :: "sim_config \<Rightarrow> string \<Rightarrow> 'f \<Rightarrow> bool \<times> 'f"
  lk_arm :: "int \<Rightarrow> NetworkAction \<Rightarrow> int \<Rightarrow> 'f \<Rightarrow> 'f"
  lk_closed :: "'f \<Rightarrow> bool"

datatype task =
    Send message
  | SendRaw u32 bytes
  | Record message
  | Store message
  | StoreFan FanCommandRequest
  | StoreLight LightCommandRequest
  | Subscribe
  | Unlock
  | SubscribeToLogs i32
  | CountPing
  | ArmNetwork FaultTrigger
  | Stall
  | Return

datatype serve_pc = Accepted | Greeting | Serving | Working "task list" | Leaving | ClosedConn | Gone

text \<open>Who holds \<open>stateSerial\<close>: a session, or a push or the timeline with what it still has to send; the
  timeline then goes on to the next event due at its time.\<close>

datatype serial = Free | HeldBy nat | Broadcasting "(nat \<times> message) list" "int option"

record 'f simulation =
  sm_dev :: "'f device"
  sm_now :: int
  sm_pc :: "nat \<Rightarrow> serve_pc"
  sm_serial :: serial
  sm_pushes :: "message list"
  sm_advance :: "int option"
  sm_logs :: "(nat \<times> SubscribeLogsResponse) list list"
  sm_closing :: "nat list"
  sm_sent :: "nat \<Rightarrow> message list"
  sm_failed :: "nat \<Rightarrow> bool"
  sm_commanded :: "(nat \<times> stateIdentity) list"

definition on_dev :: "('f device \<Rightarrow> 'f device) \<Rightarrow> 'f simulation \<Rightarrow> 'f simulation" where
  "on_dev f s = s\<lparr>sm_dev := f (sm_dev s)\<rparr>"

definition set_session :: "nat \<Rightarrow> ('f deviceSession \<Rightarrow> 'f deviceSession) \<Rightarrow> 'f device \<Rightarrow> 'f device" where
  "set_session i f d = d\<lparr>dv_sessions := (dv_sessions d)(i := f (dv_sessions d i))\<rparr>"

definition set_link :: "nat \<Rightarrow> 'f \<Rightarrow> 'f simulation \<Rightarrow> 'f simulation" where
  "set_link i link = on_dev (set_session i (\<lambda>x. x\<lparr>ds_framer := link\<rparr>))"

definition link_of :: "nat \<Rightarrow> 'f simulation \<Rightarrow> 'f" where
  "link_of i s = ds_framer (dv_sessions (sm_dev s) i)"

definition set_pc :: "nat \<Rightarrow> serve_pc \<Rightarrow> 'f simulation \<Rightarrow> 'f simulation" where
  "set_pc i pc s = s\<lparr>sm_pc := (sm_pc s)(i := pc)\<rparr>"

section \<open>Sending\<close>

definition write_frame :: "'f link_ops \<Rightarrow> nat \<Rightarrow> u32 \<Rightarrow> bytes \<Rightarrow> 'f simulation \<Rightarrow> goerror option \<times> 'f simulation"
where
  "write_frame F i mid payload s =
    (case fr_WriteFrame F mid payload (link_of i s) of (e, link) \<Rightarrow> (e, set_link i link s))"

text \<open>\<open>deviceSession.send\<close> without the history.\<close>

definition session_write ::
  "'f link_ops \<Rightarrow> protobuf \<Rightarrow> nat \<Rightarrow> message \<Rightarrow> 'f simulation \<Rightarrow> goerror option \<times> 'f simulation" where
  "session_write F pb i m s =
    (case MessageID api_registry (Some m) of
      Inl err \<Rightarrow> (Some err, s)
    | Inr mid \<Rightarrow> (case pb_marshal pb m of
        Inl err \<Rightarrow> (Some err, s)
      | Inr payload \<Rightarrow> write_frame F i mid payload s))"

definition session_send ::
  "'f link_ops \<Rightarrow> protobuf \<Rightarrow> nat \<Rightarrow> message \<Rightarrow> 'f simulation \<Rightarrow> goerror option \<times> 'f simulation" where
  "session_send F pb i m s =
    (case session_write F pb i m s of
      (Some err, s) \<Rightarrow> (Some err, s\<lparr>sm_failed := (sm_failed s)(i := True)\<rparr>)
    | (None, s) \<Rightarrow> (None, s\<lparr>sm_sent := (sm_sent s)(i := sm_sent s i @ [m])\<rparr>))"

section \<open>Faults and handlers as tasks\<close>

text \<open>The tasks of \<open>triggerFault\<close>: the matching faults in order up to the first that ends the session.
  A failing write in them ends the session too.\<close>

fun fault_tasks :: "FaultTrigger \<Rightarrow> Fault list \<Rightarrow> task list" where
  "fault_tasks trigger [] = []"
| "fault_tasks trigger (f # fs) =
    (if ft_Trigger f \<noteq> trigger then fault_tasks trigger fs
     else (case ft_Action f of
         FaultDropConnection \<Rightarrow> [Return]
       | FaultMalformedProtobuf \<Rightarrow> [SendRaw 8 [0x80], Return]
       | FaultUnknownMessage \<Rightarrow> SendRaw 65000 [] # fault_tasks trigger fs
       | FaultDuplicateEntitiesDone \<Rightarrow>
           Send ListEntitiesDoneResponse # Send ListEntitiesDoneResponse # fault_tasks trigger fs
       | FaultStall \<Rightarrow> [Stall, Return]
       | OtherFault _ \<Rightarrow> fault_tasks trigger fs))"

definition trigger_tasks :: "Scenario \<Rightarrow> FaultTrigger \<Rightarrow> task list" where
  "trigger_tasks sc trigger = fault_tasks trigger (sc_Faults sc) @ [ArmNetwork trigger]"

definition hello_response :: "Scenario \<Rightarrow> message" where
  "hello_response sc = HelloResponse (zero_HelloResponse\<lparr>Hello_ApiVersionMajor := 1,
    Hello_ApiVersionMinor := 10, Hello_ServerInfo := ''go-aioesphomeapi simulator'', Hello_Name := sc_Name sc\<rparr>)"

definition isCommandRequest :: "message \<Rightarrow> bool" where
  "isCommandRequest m = is_prefix (rev ''CommandRequest'') (rev (message_name m))"

definition admitted_logs :: "i32 \<Rightarrow> Scenario \<Rightarrow> SubscribeLogsResponse list" where
  "admitted_logs level sc = filter (\<lambda>e. Log_Level e \<le>s level) (map the (sc_Logs sc))"

definition handler_tasks :: "'f device \<Rightarrow> message \<Rightarrow> task list" where
  "handler_tasks d m =
    (let sc = dv_scenario d in
     case m of
       ListEntitiesRequest \<Rightarrow>
         map (\<lambda>e. Send (the e)) (sc_Entities sc) @ trigger_tasks sc FaultBeforeEntitiesDone @
         [Send ListEntitiesDoneResponse]
     | SubscribeStatesRequest \<Rightarrow> Subscribe # trigger_tasks sc FaultAfterInitialStates
     | SubscribeLogsRequest r \<Rightarrow>
         SubscribeToLogs (LogsReq_Level r) #
         map (\<lambda>e. Send (SubscribeLogsResponse e)) (admitted_logs (LogsReq_Level r) sc)
     | PingRequest \<Rightarrow> [Send PingResponse, CountPing]
     | DeviceInfoRequest \<Rightarrow> [Send (DeviceInfoResponse (deviceInfo d))]
     | DisconnectRequest _ \<Rightarrow> [Send DisconnectResponse, Return]
     | SwitchCommandRequest c \<Rightarrow>
         [Store (SwitchStateResponse (zero_SwitchStateResponse\<lparr>SwitchState_Key := SwitchCmd_Key c,
           SwitchState_State := SwitchCmd_State c\<rparr>))]
     | NumberCommandRequest c \<Rightarrow>
         [Store (NumberStateResponse (zero_NumberStateResponse\<lparr>NumberState_Key := NumberCmd_Key c,
           NumberState_State := NumberCmd_State c\<rparr>))]
     | FanCommandRequest c \<Rightarrow> [StoreFan c]
     | LightCommandRequest c \<Rightarrow> [StoreLight c]
     | _ \<Rightarrow> [])"

definition message_tasks :: "'f device \<Rightarrow> message \<Rightarrow> task list" where
  "message_tasks d m = (if isCommandRequest m then [Record m] else []) @ handler_tasks d m"

section \<open>The serving goroutine\<close>

text \<open>Leaving \<open>serve\<close> gives back \<open>stateSerial\<close> when it is held.\<close>

definition leave :: "nat \<Rightarrow> 'f simulation \<Rightarrow> 'f simulation" where
  "leave i s = set_pc i Leaving (if sm_serial s = HeldBy i then s\<lparr>sm_serial := Free\<rparr> else s)"

definition sends_state :: "message \<Rightarrow> task list" where
  "sends_state m = [Send m, Unlock]"

text \<open>A command's new state under \<open>stateSerial\<close>.\<close>

definition commit_command :: "nat \<Rightarrow> message \<Rightarrow> task list \<Rightarrow> 'f simulation \<Rightarrow> 'f simulation option" where
  "commit_command i m ts s =
    (if sm_serial s = Free
     then Some (set_pc i (Working (sends_state m @ ts))
       (on_dev (storeStateLocked m) (s\<lparr>sm_serial := HeldBy i,
         sm_commanded := sm_commanded s @ (case stateIdentityOf (Some m) of None \<Rightarrow> [] | Some x \<Rightarrow> [(i, x)])\<rparr>)))
     else None)"

definition armed :: "'f link_ops \<Rightarrow> FaultTrigger \<Rightarrow> int \<Rightarrow> Scenario \<Rightarrow> 'f \<Rightarrow> 'f" where
  "armed F trigger now sc link =
    fold (\<lambda>f link. if nf_Trigger f = trigger then lk_arm F now (nf_Action f) (nf_Delay f) link else link)
      (sc_Network sc) link"

definition run_task ::
  "'f link_ops \<Rightarrow> protobuf \<Rightarrow> (message \<Rightarrow> message \<Rightarrow> bool) \<Rightarrow> nat \<Rightarrow> task \<Rightarrow> task list \<Rightarrow> 'f simulation
    \<Rightarrow> 'f simulation option" where
  "run_task F pb eq i t ts s =
    (let goes_on = set_pc i (Working ts) in
     case t of
       Send m \<Rightarrow> (case session_send F pb i m s of
           (Some err, s) \<Rightarrow> Some (leave i s)
         | (None, s) \<Rightarrow> Some (goes_on s))
     | SendRaw mid payload \<Rightarrow> (case write_frame F i mid payload s of
           (Some err, s) \<Rightarrow> Some (leave i s)
         | (None, s) \<Rightarrow> Some (goes_on s))
     | Record m \<Rightarrow> Some (goes_on (on_dev (record_command eq m) s))
     | Store m \<Rightarrow> commit_command i m ts s
     | StoreFan c \<Rightarrow> commit_command i (FanStateResponse (commanded_fan c (sm_dev s))) ts s
     | StoreLight c \<Rightarrow> commit_command i (LightStateResponse (commanded_light c (sm_dev s))) ts s
     | Subscribe \<Rightarrow>
         if sm_serial s = Free
         then Some (set_pc i (Working (map Send (stateSnapshotLocked (sm_dev s)) @ [Unlock] @ ts))
           (on_dev (set_session i (\<lambda>x. x\<lparr>ds_subscribed := True\<rparr>)) (s\<lparr>sm_serial := HeldBy i\<rparr>)))
         else None
     | Unlock \<Rightarrow> Some (goes_on (s\<lparr>sm_serial := Free\<rparr>))
     | SubscribeToLogs level \<Rightarrow>
         Some (goes_on (on_dev (set_session i (\<lambda>x. x\<lparr>ds_logsSubscribed := True, ds_logLevel := level\<rparr>)) s))
     | CountPing \<Rightarrow> Some (goes_on (on_dev (\<lambda>d. d\<lparr>dv_answeredPings := dv_answeredPings d + 1\<rparr>) s))
     | ArmNetwork trigger \<Rightarrow>
         Some (goes_on (set_link i (armed F trigger (sm_now s) (dv_scenario (sm_dev s)) (link_of i s)) s))
     | Stall \<Rightarrow> if dv_done (sm_dev s) \<or> lk_closed F (link_of i s) then Some (goes_on s) else None
     | Return \<Rightarrow> Some (leave i s))"

text \<open>A frame was read: the message in it, or none for which the session ends.\<close>

definition read_request :: "'f link_ops \<Rightarrow> protobuf \<Rightarrow> nat \<Rightarrow> 'f simulation \<Rightarrow> (u32 \<times> message) option \<times> 'f simulation"
where
  "read_request F pb i s =
    (case fr_ReadFrame F (link_of i s) of
      (frame, link) \<Rightarrow>
        ((case frame of
            Inl err \<Rightarrow> None
          | Inr (mid, payload) \<Rightarrow>
              (case Decode pb api_registry mid payload of Inl err \<Rightarrow> None | Inr m \<Rightarrow> Some (mid, m))),
         set_link i link s))"

definition serve_step ::
  "'f link_ops \<Rightarrow> protobuf \<Rightarrow> (message \<Rightarrow> message \<Rightarrow> bool) \<Rightarrow> nat \<Rightarrow> 'f simulation \<Rightarrow> 'f simulation option" where
  "serve_step F pb eq i s =
    (let d = sm_dev s in
     case sm_pc s i of
       Accepted \<Rightarrow>
         (case lk_establish F (dv_config d) (sc_Name (dv_scenario d)) (link_of i s) of
           (ok, link) \<Rightarrow> Some ((if ok then set_pc i Greeting else leave i) (set_link i link s)))
     | Greeting \<Rightarrow>
         (case read_request F pb i s of
           (Some (mid, m), s) \<Rightarrow>
             if mid = 1
             then Some (set_pc i (Working (Send (hello_response (dv_scenario d)) #
               trigger_tasks (dv_scenario d) FaultAfterHello)) s)
             else Some (leave i s)
         | (None, s) \<Rightarrow> Some (leave i s))
     | Serving \<Rightarrow>
         (case read_request F pb i s of
           (Some (mid, m), s) \<Rightarrow> Some (set_pc i (Working (message_tasks d m)) s)
         | (None, s) \<Rightarrow> Some (leave i s))
     | Working [] \<Rightarrow> Some (set_pc i Serving s)
     | Working (t # ts) \<Rightarrow> run_task F pb eq i t ts s
     | Leaving \<Rightarrow> Some (set_pc i ClosedConn (set_link i (fr_Close F (link_of i s)) s))
     | ClosedConn \<Rightarrow>
         Some (set_pc i Gone (on_dev (\<lambda>d. d\<lparr>dv_connections := remove1 i (dv_connections d),
           dv_running := remove1 i (dv_running d), dv_sessionTasks := dv_sessionTasks d - 1\<rparr>) s))
     | Gone \<Rightarrow> None)"

section \<open>Accepting\<close>

definition startConnection :: "'f \<Rightarrow> 'f simulation \<Rightarrow> goerror option \<times> 'f simulation" where
  "startConnection link s =
    (let d = sm_dev s; i = dv_nextSession d in
     if dv_done d then (Some (Err ErrSimulatorClosed), s)
     else if dv_sessionTasks d \<ge> MaxDeviceConnections then (Some (Err ErrConnectionLimit), s)
     else (None, set_pc i Accepted (s\<lparr>sm_dev := d\<lparr>dv_accepted := dv_accepted d + 1,
         dv_sessions := (dv_sessions d)(i := \<lparr>ds_framer = link, ds_subscribed = False,
           ds_logsSubscribed = False, ds_logLevel = 0\<rparr>),
         dv_connections := dv_connections d @ [i], dv_running := dv_running d @ [i],
         dv_sessionTasks := dv_sessionTasks d + 1, dv_nextSession := Suc i\<rparr>\<rparr>)))"

definition DialContext :: "goerror option \<Rightarrow> 'f \<Rightarrow> 'f simulation \<Rightarrow> goerror option \<times> 'f simulation" where
  "DialContext ctx link s =
    (case ctx of
      Some err \<Rightarrow> (Some err, s)
    | None \<Rightarrow>
        (case dv_validationErr (sm_dev s) of
          Some err \<Rightarrow> (Some (validation_goerror err), s)
        | None \<Rightarrow>
            if dv_done (sm_dev s) then (Some (Err ErrSimulatorClosed), s) else startConnection link s))"

text \<open>\<open>Serve\<close>: its checks, one round of the accept loop (\<open>None\<close> goes on) and the deferred cleanup.\<close>

definition begin_listening :: "bool \<Rightarrow> nat \<Rightarrow> 'f simulation \<Rightarrow> goerror option \<times> 'f simulation" where
  "begin_listening loopback listener s =
    (let d = sm_dev s in
     case dv_validationErr d of
       Some err \<Rightarrow> (Some (validation_goerror err), s)
     | None \<Rightarrow>
         if \<not> loopback then (Some (Err ErrNonLoopbackOnly), s)
         else if dv_done d then (Some (Err ErrSimulatorClosed), s)
         else if length (dv_listeners d) \<ge> MaxDeviceListeners then (Some (Err ErrListenerLimit), s)
         else (None, on_dev (\<lambda>d. d\<lparr>dv_listeners := List.insert listener (dv_listeners d)\<rparr>) s))"

definition end_listening :: "nat \<Rightarrow> 'f simulation \<Rightarrow> 'f simulation" where
  "end_listening listener = on_dev (\<lambda>d. d\<lparr>dv_listeners := remove1 listener (dv_listeners d)\<rparr>)"

definition accept_round :: "'f result \<Rightarrow> 'f simulation \<Rightarrow> goerror option option \<times> 'f simulation" where
  "accept_round accepted s =
    (case accepted of
      Inl err \<Rightarrow>
        (Some (if dv_done (sm_dev s) then None else Some (Errorf ''simulator accept failed: %w'' [err])), s)
    | Inr link \<Rightarrow>
        (case startConnection link s of
          (None, s) \<Rightarrow> (None, s)
        | (Some err, s) \<Rightarrow>
            if errors_is err ErrSimulatorClosed then (Some None, s)
            else if errors_is err ErrConnectionLimit then (None, s)
            else (Some (Some err), s)))"

definition serve_listener :: "'f result \<Rightarrow> nat \<Rightarrow> 'f simulation \<Rightarrow> 'f simulation" where
  "serve_listener accepted listener s =
    (case accept_round accepted s of
      (None, s) \<Rightarrow> s
    | (Some _, s) \<Rightarrow> end_listening listener s)"

section \<open>States, logs and time\<close>

text \<open>The connection map is visited in an order Go does not specify; \<open>order\<close> gives it.\<close>

definition visiting :: "nat list \<Rightarrow> nat list \<Rightarrow> nat list" where
  "visiting order ids = filter (\<lambda>i. i \<in> set ids) (remdups order) @ filter (\<lambda>i. i \<notin> set order) ids"

definition state_subscribers :: "nat list \<Rightarrow> 'f device \<Rightarrow> nat list" where
  "state_subscribers order d =
    filter (\<lambda>i. ds_subscribed (dv_sessions d i)) (visiting order (dv_connections d))"

definition log_subscribers :: "nat list \<Rightarrow> SubscribeLogsResponse \<Rightarrow> 'f device \<Rightarrow> nat list" where
  "log_subscribers order entry d =
    filter (\<lambda>i. ds_logsSubscribed (dv_sessions d i) \<and> Log_Level entry \<le>s ds_logLevel (dv_sessions d i))
      (visiting order (dv_connections d))"

definition PushState_refused :: "message option \<Rightarrow> 'f device \<Rightarrow> goerror option" where
  "PushState_refused state d =
    (case dv_validationErr d of
      Some err \<Rightarrow> Some (validation_goerror err)
    | None \<Rightarrow>
        if \<not> validState state then Some (Errorf ''%w: state message %T'' [Err ErrUnsupportedPush])
        else if dv_done d then Some (Err ErrSimulatorClosed) else None)"

text \<open>A \<open>PushState\<close> that passed its checks waits for the lock; then the state is stored and the
  subscribers are collected.\<close>

definition PushState :: "message option \<Rightarrow> 'f simulation \<Rightarrow> goerror option \<times> 'f simulation" where
  "PushState state s =
    (case PushState_refused state (sm_dev s) of
      Some err \<Rightarrow> (Some err, s)
    | None \<Rightarrow> (None, s\<lparr>sm_pushes := sm_pushes s @ [the state]\<rparr>))"

definition push_locked :: "nat list \<Rightarrow> nat \<Rightarrow> 'f simulation \<Rightarrow> 'f simulation option" where
  "push_locked order k s =
    (if sm_serial s = Free \<and> k < length (sm_pushes s)
     then Some (on_dev (storeStateLocked (sm_pushes s ! k))
       (s\<lparr>sm_pushes := take k (sm_pushes s) @ drop (Suc k) (sm_pushes s),
          sm_serial := Broadcasting
            (map (\<lambda>i. (i, sm_pushes s ! k)) (state_subscribers order (sm_dev s))) None\<rparr>))
     else None)"

definition PushLog :: "nat list \<Rightarrow> SubscribeLogsResponse option \<Rightarrow> 'f simulation \<Rightarrow> goerror option \<times> 'f simulation"
where
  "PushLog order entry s =
    (case dv_validationErr (sm_dev s) of
      Some err \<Rightarrow> (Some (validation_goerror err), s)
    | None \<Rightarrow>
        (case entry of
          None \<Rightarrow> (Some (Errorf ''%w: nil log entry'' [Err ErrUnsupportedPush]), s)
        | Some e \<Rightarrow>
            if dv_done (sm_dev s) then (Some (Err ErrSimulatorClosed), s)
            else (None, s\<lparr>sm_logs := sm_logs s @ [map (\<lambda>i. (i, e)) (log_subscribers order e (sm_dev s))]\<rparr>)))"

text \<open>The next send of the \<open>k\<close>-th \<open>PushLog\<close> under way.\<close>

definition log_step :: "'f link_ops \<Rightarrow> protobuf \<Rightarrow> nat \<Rightarrow> 'f simulation \<Rightarrow> 'f simulation option" where
  "log_step F pb k s =
    (if k < length (sm_logs s) then
       (case sm_logs s ! k of
         [] \<Rightarrow> Some (s\<lparr>sm_logs := take k (sm_logs s) @ drop (Suc k) (sm_logs s)\<rparr>)
       | (i, e) # rest \<Rightarrow>
           Some (snd (session_send F pb i (SubscribeLogsResponse e) (s\<lparr>sm_logs := (sm_logs s)[k := rest]\<rparr>))))
     else None)"

text \<open>\<open>advanceTimeline\<close>: the next event due, and what storing it does.\<close>

definition next_due :: "int \<Rightarrow> 'f device \<Rightarrow> message option" where
  "next_due now d =
    (if dv_timelineIndex d < length (sc_StateTimeline (dv_scenario d)) \<and>
       ev_At (sc_StateTimeline (dv_scenario d) ! dv_timelineIndex d) \<le> now
     then ev_State (sc_StateTimeline (dv_scenario d) ! dv_timelineIndex d) else None)"

definition take_due :: "message \<Rightarrow> 'f device \<Rightarrow> 'f device" where
  "take_due m d = storeStateLocked m (d\<lparr>dv_timelineIndex := Suc (dv_timelineIndex d)\<rparr>)"

text \<open>The clock moves, one call at a time, and calls \<open>advanceTimeline\<close> of a device that is registered.\<close>

definition advancing :: "'f simulation \<Rightarrow> bool" where
  "advancing s \<longleftrightarrow> sm_advance s \<noteq> None \<or>
    (case sm_serial s of Broadcasting _ (Some _) \<Rightarrow> True | _ \<Rightarrow> False)"

definition begin_advance :: "int \<Rightarrow> 'f simulation \<Rightarrow> 'f simulation option" where
  "begin_advance now s =
    (if sm_now s \<le> now \<and> \<not> advancing s
     then Some (s\<lparr>sm_now := now, sm_advance := (if dv_done (sm_dev s) then None else Some now)\<rparr>)
     else None)"

definition advance_locked :: "'f simulation \<Rightarrow> 'f simulation option" where
  "advance_locked s =
    (case sm_advance s of
      None \<Rightarrow> None
    | Some now \<Rightarrow>
        if sm_serial s = Free
        then Some (s\<lparr>sm_advance := None, sm_serial := Broadcasting [] (Some now)\<rparr>) else None)"

text \<open>One step of whoever is sending a changed state to the subscribers.\<close>

definition broadcast_step ::
  "'f link_ops \<Rightarrow> protobuf \<Rightarrow> nat list \<Rightarrow> 'f simulation \<Rightarrow> 'f simulation option" where
  "broadcast_step F pb order s =
    (case sm_serial s of
      Broadcasting ((i, m) # rest) t \<Rightarrow>
        Some (snd (session_send F pb i m (s\<lparr>sm_serial := Broadcasting rest t\<rparr>)))
    | Broadcasting [] (Some now) \<Rightarrow>
        (case next_due now (sm_dev s) of
          None \<Rightarrow> Some (s\<lparr>sm_serial := Free\<rparr>)
        | Some m \<Rightarrow> Some (on_dev (take_due m) (s\<lparr>sm_serial := Broadcasting
            (map (\<lambda>i. (i, m)) (state_subscribers order (sm_dev s))) (Some now)\<rparr>)))
    | Broadcasting [] None \<Rightarrow> Some (s\<lparr>sm_serial := Free\<rparr>)
    | _ \<Rightarrow> None)"

section \<open>Dropping and closing\<close>

definition DropConnections :: "'f simulation \<Rightarrow> nat \<times> 'f simulation" where
  "DropConnections s =
    (let d = sm_dev s; n = length (dv_connections d) in
     (n, s\<lparr>sm_dev := d\<lparr>dv_connections := [], dv_droppedSessions := dv_droppedSessions d + of_nat n\<rparr>,
       sm_closing := sm_closing s @ dv_connections d\<rparr>))"

definition CloseDevice :: "'f simulation \<Rightarrow> 'f simulation" where
  "CloseDevice s =
    (if dv_done (sm_dev s) then s
     else s\<lparr>sm_dev := (sm_dev s)\<lparr>dv_done := True\<rparr>,
       sm_closing := sm_closing s @ dv_connections (sm_dev s)\<rparr>)"

definition close_next :: "'f link_ops \<Rightarrow> nat \<Rightarrow> 'f simulation \<Rightarrow> 'f simulation option" where
  "close_next F k s =
    (if k < length (sm_closing s)
     then (let i = sm_closing s ! k in
       Some (set_link i (fr_Close F (link_of i s))
         (s\<lparr>sm_closing := take k (sm_closing s) @ drop (Suc k) (sm_closing s)\<rparr>)))
     else None)"

text \<open>\<open>Close\<close> returns once every serving goroutine has.\<close>

definition close_returns :: "'f simulation \<Rightarrow> bool" where
  "close_returns s \<longleftrightarrow> dv_done (sm_dev s) \<and> dv_running (sm_dev s) = []"

text \<open>What \<open>WaitForIdle\<close> waits for; \<open>delayed\<close> is the number of frames held back by a virtual delay.\<close>

definition is_idle :: "nat \<Rightarrow> 'f device \<Rightarrow> bool" where
  "is_idle delayed d \<longleftrightarrow>
    length (dv_connections d) = 0 \<and> length (dv_listeners d) = 0 \<and> dv_sessionTasks d = 0 \<and> delayed = 0"

definition WaitForIdle :: "goerror option \<Rightarrow> nat \<Rightarrow> 'f device \<Rightarrow> goerror option option" where
  "WaitForIdle ctx delayed d =
    (if is_idle delayed d then Some None
     else (case ctx of
         Some cause \<Rightarrow> Some (Some (Errorf ''%w: wait canceled: %w'' [Err ErrSimulatorBusy, cause]))
       | None \<Rightarrow> None))"

section \<open>Runs\<close>

datatype 'f action =
    ServeStep nat
  | DialIn "goerror option" 'f
  | Listen bool nat
  | Accept "'f result" nat
  | EndListening nat
  | Push "message option"
  | PushLocked "nat list" nat
  | PushLogs "nat list" "SubscribeLogsResponse option"
  | LogStep nat
  | BeginAdvance int
  | AdvanceLocked
  | BroadcastStep "nat list"
  | Drop
  | CloseAll
  | CloseNext nat

definition step ::
  "'f link_ops \<Rightarrow> protobuf \<Rightarrow> (message \<Rightarrow> message \<Rightarrow> bool) \<Rightarrow> 'f action \<Rightarrow> 'f simulation
    \<Rightarrow> 'f simulation option" where
  "step F pb eq a s =
    (case a of
       ServeStep i \<Rightarrow> serve_step F pb eq i s
     | DialIn ctx link \<Rightarrow> Some (snd (DialContext ctx link s))
     | Listen loopback l \<Rightarrow> Some (snd (begin_listening loopback l s))
     | Accept accepted l \<Rightarrow>
         if l \<in> set (dv_listeners (sm_dev s)) then Some (serve_listener accepted l s) else None
     | EndListening l \<Rightarrow> Some (end_listening l s)
     | Push state \<Rightarrow> Some (snd (PushState state s))
     | PushLocked order k \<Rightarrow> push_locked order k s
     | PushLogs order entry \<Rightarrow> Some (snd (PushLog order entry s))
     | LogStep k \<Rightarrow> log_step F pb k s
     | BeginAdvance now \<Rightarrow> begin_advance now s
     | AdvanceLocked \<Rightarrow> advance_locked s
     | BroadcastStep order \<Rightarrow> broadcast_step F pb order s
     | Drop \<Rightarrow> Some (snd (DropConnections s))
     | CloseAll \<Rightarrow> Some (CloseDevice s)
     | CloseNext k \<Rightarrow> close_next F k s)"

text \<open>A device just built, with the timeline events due at the clock's time applied.\<close>

function apply_due :: "int \<Rightarrow> 'f device \<Rightarrow> 'f device" where
  "apply_due now d = (case next_due now d of None \<Rightarrow> d | Some m \<Rightarrow> apply_due now (take_due m d))"
  by pat_completeness auto
termination
  by (relation "measure (\<lambda>(now, d). length (sc_StateTimeline (dv_scenario d)) - dv_timelineIndex d)")
    (auto simp: next_due_def take_due_def split: if_splits)

declare apply_due.simps [simp del]

definition New :: "protobuf \<Rightarrow> Scenario \<Rightarrow> sim_option option list \<Rightarrow> int \<Rightarrow> 'f \<Rightarrow> 'f simulation" where
  "New pb scenario options now nil =
    (let d = new_device pb scenario options (\<lambda>_. \<lparr>ds_framer = nil, ds_subscribed = False,
       ds_logsSubscribed = False, ds_logLevel = 0\<rparr>)
     in \<lparr>sm_dev = (if dv_validationErr d = None then apply_due now d else d), sm_now = now,
         sm_pc = (\<lambda>_. Gone), sm_serial = Free, sm_pushes = [], sm_advance = None, sm_logs = [],
         sm_closing = [], sm_sent = (\<lambda>_. []), sm_failed = (\<lambda>_. False), sm_commanded = []\<rparr>)"

inductive running :: "'f link_ops \<Rightarrow> protobuf \<Rightarrow> (message \<Rightarrow> message \<Rightarrow> bool) \<Rightarrow> 'f simulation \<Rightarrow> bool"
  for F pb eq where
  start: "running F pb eq (New pb scenario options now nil)"
| step: "running F pb eq s \<Longrightarrow> step F pb eq a s = Some s' \<Longrightarrow> running F pb eq s'"

end
