(* ===== verification/Device_Run.thy ===== *)
theory Device_Run
  imports Device_Serve
begin

text \<open>
  What holds in every run of the simulator: the bounds on what it owns, that a state subscriber knows the
  device's states, that the timeline is applied on time, and that closing never deadlocks.
\<close>

section \<open>Frames\<close>

lemma set_session_fields [simp]:
  "dv_scenario (set_session i f d) = dv_scenario d"
  "dv_config (set_session i f d) = dv_config d"
  "dv_done (set_session i f d) = dv_done d"
  "dv_connections (set_session i f d) = dv_connections d"
  "dv_running (set_session i f d) = dv_running d"
  "dv_listeners (set_session i f d) = dv_listeners d"
  "dv_sessionTasks (set_session i f d) = dv_sessionTasks d"
  "dv_nextSession (set_session i f d) = dv_nextSession d"
  "dv_accepted (set_session i f d) = dv_accepted d"
  "dv_currentStates (set_session i f d) = dv_currentStates d"
  "dv_stateOrder (set_session i f d) = dv_stateOrder d"
  "dv_timelineIndex (set_session i f d) = dv_timelineIndex d"
  "dv_validationErr (set_session i f d) = dv_validationErr d"
  "dv_sessions (set_session i f d) j = (if j = i then f (dv_sessions d i) else dv_sessions d j)"
  by (simp_all add: set_session_def)

lemma set_pc_fields [simp]:
  "sm_dev (set_pc i pc s) = sm_dev s" "sm_now (set_pc i pc s) = sm_now s"
  "sm_pc (set_pc i pc s) = (sm_pc s)(i := pc)" "sm_serial (set_pc i pc s) = sm_serial s"
  "sm_pushes (set_pc i pc s) = sm_pushes s" "sm_advance (set_pc i pc s) = sm_advance s"
  "sm_logs (set_pc i pc s) = sm_logs s" "sm_closing (set_pc i pc s) = sm_closing s"
  "sm_sent (set_pc i pc s) = sm_sent s" "sm_failed (set_pc i pc s) = sm_failed s"
  "sm_commanded (set_pc i pc s) = sm_commanded s"
  by (simp_all add: set_pc_def)

lemma on_dev_fields [simp]:
  "sm_dev (on_dev f s) = f (sm_dev s)" "sm_now (on_dev f s) = sm_now s"
  "sm_pc (on_dev f s) = sm_pc s" "sm_serial (on_dev f s) = sm_serial s"
  "sm_pushes (on_dev f s) = sm_pushes s" "sm_advance (on_dev f s) = sm_advance s"
  "sm_logs (on_dev f s) = sm_logs s" "sm_closing (on_dev f s) = sm_closing s"
  "sm_sent (on_dev f s) = sm_sent s" "sm_failed (on_dev f s) = sm_failed s"
  "sm_commanded (on_dev f s) = sm_commanded s"
  by (simp_all add: on_dev_def)

lemma set_link_fields [simp]:
  "sm_dev (set_link i link s) = set_session i (\<lambda>x. x\<lparr>ds_framer := link\<rparr>) (sm_dev s)"
  "sm_now (set_link i link s) = sm_now s"
  "sm_pc (set_link i link s) = sm_pc s" "sm_serial (set_link i link s) = sm_serial s"
  "sm_pushes (set_link i link s) = sm_pushes s" "sm_advance (set_link i link s) = sm_advance s"
  "sm_logs (set_link i link s) = sm_logs s" "sm_closing (set_link i link s) = sm_closing s"
  "sm_sent (set_link i link s) = sm_sent s" "sm_failed (set_link i link s) = sm_failed s"
  "sm_commanded (set_link i link s) = sm_commanded s"
  by (simp_all add: set_link_def)

lemma leave_fields [simp]:
  "sm_dev (leave i s) = sm_dev s" "sm_now (leave i s) = sm_now s"
  "sm_pc (leave i s) = (sm_pc s)(i := Leaving)"
  "sm_serial (leave i s) = (if sm_serial s = HeldBy i then Free else sm_serial s)"
  "sm_pushes (leave i s) = sm_pushes s" "sm_advance (leave i s) = sm_advance s"
  "sm_logs (leave i s) = sm_logs s" "sm_closing (leave i s) = sm_closing s"
  "sm_sent (leave i s) = sm_sent s" "sm_failed (leave i s) = sm_failed s"
  "sm_commanded (leave i s) = sm_commanded s"
  by (simp_all add: leave_def)

text \<open>Steps that change neither the states, nor who is subscribed, nor what is owned, nor the history.\<close>

definition quiet_dev :: "'f device \<Rightarrow> 'f device \<Rightarrow> bool" where
  "quiet_dev d d' \<longleftrightarrow>
    dv_scenario d' = dv_scenario d \<and> dv_config d' = dv_config d \<and> dv_done d' = dv_done d \<and>
    dv_validationErr d' = dv_validationErr d \<and>
    dv_connections d' = dv_connections d \<and> dv_running d' = dv_running d \<and>
    dv_listeners d' = dv_listeners d \<and> dv_sessionTasks d' = dv_sessionTasks d \<and>
    dv_nextSession d' = dv_nextSession d \<and> dv_accepted d' = dv_accepted d \<and>
    dv_currentStates d' = dv_currentStates d \<and> dv_stateOrder d' = dv_stateOrder d \<and>
    dv_timelineIndex d' = dv_timelineIndex d \<and>
    (\<forall>j. ds_subscribed (dv_sessions d' j) = ds_subscribed (dv_sessions d j))"

definition quiet :: "'f simulation \<Rightarrow> 'f simulation \<Rightarrow> bool" where
  "quiet s s' \<longleftrightarrow>
    quiet_dev (sm_dev s) (sm_dev s') \<and> sm_now s' = sm_now s \<and> sm_pc s' = sm_pc s \<and>
    sm_serial s' = sm_serial s \<and> sm_pushes s' = sm_pushes s \<and> sm_advance s' = sm_advance s \<and>
    sm_sent s' = sm_sent s \<and> sm_failed s' = sm_failed s \<and> sm_commanded s' = sm_commanded s"

lemmas quiet_simps = quiet_def quiet_dev_def

lemma quiet_link [simp]: "quiet s (set_link i link s)"
  by (simp add: quiet_simps)

lemma quiet_refl [simp]: "quiet s s"
  by (simp add: quiet_simps)

lemma write_frame_quiet: "write_frame F i mid payload s = (e, s') \<Longrightarrow> quiet s s'"
  by (auto simp: write_frame_def split: prod.splits)

lemma session_write_quiet: "session_write F pb i m s = (e, s') \<Longrightarrow> quiet s s'"
  by (auto simp: session_write_def dest: write_frame_quiet split: sum.splits)

lemma read_request_quiet: "read_request F pb i s = (r, s') \<Longrightarrow> quiet s s'"
  by (auto simp: read_request_def split: prod.splits)

lemma session_send_cases:
  assumes "session_send F pb i m s = (e, s')"
  obtains (sent) s1 where "e = None" "quiet s s1" "s' = s1\<lparr>sm_sent := (sm_sent s)(i := sm_sent s i @ [m])\<rparr>"
  | (lost) err s1 where "e = Some err" "quiet s s1" "s' = s1\<lparr>sm_failed := (sm_failed s)(i := True)\<rparr>"
proof -
  obtain e1 s1 where w: "session_write F pb i m s = (e1, s1)" by fastforce
  from session_write_quiet[OF w] have q: "quiet s s1" .
  then have "sm_sent s1 = sm_sent s" "sm_failed s1 = sm_failed s" by (simp_all add: quiet_def)
  with assms w q that show ?thesis
    by (auto simp: session_send_def split: option.splits)
qed

lemma record_command_fields [simp]:
  "dv_scenario (record_command eq m d) = dv_scenario d"
  "dv_config (record_command eq m d) = dv_config d"
  "dv_done (record_command eq m d) = dv_done d"
  "dv_connections (record_command eq m d) = dv_connections d"
  "dv_running (record_command eq m d) = dv_running d"
  "dv_listeners (record_command eq m d) = dv_listeners d"
  "dv_sessionTasks (record_command eq m d) = dv_sessionTasks d"
  "dv_nextSession (record_command eq m d) = dv_nextSession d"
  "dv_accepted (record_command eq m d) = dv_accepted d"
  "dv_currentStates (record_command eq m d) = dv_currentStates d"
  "dv_stateOrder (record_command eq m d) = dv_stateOrder d"
  "dv_timelineIndex (record_command eq m d) = dv_timelineIndex d"
  "dv_validationErr (record_command eq m d) = dv_validationErr d"
  "dv_sessions (record_command eq m d) = dv_sessions d"
  by (simp_all add: record_command_def observeCommandLocked_def setCommandErrorLocked_def Let_def)

lemma set_visiting [simp]: "set (visiting order ids) = set ids"
  by (auto simp: visiting_def)

lemma take_due_fields [simp]:
  "dv_scenario (take_due m d) = dv_scenario d" "dv_config (take_due m d) = dv_config d"
  "dv_done (take_due m d) = dv_done d" "dv_connections (take_due m d) = dv_connections d"
  "dv_running (take_due m d) = dv_running d" "dv_listeners (take_due m d) = dv_listeners d"
  "dv_sessionTasks (take_due m d) = dv_sessionTasks d" "dv_nextSession (take_due m d) = dv_nextSession d"
  "dv_accepted (take_due m d) = dv_accepted d" "dv_sessions (take_due m d) = dv_sessions d"
  "dv_currentStates (take_due m d) = put_state m (dv_currentStates d)"
  "dv_timelineIndex (take_due m d) = Suc (dv_timelineIndex d)"
  "dv_validationErr (take_due m d) = dv_validationErr d"
  by (simp_all add: take_due_def store_states)

lemma take_due_store_ok: "state_store_ok d \<Longrightarrow> state_store_ok (take_due m d)"
  unfolding take_due_def by (rule store_ok) (simp add: state_store_ok_def)

lemma apply_due_induct:
  assumes "P d" "\<And>d m. P d \<Longrightarrow> next_due now d = Some m \<Longrightarrow> P (take_due m d)"
  shows "P (apply_due now d)"
  using assms
proof (induction now d rule: apply_due.induct)
  case (1 now d)
  have "P (apply_due now (take_due m d))" if due: "next_due now d = Some m" for m
  proof (rule 1(1)[OF due])
    show "P (take_due m d)" by (rule 1(3)[OF 1(2) due])
    show "P (take_due m' d')" if "P d'" "next_due now d' = Some m'" for d' m'
      using that by (rule 1(3))
  qed
  with 1(2) show ?case
    by (subst apply_due.simps) (simp split: option.split)
qed

section \<open>What the device owns\<close>

definition owned_ok :: "'f simulation \<Rightarrow> bool" where
  "owned_ok s \<longleftrightarrow>
    (let d = sm_dev s in
     distinct (dv_running d) \<and> distinct (dv_connections d) \<and> distinct (dv_listeners d) \<and>
     set (dv_connections d) \<subseteq> set (dv_running d) \<and>
     dv_sessionTasks d = length (dv_running d) \<and> dv_sessionTasks d \<le> MaxDeviceConnections \<and>
     length (dv_listeners d) \<le> MaxDeviceListeners \<and>
     (\<forall>i. (sm_pc s i = Gone) = (i \<notin> set (dv_running d))) \<and>
     set (dv_running d) \<subseteq> {..<dv_nextSession d} \<and>
     dv_accepted d = of_nat (dv_nextSession d))"

definition owns_same :: "'f simulation \<Rightarrow> 'f simulation \<Rightarrow> bool" where
  "owns_same s s' \<longleftrightarrow>
    (let d = sm_dev s; d' = sm_dev s' in
     dv_running d' = dv_running d \<and> dv_connections d' = dv_connections d \<and> dv_listeners d' = dv_listeners d \<and>
     dv_sessionTasks d' = dv_sessionTasks d \<and> dv_nextSession d' = dv_nextSession d \<and>
     dv_accepted d' = dv_accepted d \<and> (\<forall>i. sm_pc s' i = Gone \<longleftrightarrow> sm_pc s i = Gone))"

lemma owns_same_ok: "owns_same s s' \<Longrightarrow> owned_ok s \<Longrightarrow> owned_ok s'"
  by (simp add: owns_same_def owned_ok_def Let_def)

lemma quiet_owns: "quiet s s' \<Longrightarrow> owns_same s s'"
  by (simp add: quiet_simps owns_same_def)

lemma session_send_owns: "session_send F pb i m s = (e, s') \<Longrightarrow> owns_same s s'"
  by (erule session_send_cases) (simp_all add: quiet_simps owns_same_def)

text \<open>What a task does, by cases.\<close>

fun quiet_task :: "task \<Rightarrow> bool" where
  "quiet_task (SendRaw mid payload) = True"
| "quiet_task (Record m) = True"
| "quiet_task (SubscribeToLogs level) = True"
| "quiet_task CountPing = True"
| "quiet_task (ArmNetwork trigger) = True"
| "quiet_task Stall = True"
| "quiet_task _ = False"

fun command_task :: "task \<Rightarrow> bool" where
  "command_task (Store m) = True"
| "command_task (StoreFan c) = True"
| "command_task (StoreLight c) = True"
| "command_task _ = False"

lemma run_task_cases:
  assumes "run_task F pb eq i t ts s = Some s'"
  obtains (quietly) s1 where "quiet_task t" "quiet s s1" "s' = set_pc i (Working ts) s1"
  | (broken) s1 where "quiet_task t" "quiet s s1" "s' = leave i s1"
  | (sent) m s1 where "t = Send m" "quiet s s1"
      "s' = set_pc i (Working ts) (s1\<lparr>sm_sent := (sm_sent s)(i := sm_sent s i @ [m])\<rparr>)"
  | (lost) m s1 where "t = Send m" "quiet s s1"
      "s' = leave i (s1\<lparr>sm_failed := (sm_failed s)(i := True)\<rparr>)"
  | (commit) m where "command_task t" "commit_command i m ts s = Some s'"
  | (subscribe) "t = Subscribe" "sm_serial s = Free"
      "s' = set_pc i (Working (map Send (stateSnapshotLocked (sm_dev s)) @ [Unlock] @ ts))
        (on_dev (set_session i (\<lambda>x. x\<lparr>ds_subscribed := True\<rparr>)) (s\<lparr>sm_serial := HeldBy i\<rparr>))"
  | (unlock) "t = Unlock" "s' = set_pc i (Working ts) (s\<lparr>sm_serial := Free\<rparr>)"
  | (return) "t = Return" "s' = leave i s"
proof (cases t)
  case (Send m)
  obtain e s1 where send: "session_send F pb i m s = (e, s1)" by fastforce
  with assms Send have "s' = (case e of None \<Rightarrow> set_pc i (Working ts) s1 | Some _ \<Rightarrow> leave i s1)"
    by (simp add: run_task_def split: option.splits)
  with Send show ?thesis
    by (cases rule: session_send_cases[OF send]) (auto intro: sent lost)
next
  case (SendRaw mid payload)
  obtain e s1 where w: "write_frame F i mid payload s = (e, s1)" by fastforce
  with assms SendRaw have "s' = (case e of None \<Rightarrow> set_pc i (Working ts) s1 | Some _ \<Rightarrow> leave i s1)"
    by (simp add: run_task_def split: option.splits)
  with SendRaw write_frame_quiet[OF w] show ?thesis
    by (cases e) (auto intro: quietly broken)
next
  case Subscribe
  with assms show ?thesis by (auto simp: run_task_def split: if_splits intro: subscribe)
next
  case Unlock
  with assms show ?thesis by (auto simp: run_task_def intro: unlock)
next
  case Return
  with assms show ?thesis by (auto simp: run_task_def intro: return)
next
  case (Store m)
  with assms show ?thesis by (auto simp: run_task_def intro: commit)
next
  case (StoreFan c)
  with assms show ?thesis by (auto simp: run_task_def intro: commit)
next
  case (StoreLight c)
  with assms show ?thesis by (auto simp: run_task_def intro: commit)
next
  case (Record m)
  with assms show ?thesis
    by (intro quietly[of "on_dev (record_command eq m) s"]) (simp_all add: run_task_def quiet_simps)
next
  case (SubscribeToLogs level)
  with assms show ?thesis
    by (intro quietly[of "on_dev (set_session i (\<lambda>x. x\<lparr>ds_logsSubscribed := True, ds_logLevel := level\<rparr>)) s"])
      (simp_all add: run_task_def quiet_simps)
next
  case CountPing
  with assms show ?thesis
    by (intro quietly[of "on_dev (\<lambda>d. d\<lparr>dv_answeredPings := dv_answeredPings d + 1\<rparr>) s"])
      (simp_all add: run_task_def quiet_simps)
next
  case (ArmNetwork trigger)
  with assms show ?thesis
    by (intro quietly[of "set_link i (armed F trigger (sm_now s) (dv_scenario (sm_dev s)) (link_of i s)) s"])
      (simp_all add: run_task_def)
next
  case Stall
  with assms show ?thesis
    by (intro quietly[of s]) (simp_all add: run_task_def split: if_splits)
qed

lemma run_task_owns:
  assumes "run_task F pb eq i t ts s = Some s'" "sm_pc s i \<noteq> Gone"
  shows "owns_same s s'"
  using assms
  by (cases rule: run_task_cases)
    (auto simp: quiet_simps owns_same_def commit_command_def split: if_splits)

text \<open>The steps of a serving goroutine that only move its program counter.\<close>

lemma serve_step_cases:
  assumes "serve_step F pb eq i s = Some s'"
  obtains (task) t ts where "sm_pc s i = Working (t # ts)" "run_task F pb eq i t ts s = Some s'"
  | (gone) "sm_pc s i = ClosedConn" "s' = set_pc i Gone (on_dev (\<lambda>d. d\<lparr>dv_connections := remove1 i (dv_connections d),
        dv_running := remove1 i (dv_running d), dv_sessionTasks := dv_sessionTasks d - 1\<rparr>) s)"
  | (left) s1 where "\<And>ts. sm_pc s i \<noteq> Working ts" "sm_pc s i \<noteq> Gone" "quiet s s1" "s' = leave i s1"
  | (moved) s1 pc where "sm_pc s i \<noteq> Gone" "\<And>t ts. sm_pc s i \<noteq> Working (t # ts)" "quiet s s1"
      "s' = set_pc i pc s1" "pc \<noteq> Gone"
      "\<And>ts. pc = Working ts \<Longrightarrow> (\<exists>m. ts = message_tasks (sm_dev s) m) \<or>
         ts = Send (hello_response (dv_scenario (sm_dev s))) # trigger_tasks (dv_scenario (sm_dev s)) FaultAfterHello"
proof (cases "sm_pc s i")
  case Accepted
  obtain ok link where "lk_establish F (dv_config (sm_dev s)) (sc_Name (dv_scenario (sm_dev s))) (link_of i s) = (ok, link)"
    by fastforce
  with assms Accepted have "s' = (if ok then set_pc i Greeting else leave i) (set_link i link s)"
    by (simp add: serve_step_def Let_def)
  with Accepted show ?thesis
    by (cases ok) (auto intro: moved[of "set_link i link s" Greeting] left[of "set_link i link s"])
next
  case Greeting
  obtain r s1 where r: "read_request F pb i s = (r, s1)" by fastforce
  show ?thesis
  proof (cases r)
    case None
    with assms Greeting r read_request_quiet[OF r] show ?thesis
      by (intro left[of s1]) (simp_all add: serve_step_def Let_def)
  next
    case (Some x)
    with assms Greeting r read_request_quiet[OF r] show ?thesis
      by (cases "fst x = 1") (auto simp: serve_step_def Let_def split: prod.splits intro: moved left)
  qed
next
  case Serving
  obtain r s1 where r: "read_request F pb i s = (r, s1)" by fastforce
  with assms Serving read_request_quiet[OF r] show ?thesis
    by (cases r) (auto simp: serve_step_def Let_def split: prod.splits intro: moved left)
next
  case (Working ts)
  with assms show ?thesis
    by (cases ts) (auto simp: serve_step_def Let_def intro: moved[of s Serving] task)
next
  case Leaving
  with assms show ?thesis
    by (auto simp: serve_step_def Let_def intro: moved[of "set_link i (fr_Close F (link_of i s)) s" ClosedConn])
next
  case ClosedConn
  with assms show ?thesis
    by (auto simp: serve_step_def Let_def intro: gone)
next
  case Gone
  with assms show ?thesis by (simp add: serve_step_def Let_def)
qed

lemma owned_pc: "owned_ok s \<Longrightarrow> (sm_pc s i = Gone) = (i \<notin> set (dv_running (sm_dev s)))"
  by (simp add: owned_ok_def Let_def)

lemma serve_step_owned:
  assumes "serve_step F pb eq i s = Some s'" "owned_ok s"
  shows "owned_ok s'"
  using assms(1)
proof (cases rule: serve_step_cases)
  case (task t ts)
  then have "owns_same s s'" by (intro run_task_owns[OF task(2)]) simp
  with assms(2) show ?thesis by (rule owns_same_ok[rotated])
next
  case gone
  then have run: "i \<in> set (dv_running (sm_dev s))" using owned_pc[OF assms(2), of i] by simp
  from gone(2) have dev: "dv_running (sm_dev s') = remove1 i (dv_running (sm_dev s))"
      "dv_connections (sm_dev s') = remove1 i (dv_connections (sm_dev s))"
      "dv_listeners (sm_dev s') = dv_listeners (sm_dev s)"
      "dv_sessionTasks (sm_dev s') = dv_sessionTasks (sm_dev s) - 1"
      "dv_nextSession (sm_dev s') = dv_nextSession (sm_dev s)"
      "dv_accepted (sm_dev s') = dv_accepted (sm_dev s)" "sm_pc s' = (sm_pc s)(i := Gone)"
    by simp_all
  show ?thesis
    using assms(2) run unfolding owned_ok_def Let_def dev
    by (auto simp: length_remove1 set_remove1_eq)
next
  case (left s1)
  from left(2,3) have "owns_same s s'" unfolding left(4) by (simp add: quiet_simps owns_same_def)
  with assms(2) show ?thesis by (rule owns_same_ok[rotated])
next
  case (moved s1 pc)
  from moved(1,3,5) have "owns_same s s'" unfolding moved(4) by (simp add: quiet_simps owns_same_def)
  with assms(2) show ?thesis by (rule owns_same_ok[rotated])
qed

lemma startConnection_owned:
  assumes "startConnection link s = (e, s')" "owned_ok s"
  shows "owned_ok s'"
proof (cases e)
  case None
  let ?i = "dv_nextSession (sm_dev s)"
  from assms(2) have new: "?i \<notin> set (dv_running (sm_dev s))" "?i \<notin> set (dv_connections (sm_dev s))"
    by (auto simp: owned_ok_def Let_def)
  from None assms(1) have room: "dv_sessionTasks (sm_dev s) < MaxDeviceConnections"
    and dev: "dv_running (sm_dev s') = dv_running (sm_dev s) @ [?i]"
      "dv_connections (sm_dev s') = dv_connections (sm_dev s) @ [?i]"
      "dv_listeners (sm_dev s') = dv_listeners (sm_dev s)"
      "dv_sessionTasks (sm_dev s') = Suc (dv_sessionTasks (sm_dev s))"
      "dv_nextSession (sm_dev s') = Suc ?i" "dv_accepted (sm_dev s') = dv_accepted (sm_dev s) + 1"
      "sm_pc s' = (sm_pc s)(?i := Accepted)"
    by (auto simp: startConnection_def Let_def split: if_splits)
  show ?thesis
    using assms(2) new room unfolding owned_ok_def Let_def dev
    by (simp add: subset_iff less_Suc_eq)
next
  case (Some err)
  with assms show ?thesis by (auto simp: startConnection_def Let_def split: if_splits)
qed

lemma broadcast_step_cases:
  assumes "broadcast_step F pb order s = Some s'"
  obtains (sent) i m rest t s1 where "sm_serial s = Broadcasting ((i, m) # rest) t" "quiet s s1"
      "s' = s1\<lparr>sm_serial := Broadcasting rest t, sm_sent := (sm_sent s)(i := sm_sent s i @ [m])\<rparr>"
  | (lost) i m rest t s1 where "sm_serial s = Broadcasting ((i, m) # rest) t" "quiet s s1"
      "s' = s1\<lparr>sm_serial := Broadcasting rest t, sm_failed := (sm_failed s)(i := True)\<rparr>"
  | (finished) t where "sm_serial s = Broadcasting [] t" "s' = s\<lparr>sm_serial := Free\<rparr>"
      "\<And>now. t = Some now \<Longrightarrow> next_due now (sm_dev s) = None"
  | (due) now m where "sm_serial s = Broadcasting [] (Some now)" "next_due now (sm_dev s) = Some m"
      "s' = on_dev (take_due m) (s\<lparr>sm_serial := Broadcasting
        (map (\<lambda>i. (i, m)) (state_subscribers order (sm_dev s))) (Some now)\<rparr>)"
proof (cases "sm_serial s")
  case (Broadcasting bs t)
  show ?thesis
  proof (cases bs)
    case Nil
    with assms Broadcasting show ?thesis
      by (cases t) (auto simp: broadcast_step_def split: option.splits intro: finished due)
  next
    case (Cons x rest)
    obtain i m where x: "x = (i, m)" by (cases x)
    let ?s = "s\<lparr>sm_serial := Broadcasting rest t\<rparr>"
    obtain e s2 where send: "session_send F pb i m ?s = (e, s2)" by fastforce
    with assms Broadcasting Cons x have s': "s' = s2" by (simp add: broadcast_step_def)
    from send show ?thesis
    proof (cases rule: session_send_cases)
      case (sent s1)
      with Broadcasting Cons x s' show ?thesis
        by (intro that(1)[of i m rest t "s1\<lparr>sm_serial := sm_serial s\<rparr>"]) (simp_all add: quiet_simps)
    next
      case (lost err s1)
      with Broadcasting Cons x s' show ?thesis
        by (intro that(2)[of i m rest t "s1\<lparr>sm_serial := sm_serial s\<rparr>"]) (simp_all add: quiet_simps)
    qed
  qed
qed (use assms in \<open>simp_all add: broadcast_step_def\<close>)

lemma broadcast_owned: "broadcast_step F pb order s = Some s' \<Longrightarrow> owns_same s s'"
  by (erule broadcast_step_cases) (simp_all add: quiet_simps owns_same_def)

lemma log_step_cases:
  assumes "log_step F pb k s = Some s'"
  obtains (sent) i e ls s1 where "quiet s s1"
      "s' = s1\<lparr>sm_logs := ls, sm_sent := (sm_sent s)(i := sm_sent s i @ [SubscribeLogsResponse e])\<rparr>"
  | (lost) i ls s1 where "quiet s s1" "s' = s1\<lparr>sm_logs := ls, sm_failed := (sm_failed s)(i := True)\<rparr>"
  | (finished) ls where "s' = s\<lparr>sm_logs := ls\<rparr>"
proof (cases "sm_logs s ! k")
  case Nil
  with assms show ?thesis by (auto simp: log_step_def split: if_splits intro: finished)
next
  case (Cons x rest)
  obtain i e where x: "x = (i, e)" by (cases x)
  let ?s = "s\<lparr>sm_logs := (sm_logs s)[k := rest]\<rparr>"
  obtain r s2 where send: "session_send F pb i (SubscribeLogsResponse e) ?s = (r, s2)" by fastforce
  with assms Cons x have s': "s' = s2" by (simp add: log_step_def split: if_splits)
  from send show ?thesis
  proof (cases rule: session_send_cases)
    case (sent s1)
    with s' show ?thesis by (intro that(1)[where ?s1.0 = s1 and ls = "sm_logs s1" and i = i and e = e]) (simp_all add: quiet_simps)
  next
    case (lost err s1)
    with s' show ?thesis by (intro that(2)[where ?s1.0 = s1 and ls = "sm_logs s1" and i = i]) (simp_all add: quiet_simps)
  qed
qed

lemma log_step_owned: "log_step F pb k s = Some s' \<Longrightarrow> owns_same s s'"
  by (erule log_step_cases) (simp_all add: quiet_simps owns_same_def)

lemma other_steps_own:
  "owns_same s (snd (PushState state s))"
  "push_locked order k s = Some s' \<Longrightarrow> owns_same s s'"
  "owns_same s (snd (PushLog order' entry s))"
  "begin_advance now s = Some s' \<Longrightarrow> owns_same s s'"
  "advance_locked s = Some s' \<Longrightarrow> owns_same s s'"
  "owns_same s (CloseDevice s)"
  "close_next F j s = Some s' \<Longrightarrow> owns_same s s'"
  by (auto simp: owns_same_def PushState_def push_locked_def PushLog_def begin_advance_def advance_locked_def
      CloseDevice_def close_next_def Let_def split: option.splits if_splits)

lemma listening_owned:
  assumes "owned_ok s"
  shows "owned_ok (snd (begin_listening loopback l s))" "owned_ok (end_listening l s)"
    "owned_ok (snd (DropConnections s))"
proof -
  show "owned_ok (snd (begin_listening loopback l s))"
    using assms by (cases "l \<in> set (dv_listeners (sm_dev s))")
      (auto simp: begin_listening_def owned_ok_def Let_def distinct_insert MaxDeviceListeners_def List.insert_def split: option.split)
  show "owned_ok (end_listening l s)"
    using assms by (auto simp: end_listening_def owned_ok_def Let_def length_remove1 distinct_remove1)
  show "owned_ok (snd (DropConnections s))"
    using assms by (simp add: DropConnections_def owned_ok_def Let_def)
qed

lemma serve_listener_owned:
  assumes "owned_ok s"
  shows "owned_ok (serve_listener accepted l s)"
proof (cases accepted)
  case (Inl err)
  with assms show ?thesis by (auto simp: serve_listener_def accept_round_def intro: listening_owned)
next
  case (Inr link)
  obtain e s1 where c: "startConnection link s = (e, s1)" by fastforce
  from startConnection_owned[OF c assms] Inr c show ?thesis
    by (auto simp: serve_listener_def accept_round_def split: option.splits intro: listening_owned)
qed

lemma DialContext_owned:
  assumes "owned_ok s"
  shows "owned_ok (snd (DialContext ctx link s))"
proof -
  obtain e s1 where c: "startConnection link s = (e, s1)" by fastforce
  from startConnection_owned[OF c assms] assms c show ?thesis
    by (auto simp: DialContext_def split: option.splits)
qed

lemma step_owned:
  assumes "step F pb eq a s = Some s'" "owned_ok s"
  shows "owned_ok s'"
  using assms
  by (cases a) (auto simp: step_def split: if_splits intro: serve_step_owned DialContext_owned listening_owned
      serve_listener_owned broadcast_owned[THEN owns_same_ok] log_step_owned[THEN owns_same_ok]
      other_steps_own[THEN owns_same_ok])

text \<open>The start: no session, no listener, and the states due at the clock's time.\<close>

lemma fold_store_keeps [simp]:
  "dv_running (fold (\<lambda>s. storeStateLocked (the s)) ms d) = dv_running d"
  "dv_connections (fold (\<lambda>s. storeStateLocked (the s)) ms d) = dv_connections d"
  "dv_listeners (fold (\<lambda>s. storeStateLocked (the s)) ms d) = dv_listeners d"
  "dv_sessionTasks (fold (\<lambda>s. storeStateLocked (the s)) ms d) = dv_sessionTasks d"
  "dv_nextSession (fold (\<lambda>s. storeStateLocked (the s)) ms d) = dv_nextSession d"
  "dv_accepted (fold (\<lambda>s. storeStateLocked (the s)) ms d) = dv_accepted d"
  "dv_done (fold (\<lambda>s. storeStateLocked (the s)) ms d) = dv_done d"
  "dv_sessions (fold (\<lambda>s. storeStateLocked (the s)) ms d) = dv_sessions d"
  "dv_timelineIndex (fold (\<lambda>s. storeStateLocked (the s)) ms d) = dv_timelineIndex d"
  "dv_scenario (fold (\<lambda>s. storeStateLocked (the s)) ms d) = dv_scenario d"
  "dv_validationErr (fold (\<lambda>s. storeStateLocked (the s)) ms d) = dv_validationErr d"
  by (induction ms arbitrary: d) simp_all

lemma new_device_fields [simp]:
  "dv_running (new_device pb sc options x) = []" "dv_connections (new_device pb sc options x) = []"
  "dv_listeners (new_device pb sc options x) = []" "dv_sessionTasks (new_device pb sc options x) = 0"
  "dv_nextSession (new_device pb sc options x) = 0" "dv_accepted (new_device pb sc options x) = 0"
  "\<not> dv_done (new_device pb sc options x)" "dv_sessions (new_device pb sc options x) = x"
  "dv_timelineIndex (new_device pb sc options x) = 0"
  by (simp_all add: new_device_def Let_def)

lemma apply_due_keeps [simp]:
  "dv_running (apply_due now d) = dv_running d" "dv_connections (apply_due now d) = dv_connections d"
  "dv_listeners (apply_due now d) = dv_listeners d" "dv_sessionTasks (apply_due now d) = dv_sessionTasks d"
  "dv_nextSession (apply_due now d) = dv_nextSession d" "dv_accepted (apply_due now d) = dv_accepted d"
  "dv_done (apply_due now d) = dv_done d" "dv_sessions (apply_due now d) = dv_sessions d"
  "dv_scenario (apply_due now d) = dv_scenario d" "dv_validationErr (apply_due now d) = dv_validationErr d"
  by (rule apply_due_induct; simp)+

lemma New_owned: "owned_ok (New pb scenario options now nil)"
  by (simp add: New_def Let_def owned_ok_def)

lemma running_owned: "running F pb eq s \<Longrightarrow> owned_ok s"
  by (induction rule: running.induct) (auto intro: New_owned step_owned)

text \<open>C35. In every run the device owns at most 64 serving goroutines and 8 listeners; every connection in its
  map belongs to a serving goroutine, the task counter is the number of those that have not finished, so
  \<open>WaitForIdle\<close> reports idle exactly when all of them have, no listener is left, and no frame is delayed.\<close>

theorem resources_are_bounded:
  assumes "running F pb eq s"
  shows "dv_sessionTasks (sm_dev s) = card {i. sm_pc s i \<noteq> Gone} \<and> card {i. sm_pc s i \<noteq> Gone} \<le> 64 \<and>
    length (dv_listeners (sm_dev s)) \<le> 8 \<and> set (dv_connections (sm_dev s)) \<subseteq> {i. sm_pc s i \<noteq> Gone} \<and>
    (WaitForIdle None n (sm_dev s) = Some None) =
      ((\<forall>i. sm_pc s i = Gone) \<and> dv_listeners (sm_dev s) = [] \<and> n = 0)"
proof -
  note ok = running_owned[OF assms]
  then have run: "{i. sm_pc s i \<noteq> Gone} = set (dv_running (sm_dev s))" by (simp add: owned_pc)
  with ok have "dv_sessionTasks (sm_dev s) = card {i. sm_pc s i \<noteq> Gone}"
    by (simp add: owned_ok_def Let_def distinct_card)
  moreover from ok run have "(\<forall>i. sm_pc s i = Gone) = (dv_running (sm_dev s) = [])"
    by (auto simp: owned_pc)
  ultimately show ?thesis
    using ok run
    by (auto simp: owned_ok_def Let_def MaxDeviceConnections_def MaxDeviceListeners_def WaitForIdle_def is_idle_def)
qed

text \<open>A device that accepted one connection.\<close>

definition null_ops :: "unit link_ops" where
  "null_ops = \<lparr>fr_ReadFrame = (\<lambda>f. (Fail EOF, f)), fr_WriteFrame = (\<lambda>_ _ f. (None, f)), fr_Close = (\<lambda>f. f),
    lk_establish = (\<lambda>_ _ f. (True, f)), lk_arm = (\<lambda>_ _ _ f. f), lk_closed = (\<lambda>_. False)\<rparr>"

definition accepted_one :: "protobuf \<Rightarrow> unit simulation" where
  "accepted_one pb = snd (DialContext None () (New pb (bare_scenario ''a'' 0) [] 0 ()))"

lemma accepted_one_running: "running null_ops pb (=) (accepted_one pb)"
  unfolding accepted_one_def
  by (rule running.step[where a = "DialIn None ()"]) (auto intro: running.start simp: step_def)

lemma resources_are_bounded_witness:
  "dv_sessionTasks (sm_dev (accepted_one fieldless_protobuf)) = card {i. sm_pc (accepted_one fieldless_protobuf) i \<noteq> Gone} \<and>
   card {i. sm_pc (accepted_one fieldless_protobuf) i \<noteq> Gone} \<le> 64"
  using resources_are_bounded[OF accepted_one_running] by blast

end
