(* ===== verification/Device_Sync.thy ===== *)
theory Device_Sync
  imports Device_Run
begin

text \<open>
  What a state subscriber of the simulator knows. The view of a session is the replay of the state
  messages it was sent and of those the holder of \<open>stateSerial\<close> is about to send it; the invariant
  \<open>sync_ok\<close> says that the view is the device's states, except for entities that another session commanded:
  a command's new state is sent to the commanding session only.
\<close>

section \<open>Tasks\<close>

definition scenario_safe :: "Scenario \<Rightarrow> bool" where
  "scenario_safe sc \<longleftrightarrow>
    list_all (\<lambda>e. stateIdentityOf (Some (the e)) = None) (sc_Entities sc) \<and> timeline_ok (sc_StateTimeline sc)"

lemma entity_is_no_state: "entityIdentity m \<noteq> None \<Longrightarrow> stateIdentityOf (Some (the m)) = None"
proof (cases m)
  case (Some msg)
  then show "entityIdentity m \<noteq> None \<Longrightarrow> ?thesis"
    by (cases msg) (simp_all add: entityIdentity_def stateIdentityOf_def)
qed (simp add: entityIdentity_def)

lemma scenario_ok_safe: "scenario_ok pb sc \<Longrightarrow> scenario_safe sc"
proof -
  assume ok: "scenario_ok pb sc"
  then have "list_all (\<lambda>m. entityIdentity m \<noteq> None) (sc_Entities sc)" "timeline_ok (sc_StateTimeline sc)"
    by (simp_all add: scenario_ok_def identified_def)
  then show "scenario_safe sc"
    using entity_is_no_state by (auto simp: scenario_safe_def list_all_iff simp del: not_None_eq)
qed

lemma bare_safe: "scenario_safe (bare_scenario name seed)"
  by (simp add: scenario_safe_def bare_scenario_def timeline_ok_def)

fun plain_task :: "task \<Rightarrow> bool" where
  "plain_task (Send m) = (stateIdentityOf (Some m) = None)"
| "plain_task Unlock = False"
| "plain_task _ = True"

lemma fault_tasks_plain: "list_all plain_task (fault_tasks trigger fs)"
  by (induction fs) (auto simp: stateIdentityOf_def split: FaultAction.split)

lemma trigger_tasks_plain [simp]: "list_all plain_task (trigger_tasks sc trigger)"
  by (simp add: trigger_tasks_def fault_tasks_plain)

lemma message_tasks_plain:
  assumes "scenario_safe (dv_scenario d)"
  shows "list_all plain_task (message_tasks d m)"
  using assms
  by (cases m) (auto simp: message_tasks_def handler_tasks_def Let_def scenario_safe_def list_all_iff
      stateIdentityOf_def trigger_tasks_plain[unfolded list_all_iff])

section \<open>The view of a subscriber\<close>

fun locked_sends :: "task list \<Rightarrow> message list" where
  "locked_sends (Send m # ts) = m # locked_sends ts"
| "locked_sends _ = []"

lemma locked_sends_map [simp]: "locked_sends (map Send ms @ Unlock # ts) = ms"
  by (induction ms) simp_all

definition pending_states :: "nat \<Rightarrow> 'f simulation \<Rightarrow> message list" where
  "pending_states i s =
    (case sm_serial s of
      Free \<Rightarrow> []
    | HeldBy j \<Rightarrow> if j = i then (case sm_pc s i of Working ts \<Rightarrow> locked_sends ts | _ \<Rightarrow> []) else []
    | Broadcasting bs t \<Rightarrow> map snd (filter (\<lambda>(j, m). j = i) bs))"

definition view :: "nat \<Rightarrow> 'f simulation \<Rightarrow> (stateIdentity \<rightharpoonup> message)" where
  "view i s = replay (sm_sent s i @ pending_states i s)"

definition foreign :: "nat \<Rightarrow> 'f simulation \<Rightarrow> stateIdentity set" where
  "foreign i s = {x. \<exists>j. j \<noteq> i \<and> (j, x) \<in> set (sm_commanded s)}"

definition work_ok :: "bool \<Rightarrow> serve_pc \<Rightarrow> bool" where
  "work_ok holds pc \<longleftrightarrow>
    (case pc of
      Working ts \<Rightarrow>
        if holds then \<exists>ms rest. ts = map Send ms @ Unlock # rest \<and> list_all plain_task rest
        else list_all plain_task ts
    | _ \<Rightarrow> \<not> holds)"

definition in_sync :: "nat \<Rightarrow> 'f simulation \<Rightarrow> bool" where
  "in_sync i s \<longleftrightarrow> (\<forall>x. x \<notin> foreign i s \<longrightarrow> view i s x = dv_currentStates (sm_dev s) x)"

definition sync_ok :: "'f simulation \<Rightarrow> bool" where
  "sync_ok s \<longleftrightarrow>
    scenario_safe (dv_scenario (sm_dev s)) \<and> state_store_ok (sm_dev s) \<and>
    (\<forall>i. work_ok (sm_serial s = HeldBy i) (sm_pc s i)) \<and>
    (\<forall>i. dom (view i s) \<subseteq> dom (dv_currentStates (sm_dev s))) \<and>
    (\<forall>i \<in> set (dv_connections (sm_dev s)). ds_subscribed (dv_sessions (sm_dev s) i) \<longrightarrow>
      \<not> sm_failed s i \<longrightarrow> in_sync i s)"

lemma replay_append: "replay (a @ b) = fold put_state b (replay a)"
  by (simp add: replay_def)

lemma dom_replay: "dom (replay ms) = {x. \<exists>m \<in> set ms. stateIdentityOf (Some m) = Some x}"
proof (induction ms rule: rev_induct)
  case (snoc m ms)
  then show ?case
    by (cases "stateIdentityOf (Some m)") (auto simp: put_state_def dom_def set_eq_iff simp del: split_paired_All split_paired_Ex)
qed simp

lemma replay_skip: "stateIdentityOf (Some m) = None \<Longrightarrow> replay (a @ m # b) = replay (a @ b)"
  by (simp add: replay_append put_state_def)

lemma work_ok_simps [simp]:
  "work_ok holds Accepted = (\<not> holds)" "work_ok holds Greeting = (\<not> holds)"
  "work_ok holds Serving = (\<not> holds)" "work_ok holds Leaving = (\<not> holds)"
  "work_ok holds ClosedConn = (\<not> holds)" "work_ok holds Gone = (\<not> holds)"
  "work_ok False (Working ts) = list_all plain_task ts"
  by (simp_all add: work_ok_def)

lemma work_ok_locked_intro:
  "ts = map Send ms @ Unlock # rest \<Longrightarrow> list_all plain_task rest \<Longrightarrow> work_ok True (Working ts)"
  by (auto simp: work_ok_def)

lemma work_ok_locked:
  assumes "work_ok True (Working (t # ts))"
  obtains (send) m where "t = Send m" "work_ok True (Working ts)"
  | (unlock) "t = Unlock" "list_all plain_task ts"
proof -
  from assms obtain ms rest where "t # ts = map Send ms @ Unlock # rest" "list_all plain_task rest"
    by (auto simp: work_ok_def)
  then show ?thesis
    by (cases ms) (auto intro: unlock send[OF _ work_ok_locked_intro])
qed

text \<open>What the invariant depends on.\<close>

lemma pending_cong:
  "sm_serial s' = sm_serial s \<Longrightarrow> sm_pc s' = sm_pc s \<Longrightarrow> pending_states i s' = pending_states i s"
  by (simp add: pending_states_def split: serial.split)

lemma others_work:
  "sync_ok s \<Longrightarrow> sm_serial s = HeldBy i \<Longrightarrow> j \<noteq> i \<Longrightarrow> work_ok False (sm_pc s j)"
proof -
  assume "sync_ok s" "sm_serial s = HeldBy i" "j \<noteq> i"
  then show ?thesis by (simp add: sync_ok_def) metis
qed

lemma in_sync_cong:
  "view i s' = view i s \<Longrightarrow> sm_commanded s' = sm_commanded s \<Longrightarrow>
    dv_currentStates (sm_dev s') = dv_currentStates (sm_dev s) \<Longrightarrow> in_sync i s' = in_sync i s"
  by (simp add: in_sync_def foreign_def)

lemma quiet_sync: "quiet s s1 \<Longrightarrow> sync_ok s1 = sync_ok s"
proof -
  assume q: "quiet s s1"
  then have v: "view i s1 = view i s" for i
    by (simp add: view_def quiet_simps pending_cong[of s1 s])
  moreover have "in_sync i s1 = in_sync i s" for i
    using q by (intro in_sync_cong v) (simp_all add: quiet_simps)
  ultimately show ?thesis
    using q by (simp add: sync_ok_def quiet_simps state_store_ok_def)
qed

text \<open>A program counter that moves outside the lock.\<close>

lemma set_pc_sync:
  assumes "sync_ok s" "sm_serial s \<noteq> HeldBy i" "work_ok False pc"
  shows "sync_ok (set_pc i pc s)"
proof -
  from assms(2) have v: "view j (set_pc i pc s) = view j s" for j
    by (cases "sm_serial s") (auto simp: view_def pending_states_def)
  have "in_sync j (set_pc i pc s) = in_sync j s" for j
    by (intro in_sync_cong v) simp_all
  with assms v show ?thesis
    by (simp add: sync_ok_def)
qed

lemma leave_sync:
  assumes "sync_ok s" "sm_serial s \<noteq> HeldBy i"
  shows "sync_ok (leave i s)"
  using set_pc_sync[OF assms(1,2), of Leaving] assms(2) by (simp add: leave_def)

text \<open>A failed send: nothing more is claimed of that session.\<close>

lemma failed_sync:
  assumes "sync_ok s"
  shows "sync_ok (s\<lparr>sm_failed := (sm_failed s)(i := True)\<rparr>)"
proof -
  let ?s = "s\<lparr>sm_failed := (sm_failed s)(i := True)\<rparr>"
  have v: "view j ?s = view j s" for j by (simp add: view_def pending_cong[of ?s s])
  have "in_sync j ?s = in_sync j s" for j by (intro in_sync_cong v) simp_all
  with assms v show ?thesis by (simp add: sync_ok_def)
qed

lemma sent_plain_sync:
  assumes "sync_ok s" "stateIdentityOf (Some m) = None"
  shows "sync_ok (s\<lparr>sm_sent := (sm_sent s)(i := sm_sent s i @ [m])\<rparr>)"
proof -
  let ?s = "s\<lparr>sm_sent := (sm_sent s)(i := sm_sent s i @ [m])\<rparr>"
  have v: "view j ?s = view j s" for j
    using assms(2) by (simp add: view_def pending_cong[of ?s s] replay_skip)
  have "in_sync j ?s = in_sync j s" for j by (intro in_sync_cong v) simp_all
  with assms(1) v show ?thesis by (simp add: sync_ok_def)
qed

text \<open>The holder of the lock sends the next state, or fails to.\<close>

lemma sent_locked_sync:
  assumes ok: "sync_ok s" and pc: "sm_pc s i = Working (Send m # ts)" and held: "sm_serial s = HeldBy i"
    and rest: "work_ok True (Working ts)"
  shows "sync_ok (set_pc i (Working ts) (s\<lparr>sm_sent := (sm_sent s)(i := sm_sent s i @ [m])\<rparr>))" (is "sync_ok ?s")
proof -
  have v: "view j ?s = view j s" for j
    using pc held by (cases "j = i") (simp_all add: view_def pending_states_def)
  have "in_sync j ?s = in_sync j s" for j by (intro in_sync_cong v) simp_all
  with ok held rest v others_work[OF ok held] show ?thesis by (simp add: sync_ok_def)
qed

lemma lost_locked_sync:
  assumes ok: "sync_ok s" and pc: "sm_pc s i = Working (Send m # ts)" and held: "sm_serial s = HeldBy i"
  shows "sync_ok (leave i (s\<lparr>sm_failed := (sm_failed s)(i := True)\<rparr>))" (is "sync_ok ?s")
proof -
  have v: "view j ?s = view j s" if "j \<noteq> i" for j
    using that held by (simp add: view_def pending_states_def)
  have n: "in_sync j ?s = in_sync j s" if "j \<noteq> i" for j by (intro in_sync_cong v that) simp_all
  have "dom (view i ?s) \<subseteq> dom (view i s)"
    unfolding view_def dom_replay using held by (auto simp: pending_states_def)
  moreover have "dom (view j s) \<subseteq> dom (dv_currentStates (sm_dev s))" for j
    using ok by (simp add: sync_ok_def)
  ultimately have "dom (view j ?s) \<subseteq> dom (dv_currentStates (sm_dev s))" for j
    using v by (cases "j = i") (blast, simp)
  with ok held n others_work[OF ok held] show ?thesis by (simp add: sync_ok_def)
qed

lemma unlock_sync:
  assumes ok: "sync_ok s" and pc: "sm_pc s i = Working (Unlock # ts)" and held: "sm_serial s = HeldBy i"
    and rest: "list_all plain_task ts"
  shows "sync_ok (set_pc i (Working ts) (s\<lparr>sm_serial := Free\<rparr>))" (is "sync_ok ?s")
proof -
  have v: "view j ?s = view j s" for j
    using pc held by (cases "j = i") (simp_all add: view_def pending_states_def)
  have "in_sync j ?s = in_sync j s" for j by (intro in_sync_cong v) simp_all
  with ok held rest v others_work[OF ok held] show ?thesis by (simp add: sync_ok_def)
qed

text \<open>A state is stored under the lock, and \<open>pending_states\<close> holds it for whoever will be told.\<close>

lemma store_state_sync:
  assumes ok: "sync_ok s" and free: "\<And>j. pending_states j s = []"
    and cur: "dv_currentStates (sm_dev s') = put_state m (dv_currentStates (sm_dev s))"
    and dev: "state_store_ok (sm_dev s')" "dv_scenario (sm_dev s') = dv_scenario (sm_dev s)"
      "dv_connections (sm_dev s') = dv_connections (sm_dev s)" "dv_sessions (sm_dev s') = dv_sessions (sm_dev s)"
    and hist: "sm_sent s' = sm_sent s" "sm_failed s' = sm_failed s"
    and work: "\<And>j. work_ok (sm_serial s' = HeldBy j) (sm_pc s' j)"
    and told: "\<And>j. set (pending_states j s') \<subseteq> {m}"
    and who: "\<And>j. j \<in> set (dv_connections (sm_dev s)) \<Longrightarrow> ds_subscribed (dv_sessions (sm_dev s) j) \<Longrightarrow>
      m \<in> set (pending_states j s') \<or> (\<forall>x. stateIdentityOf (Some m) = Some x \<longrightarrow> x \<in> foreign j s')"
    and foreign: "\<And>j. foreign j s \<subseteq> foreign j s'"
  shows "sync_ok s'"
proof -
  have before: "view j s = replay (sm_sent s j)" for j
    using free by (simp add: view_def)
  have only: "replay (a @ b) = (if m \<in> set b then put_state m (replay a) else replay a)" if "set b \<subseteq> {m}" for a b
    using that
    by (induction b rule: rev_induct)
      (auto simp: put_state_def simp flip: append_assoc split: option.splits)
  have after: "view j s' = (if m \<in> set (pending_states j s') then put_state m (view j s) else view j s)" for j
    unfolding view_def hist before[unfolded view_def] by (rule only[OF told])
  have dom: "dom (view j s') \<subseteq> dom (dv_currentStates (sm_dev s'))" for j
  proof -
    from ok have "dom (view j s) \<subseteq> dom (dv_currentStates (sm_dev s))" by (simp add: sync_ok_def)
    then show ?thesis unfolding after cur put_state_def by (auto split: option.splits)
  qed
  have sync: "in_sync j s'" if "j \<in> set (dv_connections (sm_dev s))" "ds_subscribed (dv_sessions (sm_dev s) j)"
    "\<not> sm_failed s j" for j
    unfolding in_sync_def
  proof (intro allI impI)
    fix x assume x: "x \<notin> foreign j s'"
    from ok that have "in_sync j s" by (simp add: sync_ok_def)
    with x foreign have "view j s x = dv_currentStates (sm_dev s) x" unfolding in_sync_def by blast
    with x who[OF that(1,2)] show "view j s' x = dv_currentStates (sm_dev s') x"
      unfolding after cur put_state_def by (auto split: option.splits)
  qed
  from ok have "scenario_safe (dv_scenario (sm_dev s))" by (simp add: sync_ok_def)
  with dom sync work dev hist show ?thesis by (simp add: sync_ok_def)
qed

lemma commit_sync:
  assumes c: "commit_command i m ts s = Some s'" and ok: "sync_ok s" and plain: "list_all plain_task ts"
  shows "sync_ok s'"
proof -
  let ?x = "case stateIdentityOf (Some m) of None \<Rightarrow> [] | Some x \<Rightarrow> [(i, x)]"
  from c have free: "sm_serial s = Free"
    and s': "s' = set_pc i (Working (sends_state m @ ts)) (on_dev (storeStateLocked m)
      (s\<lparr>sm_serial := HeldBy i, sm_commanded := sm_commanded s @ ?x\<rparr>))"
    by (simp_all add: commit_command_def split: if_splits)
  have none: "pending_states j s = []" for j
    by (simp add: pending_states_def free)
  have p: "pending_states j s' = (if j = i then [m] else [])" for j
    by (simp add: s' pending_states_def sends_state_def)
  have f: "foreign j s' = foreign j s \<union> {x. j \<noteq> i \<and> stateIdentityOf (Some m) = Some x}" for j
    by (cases "stateIdentityOf (Some m)") (auto simp: s' foreign_def)
  from ok have work: "work_ok False (sm_pc s j)" for j
    using free by (simp add: sync_ok_def)
  have mine: "work_ok True (Working (sends_state m @ ts))"
    using plain by (intro work_ok_locked_intro[of _ "[m]" ts]) (simp_all add: sends_state_def)
  show ?thesis
  proof (rule store_state_sync[OF ok none, where m = m])
    show "state_store_ok (sm_dev s')"
      using ok by (simp add: s' sync_ok_def store_ok)
    show "work_ok (sm_serial s' = HeldBy j) (sm_pc s' j)" for j
      using work mine by (simp add: s')
    show "m \<in> set (pending_states j s') \<or> (\<forall>x. stateIdentityOf (Some m) = Some x \<longrightarrow> x \<in> foreign j s')" for j
      by (cases "j = i") (simp_all add: p f)
    show "set (pending_states j s') \<subseteq> {m}" "foreign j s \<subseteq> foreign j s'" for j
      by (auto simp: p f)
  qed (simp_all add: s' store_states)
qed

lemma subscribe_sync:
  assumes ok: "sync_ok s" and free: "sm_serial s = Free" and plain: "list_all plain_task ts"
  shows "sync_ok (set_pc i (Working (map Send (stateSnapshotLocked (sm_dev s)) @ [Unlock] @ ts))
    (on_dev (set_session i (\<lambda>x. x\<lparr>ds_subscribed := True\<rparr>)) (s\<lparr>sm_serial := HeldBy i\<rparr>)))" (is "sync_ok ?s")
proof -
  let ?cur = "dv_currentStates (sm_dev s)"
  from ok have store: "state_store_ok (sm_dev s)" and dom: "dom (view j s) \<subseteq> dom ?cur" for j
    by (simp_all add: sync_ok_def)
  have before: "view j s = replay (sm_sent s j)" for j
    using free by (simp add: view_def pending_states_def)
  have other: "view j ?s = view j s" if "j \<noteq> i" for j
    using that free by (simp add: view_def pending_states_def)
  have mine: "view i ?s = ?cur"
    using put_snapshot[OF store dom[of i, unfolded before]]
    by (simp add: view_def pending_states_def replay_append)
  have "in_sync j ?s" if "j \<noteq> i \<longrightarrow> in_sync j s" for j
  proof (cases "j = i")
    case True
    with mine show ?thesis by (simp add: in_sync_def)
  next
    case False
    have "in_sync j ?s = in_sync j s" by (intro in_sync_cong other False) simp_all
    with that False show ?thesis by simp
  qed
  moreover have "dom (view j ?s) \<subseteq> dom ?cur" for j
    using mine other[of j] dom[of j] by (cases "j = i") simp_all
  moreover have "work_ok True (Working (map Send (stateSnapshotLocked (sm_dev s)) @ [Unlock] @ ts))"
    by (rule work_ok_locked_intro[OF _ plain]) simp
  moreover have "work_ok False (sm_pc s j)" for j
    using ok free by (simp add: sync_ok_def)
  ultimately show ?thesis
    using ok store by (simp add: sync_ok_def state_store_ok_def)
qed

lemma run_task_sync:
  assumes run: "run_task F pb eq i t ts s = Some s'" and ok: "sync_ok s" and pc: "sm_pc s i = Working (t # ts)"
  shows "sync_ok s'"
proof -
  have work: "work_ok (sm_serial s = HeldBy i) (Working (t # ts))"
    using ok pc by (simp add: sync_ok_def flip: pc)
  have plain: "list_all plain_task (t # ts)" if "sm_serial s \<noteq> HeldBy i"
    using work that by simp
  have locked: "(\<exists>m. t = Send m \<and> work_ok True (Working ts)) \<or> (t = Unlock \<and> list_all plain_task ts)"
    if "sm_serial s = HeldBy i"
    using work that by (auto elim: work_ok_locked)
  have q: "sync_ok s1 \<and> sm_serial s1 = sm_serial s \<and> sm_pc s1 i = Working (t # ts) \<and> sm_sent s1 = sm_sent s \<and>
      sm_failed s1 = sm_failed s" if "quiet s s1" for s1
    using that quiet_sync[OF that] ok pc by (simp add: quiet_simps)
  from run show ?thesis
  proof (cases rule: run_task_cases)
    case (quietly s1)
    then have free: "sm_serial s \<noteq> HeldBy i" using locked by auto
    show ?thesis
      unfolding quietly(3) using q[OF quietly(2)] plain[OF free] free by (intro set_pc_sync) simp_all
  next
    case (broken s1)
    then have free: "sm_serial s \<noteq> HeldBy i" using locked by auto
    show ?thesis
      unfolding broken(3) using q[OF broken(2)] free by (intro leave_sync) simp_all
  next
    case (sent m s1)
    show ?thesis
    proof (cases "sm_serial s = HeldBy i")
      case True
      with locked sent(1) have "work_ok True (Working ts)" by auto
      with True sent q[OF sent(2)] sent_locked_sync[of s1 i m ts] show ?thesis by simp
    next
      case False
      with plain sent(1) have p: "stateIdentityOf (Some m) = None" "list_all plain_task ts" by auto
      with False sent q[OF sent(2)] sent_plain_sync[of s1 m i] show ?thesis
        by (auto intro!: set_pc_sync)
    qed
  next
    case (lost m s1)
    show ?thesis
    proof (cases "sm_serial s = HeldBy i")
      case True
      with lost q[OF lost(2)] lost_locked_sync[of s1 i m ts] show ?thesis by simp
    next
      case False
      with lost q[OF lost(2)] failed_sync[of s1 i] show ?thesis
        by (auto intro!: leave_sync)
    qed
  next
    case (commit m)
    then have "sm_serial s \<noteq> HeldBy i" using locked by auto
    with plain have "list_all plain_task ts" by simp
    with commit(2) ok show ?thesis by (rule commit_sync)
  next
    case subscribe
    with plain have "list_all plain_task ts" by simp
    with ok subscribe show ?thesis using subscribe_sync by blast
  next
    case unlock
    then have held: "sm_serial s = HeldBy i" using plain by auto
    with locked unlock have "list_all plain_task ts" by auto
    with held unlock ok pc unlock_sync show ?thesis by blast
  next
    case return
    then have "sm_serial s \<noteq> HeldBy i" using locked by auto
    with ok return show ?thesis by (auto intro: leave_sync)
  qed
qed

lemma not_working_not_held:
  assumes "sync_ok s" "\<And>t ts. sm_pc s i \<noteq> Working (t # ts)"
  shows "sm_serial s \<noteq> HeldBy i"
proof
  assume held: "sm_serial s = HeldBy i"
  with assms(1) have "work_ok True (sm_pc s i)" by (simp add: sync_ok_def) metis
  with assms(2) show False
    by (auto simp: work_ok_def split: serve_pc.splits) (metis append_is_Nil_conv list.exhaust list.simps(3))
qed

lemma serve_step_sync:
  assumes "serve_step F pb eq i s = Some s'" and ok: "sync_ok s"
  shows "sync_ok s'"
  using assms(1)
proof (cases rule: serve_step_cases)
  case (task t ts)
  show ?thesis by (rule run_task_sync[OF task(2) ok task(1)])
next
  case gone
  then have free: "sm_serial s \<noteq> HeldBy i" by (intro not_working_not_held[OF ok]) simp
  let ?s = "on_dev (\<lambda>d. d\<lparr>dv_connections := remove1 i (dv_connections d),
    dv_running := remove1 i (dv_running d), dv_sessionTasks := dv_sessionTasks d - 1\<rparr>) s"
  have "pending_states j ?s = pending_states j s" for j by (rule pending_cong) simp_all
  then have v: "view j ?s = view j s" for j by (simp add: view_def)
  have "in_sync j ?s = in_sync j s" for j by (intro in_sync_cong v) simp_all
  with ok v have "sync_ok ?s"
    by (auto simp: sync_ok_def state_store_ok_def dest: in_set_remove1[THEN iffD1] notin_set_remove1)
  with free gone show ?thesis by (auto intro!: set_pc_sync)
next
  case (left s1)
  then have "sm_serial s \<noteq> HeldBy i" by (intro not_working_not_held[OF ok]) simp
  with ok left quiet_sync[OF left(3)] show ?thesis by (auto intro!: leave_sync simp: quiet_simps)
next
  case (moved s1 pc)
  then have free: "sm_serial s \<noteq> HeldBy i" by (intro not_working_not_held[OF ok]) simp
  from ok have safe: "scenario_safe (dv_scenario (sm_dev s))" by (simp add: sync_ok_def)
  have "work_ok False pc"
  proof (cases pc)
    case (Working ts)
    from moved(6)[OF Working] show ?thesis
      using message_tasks_plain[OF safe]
      by (auto simp: Working hello_response_def stateIdentityOf_def)
  qed (use moved(5) in simp_all)
  with ok moved free quiet_sync[OF moved(3)] show ?thesis by (auto intro!: set_pc_sync simp: quiet_simps)
qed

text \<open>A state that is broadcast: every subscriber in the connection map is about to be told.\<close>

lemma broadcast_sync:
  assumes ok: "sync_ok s" and none: "\<And>j. pending_states j s = []" and held: "\<And>j. sm_serial s \<noteq> HeldBy j"
    and cur: "dv_currentStates (sm_dev s') = put_state m (dv_currentStates (sm_dev s))"
    and dev: "state_store_ok (sm_dev s')" "dv_scenario (sm_dev s') = dv_scenario (sm_dev s)"
      "dv_connections (sm_dev s') = dv_connections (sm_dev s)" "dv_sessions (sm_dev s') = dv_sessions (sm_dev s)"
    and hist: "sm_sent s' = sm_sent s" "sm_failed s' = sm_failed s" "sm_commanded s' = sm_commanded s"
      "sm_pc s' = sm_pc s"
    and serial: "sm_serial s' = Broadcasting (map (\<lambda>i. (i, m)) (state_subscribers order (sm_dev s))) t"
  shows "sync_ok s'"
proof (rule store_state_sync[OF ok none cur dev hist(1,2)])
  show "work_ok (sm_serial s' = HeldBy j) (sm_pc s' j)" for j
    using ok held[of j] serial hist(4) by (simp add: sync_ok_def) metis
  show "set (pending_states j s') \<subseteq> {m}" for j
    by (auto simp: pending_states_def serial)
  show "m \<in> set (pending_states j s') \<or> (\<forall>x. stateIdentityOf (Some m) = Some x \<longrightarrow> x \<in> foreign j s')"
    if "j \<in> set (dv_connections (sm_dev s))" "ds_subscribed (dv_sessions (sm_dev s) j)" for j
    using that by (force simp: pending_states_def serial state_subscribers_def)
  show "foreign j s \<subseteq> foreign j s'" for j
    by (simp add: foreign_def hist(3))
qed

lemma same_view_sync:
  assumes ok: "sync_ok s" and v: "\<And>j. view j s' = view j s"
    and work: "\<And>j. work_ok (sm_serial s' = HeldBy j) (sm_pc s' j)"
    and hist: "sm_failed s' = sm_failed s" "sm_commanded s' = sm_commanded s"
    and dev: "quiet_dev (sm_dev s) (sm_dev s')"
  shows "sync_ok s'"
proof -
  have "in_sync j s' = in_sync j s" for j
    using dev by (intro in_sync_cong v) (simp_all add: hist quiet_dev_def)
  with ok v work hist dev show ?thesis
    by (simp add: sync_ok_def quiet_dev_def state_store_ok_def)
qed

lemma sync_work: "sync_ok s \<Longrightarrow> work_ok (sm_serial s = HeldBy j) (sm_pc s j)"
  by (simp add: sync_ok_def)

lemma broadcast_step_sync:
  assumes "broadcast_step F pb order s = Some s'" and ok: "sync_ok s"
  shows "sync_ok s'"
  using assms(1)
proof (cases rule: broadcast_step_cases)
  case (sent i m rest t s1)
  have work: "work_ok False (sm_pc s j)" for j
    using sync_work[OF ok, of j] sent(1) by simp
  have v: "view j s' = view j s" for j
    using sent by (simp add: view_def pending_states_def quiet_simps)
  show ?thesis
    by (rule same_view_sync[OF ok v]) (use work sent in \<open>simp_all add: quiet_simps\<close>)
next
  case (lost i m rest t s1)
  let ?s = "s\<lparr>sm_failed := (sm_failed s)(i := True)\<rparr>"
  have work: "work_ok False (sm_pc s j)" for j
    using sync_work[OF ok, of j] lost(1) by simp
  have v: "view j s' = view j s" if "j \<noteq> i" for j
    using that lost by (simp add: view_def pending_states_def quiet_simps)
  have n: "in_sync j s' = in_sync j s" if "j \<noteq> i" for j
    using lost by (intro in_sync_cong v that) (simp_all add: quiet_simps)
  have "dom (view i s') \<subseteq> dom (view i s)"
    unfolding view_def dom_replay using lost by (auto simp: pending_states_def quiet_simps)
  moreover have "dom (view j s) \<subseteq> dom (dv_currentStates (sm_dev s))" for j
    using ok by (simp add: sync_ok_def)
  ultimately have "dom (view j s') \<subseteq> dom (dv_currentStates (sm_dev s))" for j
    using v by (cases "j = i") (blast, simp)
  with ok lost n work show ?thesis by (simp add: sync_ok_def quiet_simps state_store_ok_def)
next
  case (finished t)
  have work: "work_ok False (sm_pc s j)" for j
    using sync_work[OF ok, of j] finished(1) by simp
  have v: "view j s' = view j s" for j
    using finished by (simp add: view_def pending_states_def)
  show ?thesis
    by (rule same_view_sync[OF ok v]) (use work finished in \<open>simp_all add: quiet_simps\<close>)
next
  case (due now m)
  from ok have "state_store_ok (sm_dev s)" by (simp add: sync_ok_def)
  then show ?thesis
    by (intro broadcast_sync[OF ok, where m = m and order = order and t = "Some now"])
      (use due in \<open>simp_all add: pending_states_def take_due_store_ok\<close>)
qed

lemma push_locked_sync:
  assumes "push_locked order k s = Some s'" and ok: "sync_ok s"
  shows "sync_ok s'"
proof -
  from assms(1) have free: "sm_serial s = Free"
    and s': "s' = on_dev (storeStateLocked (sm_pushes s ! k))
      (s\<lparr>sm_pushes := take k (sm_pushes s) @ drop (Suc k) (sm_pushes s), sm_serial := Broadcasting
        (map (\<lambda>i. (i, sm_pushes s ! k)) (state_subscribers order (sm_dev s))) None\<rparr>)"
    by (simp_all add: push_locked_def split: if_splits)
  from ok have "state_store_ok (sm_dev s)" by (simp add: sync_ok_def)
  then show ?thesis
    by (intro broadcast_sync[OF ok, where m = "sm_pushes s ! k" and order = order and t = None])
      (simp_all add: s' pending_states_def store_ok store_states free)
qed

lemma log_step_sync:
  assumes "log_step F pb k s = Some s'" and ok: "sync_ok s"
  shows "sync_ok s'"
  using assms(1)
proof (cases rule: log_step_cases)
  case (sent i e ls s1)
  let ?s = "s1\<lparr>sm_sent := (sm_sent s1)(i := sm_sent s1 i @ [SubscribeLogsResponse e])\<rparr>"
  have "sync_ok ?s"
    using ok quiet_sync[OF sent(1)] by (intro sent_plain_sync) (simp_all add: stateIdentityOf_def)
  moreover have "quiet ?s s'" using sent by (simp add: quiet_simps)
  ultimately show ?thesis by (simp add: quiet_sync)
next
  case (lost i ls s1)
  let ?s = "s1\<lparr>sm_failed := (sm_failed s1)(i := True)\<rparr>"
  have "sync_ok ?s"
    using ok quiet_sync[OF lost(1)] by (intro failed_sync) simp_all
  moreover have "quiet ?s s'" using lost by (simp add: quiet_simps)
  ultimately show ?thesis by (simp add: quiet_sync)
next
  case (finished ls)
  then have "quiet s s'" by (simp add: quiet_simps)
  with ok show ?thesis by (simp add: quiet_sync)
qed

text \<open>Steps that touch neither the states nor what sessions were sent.\<close>

lemma still_sync:
  assumes ok: "sync_ok s" and "sm_serial s' = sm_serial s" "sm_pc s' = sm_pc s" "sm_sent s' = sm_sent s"
    "sm_failed s' = sm_failed s" "sm_commanded s' = sm_commanded s"
    and "dv_scenario (sm_dev s') = dv_scenario (sm_dev s)"
    "dv_currentStates (sm_dev s') = dv_currentStates (sm_dev s)"
    "dv_stateOrder (sm_dev s') = dv_stateOrder (sm_dev s)"
    and sub: "\<And>j. j \<in> set (dv_connections (sm_dev s')) \<Longrightarrow> ds_subscribed (dv_sessions (sm_dev s') j) \<Longrightarrow>
      j \<in> set (dv_connections (sm_dev s)) \<and> ds_subscribed (dv_sessions (sm_dev s) j)"
  shows "sync_ok s'"
proof -
  have "pending_states j s' = pending_states j s" for j by (rule pending_cong) (use assms in simp_all)
  then have v: "view j s' = view j s" for j using assms by (simp add: view_def)
  have "in_sync j s' = in_sync j s" for j by (intro in_sync_cong v) (use assms in simp_all)
  with assms v show ?thesis
    by (simp add: sync_ok_def state_store_ok_def)
qed

lemma other_steps_sync:
  assumes ok: "sync_ok s"
  shows "sync_ok (snd (PushState state s))" "sync_ok (snd (PushLog order entry s))"
    "begin_advance now s = Some s1 \<Longrightarrow> sync_ok s1" "sync_ok (CloseDevice s)"
    "close_next F k s = Some s2 \<Longrightarrow> sync_ok s2" "sync_ok (snd (DropConnections s))"
    "sync_ok (snd (begin_listening loopback l s))" "sync_ok (end_listening l s)"
  by (rule still_sync[OF ok];
      auto simp: PushState_def PushLog_def begin_advance_def CloseDevice_def close_next_def DropConnections_def
        begin_listening_def end_listening_def Let_def split: option.splits if_splits)+

lemma advance_locked_sync:
  assumes "advance_locked s = Some s'" and ok: "sync_ok s"
  shows "sync_ok s'"
proof -
  from assms(1) obtain now where free: "sm_serial s = Free"
    and s': "s' = s\<lparr>sm_advance := None, sm_serial := Broadcasting [] (Some now)\<rparr>"
    by (auto simp: advance_locked_def split: option.splits if_splits)
  have work: "work_ok False (sm_pc s j)" for j
    using sync_work[OF ok, of j] free by simp
  show ?thesis
    by (rule same_view_sync[OF ok]) (use work free in \<open>simp_all add: s' view_def pending_states_def quiet_dev_def\<close>)
qed

lemma startConnection_sync:
  assumes "startConnection link s = (e, s')" and ok: "sync_ok s" and own: "owned_ok s"
  shows "sync_ok s'"
proof (cases e)
  case None
  let ?i = "dv_nextSession (sm_dev s)"
  from own have new: "?i \<notin> set (dv_running (sm_dev s))" "?i \<notin> set (dv_connections (sm_dev s))"
    by (auto simp: owned_ok_def Let_def)
  with owned_pc[OF own] have "sm_pc s ?i = Gone" by simp
  then have free: "sm_serial s \<noteq> HeldBy ?i" by (intro not_working_not_held[OF ok]) simp
  define d where "d = (sm_dev s)\<lparr>dv_accepted := dv_accepted (sm_dev s) + 1,
      dv_sessions := (dv_sessions (sm_dev s))(?i := \<lparr>ds_framer = link, ds_subscribed = False,
        ds_logsSubscribed = False, ds_logLevel = 0\<rparr>),
      dv_connections := dv_connections (sm_dev s) @ [?i], dv_running := dv_running (sm_dev s) @ [?i],
      dv_sessionTasks := dv_sessionTasks (sm_dev s) + 1, dv_nextSession := Suc ?i\<rparr>"
  have "sync_ok (s\<lparr>sm_dev := d\<rparr>)"
    by (rule still_sync[OF ok]) (use new in \<open>auto simp: d_def split: if_splits\<close>)
  moreover from None assms(1) have "s' = set_pc ?i Accepted (s\<lparr>sm_dev := d\<rparr>)"
    by (auto simp: startConnection_def d_def Let_def split: if_splits)
  ultimately show ?thesis using free by (auto intro!: set_pc_sync)
next
  case (Some err)
  with assms show ?thesis by (auto simp: startConnection_def Let_def split: if_splits)
qed

lemma serve_listener_sync:
  assumes ok: "sync_ok s" and own: "owned_ok s"
  shows "sync_ok (serve_listener accepted l s)"
proof (cases accepted)
  case (Inl err)
  with ok show ?thesis by (auto simp: serve_listener_def accept_round_def intro: other_steps_sync)
next
  case (Inr link)
  obtain e s1 where c: "startConnection link s = (e, s1)" by fastforce
  from startConnection_sync[OF c ok own] Inr c show ?thesis
    by (auto simp: serve_listener_def accept_round_def split: option.splits intro: other_steps_sync)
qed

lemma DialContext_sync:
  assumes ok: "sync_ok s" and own: "owned_ok s"
  shows "sync_ok (snd (DialContext ctx link s))"
proof -
  obtain e s1 where c: "startConnection link s = (e, s1)" by fastforce
  from startConnection_sync[OF c ok own] ok c show ?thesis
    by (auto simp: DialContext_def split: option.splits)
qed

lemma step_sync:
  assumes "step F pb eq a s = Some s'" "sync_ok s" "owned_ok s"
  shows "sync_ok s'"
  using assms
  by (cases a) (auto simp: step_def split: if_splits intro: serve_step_sync DialContext_sync serve_listener_sync
      broadcast_step_sync log_step_sync push_locked_sync advance_locked_sync other_steps_sync)

section \<open>The start\<close>

lemma new_device_scenario:
  "scenario_safe (dv_scenario (new_device pb sc options x))"
proof -
  let ?sc = "if sc_Name sc = '''' then sc\<lparr>sc_Name := ''simulated-esphome''\<rparr> else sc"
  have "Validate pb ?sc = None \<Longrightarrow> scenario_safe ?sc"
    using scenario_ok_safe by (simp add: Validate_None_iff)
  moreover have "Validate pb ?sc \<noteq> None \<Longrightarrow> scenario_safe (bare_scenario n sd)" for n sd
    by (rule bare_safe)
  ultimately show ?thesis by (simp add: new_device_def Let_def)
qed

lemma fold_store_ok: "state_store_ok d \<Longrightarrow> state_store_ok (fold (\<lambda>s. storeStateLocked (the s)) ms d)"
  by (induction ms arbitrary: d) (simp_all add: store_ok)

lemma empty_store_ok: "dv_currentStates d = Map.empty \<Longrightarrow> dv_stateOrder d = [] \<Longrightarrow> state_store_ok d"
  by (simp add: state_store_ok_def)

lemma new_device_store: "state_store_ok (new_device pb sc options x)"
  by (auto simp: new_device_def Let_def intro!: fold_store_ok empty_store_ok)

lemma New_sync: "sync_ok (New pb scenario options now nil)"
proof -
  let ?d = "new_device pb scenario options (\<lambda>_. \<lparr>ds_framer = nil, ds_subscribed = False,
       ds_logsSubscribed = False, ds_logLevel = 0\<rparr>)"
  have "state_store_ok (apply_due now ?d)"
    by (rule apply_due_induct) (auto intro: new_device_store take_due_store_ok)
  then show ?thesis
    by (auto simp: sync_ok_def New_def Let_def new_device_store new_device_scenario view_def pending_states_def)
qed

lemma running_sync: "running F pb eq s \<Longrightarrow> sync_ok s"
  by (induction rule: running.induct) (auto intro: New_sync step_sync running_owned)

lemma snapshot_identities:
  assumes "state_store_ok d"
  shows "map (\<lambda>m. stateIdentityOf (Some m)) (stateSnapshotLocked d) = map Some (dv_stateOrder d)"
proof -
  have "map (\<lambda>m. stateIdentityOf (Some m)) (List.map_filter (dv_currentStates d) is) = map Some is"
    if "set is \<subseteq> dom (dv_currentStates d)" for "is"
    using that assms by (induction "is") (auto simp: map_filter_simps state_store_ok_def)
  with assms show ?thesis by (simp add: stateSnapshotLocked_def state_store_ok_def)
qed

text \<open>C37. The store of a device is well typed in every run, whatever is pushed, played by the timeline or commanded: every
  stored state is a state message kept under its own family and key, the order lists each stored identity once, so
  the snapshot has one message per entity; and where a fan or a light command looks up the state it changes, it
  finds none or one of its own kind, so the type assertion of the handler never meets another message.\<close>

theorem stored_states_are_typed:
  assumes "running F pb eq s"
  shows "(\<forall>i m. dv_currentStates (sm_dev s) i = Some m \<longrightarrow> validState (Some m) \<and> stateIdentityOf (Some m) = Some i) \<and>
    distinct (dv_stateOrder (sm_dev s)) \<and> set (dv_stateOrder (sm_dev s)) = dom (dv_currentStates (sm_dev s)) \<and>
    map (\<lambda>m. stateIdentityOf (Some m)) (stateSnapshotLocked (sm_dev s)) = map Some (dv_stateOrder (sm_dev s)) \<and>
    (\<forall>m. dv_currentStates (sm_dev s) (''fan'', k) = Some m \<longrightarrow> (\<exists>x. m = FanStateResponse x \<and> FanState_Key x = k)) \<and>
    (\<forall>m. dv_currentStates (sm_dev s) (''light'', k) = Some m \<longrightarrow> (\<exists>x. m = LightStateResponse x \<and> LightState_Key x = k))"
proof -
  have ok: "state_store_ok (sm_dev s)" using running_sync[OF assms] by (simp add: sync_ok_def)
  then have typed: "stateIdentityOf (Some m) = Some i" if "dv_currentStates (sm_dev s) i = Some m" for i m
    using that unfolding state_store_ok_def by blast
  have "\<exists>x. m = FanStateResponse x \<and> FanState_Key x = k" if "stateIdentityOf (Some m) = Some (''fan'', k)" for m
    using that by (cases m) (simp_all add: stateIdentityOf_def)
  moreover have "\<exists>x. m = LightStateResponse x \<and> LightState_Key x = k" if "stateIdentityOf (Some m) = Some (''light'', k)" for m
    using that by (cases m) (simp_all add: stateIdentityOf_def)
  moreover have "validState (Some m)" if "dv_currentStates (sm_dev s) i = Some m" for i m
    using typed[OF that] by (simp add: validState_iff)
  moreover have "distinct (dv_stateOrder (sm_dev s)) \<and> set (dv_stateOrder (sm_dev s)) = dom (dv_currentStates (sm_dev s))"
    using ok unfolding state_store_ok_def by blast
  ultimately show ?thesis using typed snapshot_identities[OF ok] by blast
qed


text \<open>A session that subscribes and then sees one pushed state.\<close>

fun run_actions ::
  "'f link_ops \<Rightarrow> protobuf \<Rightarrow> (message \<Rightarrow> message \<Rightarrow> bool) \<Rightarrow> 'f action list \<Rightarrow> 'f simulation
    \<Rightarrow> 'f simulation option" where
  "run_actions F pb eq [] s = Some s"
| "run_actions F pb eq (a # as) s = (case step F pb eq a s of None \<Rightarrow> None | Some s \<Rightarrow> run_actions F pb eq as s)"

lemma run_actions_running:
  "running F pb eq s \<Longrightarrow> run_actions F pb eq as s = Some s' \<Longrightarrow> running F pb eq s'"
  by (induction as arbitrary: s) (auto split: option.splits intro: running.step)

definition script_ops :: "(u32 \<times> bytes) list link_ops" where
  "script_ops = \<lparr>fr_ReadFrame = (\<lambda>f. case f of [] \<Rightarrow> (Fail EOF, []) | x # xs \<Rightarrow> (Inr x, xs)),
    fr_WriteFrame = (\<lambda>_ _ f. (None, f)), fr_Close = (\<lambda>f. f), lk_establish = (\<lambda>_ _ f. (True, f)),
    lk_arm = (\<lambda>_ _ _ f. f), lk_closed = (\<lambda>_. False)\<rparr>"

definition script_protobuf :: protobuf where
  "script_protobuf = \<lparr>pb_marshal = (\<lambda>_. Inr []), pb_unmarshal = (\<lambda>_ m. Inr m), pb_size = (\<lambda>_. 0)\<rparr>"

definition switched :: message where
  "switched = SwitchStateResponse (zero_SwitchStateResponse\<lparr>SwitchState_Key := 5, SwitchState_State := True\<rparr>)"

definition script_start :: "(u32 \<times> bytes) list simulation" where
  "script_start = New script_protobuf (bare_scenario ''a'' 0) [] 0 []"

definition subscribe_script :: "(u32 \<times> bytes) list action list" where
  "subscribe_script = DialIn None [(1, []), (20, [])] # [ServeStep 0, ServeStep 0, ServeStep 0, ServeStep 0,
    ServeStep 0, ServeStep 0, ServeStep 0, ServeStep 0, Push (Some switched), PushLocked [] 0, BroadcastStep [], BroadcastStep []]"

lemma script_start_eq:
  "script_start = \<lparr>sm_dev = \<lparr>dv_scenario = bare_scenario ''a'' 0, dv_validationErr = None,
      dv_config = apply_sim_options [], dv_commands = [], dv_commandIndex = 0, dv_commandMatched = 0,
      dv_commandObserved = 0, dv_commandErr = None, dv_done = False, dv_accepted = 0, dv_answeredPings = 0,
      dv_droppedCommands = 0, dv_droppedSessions = 0, dv_connections = [], dv_running = [],
      dv_sessions = (\<lambda>_. \<lparr>ds_framer = [], ds_subscribed = False, ds_logsSubscribed = False, ds_logLevel = 0\<rparr>),
      dv_nextSession = 0, dv_listeners = [], dv_sessionTasks = 0, dv_currentStates = Map.empty,
      dv_stateOrder = [], dv_timelineIndex = 0\<rparr>, sm_now = 0,
    sm_pc = (\<lambda>_. Gone), sm_serial = Free, sm_pushes = [], sm_advance = None, sm_logs = [],
    sm_closing = [], sm_sent = (\<lambda>_. []), sm_failed = (\<lambda>_. False), sm_commanded = []\<rparr>"
proof -
  have "Validate script_protobuf (bare_scenario ''a'' 0) = None"
    unfolding Validate_None_iff scenario_ok_def
    by (simp add: bare_scenario_def identified_def timeline_ok_def fits_budget_def scenario_messages_def
        messages_of_logs_def MaxScenarioMessageBytes_def)
  then show ?thesis
    by (simp add: script_start_def New_def new_device_def Let_def initialStates_def apply_due.simps
        next_due_def bare_scenario_def)
qed

lemma script_decode:
  "Decode script_protobuf api_registry 1 [] = Inr (new_message ''HelloRequest'')"
  "Decode script_protobuf api_registry 20 [] = Inr SubscribeStatesRequest"
proof -
  have "idByName api_registry n = Some i \<Longrightarrow> messageByID api_registry i = Some n" for n i
    by (simp add: api_lookup)
  from this[OF id_HelloRequest] this[OF id_SubscribeStatesRequest] show "Decode script_protobuf api_registry 1 [] = Inr (new_message ''HelloRequest'')"
    "Decode script_protobuf api_registry 20 [] = Inr SubscribeStatesRequest"
    by (simp_all add: Decode_def NewMessage_def script_protobuf_def unless_err_simps new_message_def zero_messages_def)
qed

lemma script_marshal: "pb_marshal script_protobuf m = Inr []"
  by (simp add: script_protobuf_def)

lemma script_ids:
  "MessageID api_registry (Some (hello_response sc)) = Inr 2"
  "MessageID api_registry (Some switched) = Inr 26"
  using id_HelloResponse id_SwitchStateResponse
  by (simp_all add: MessageID_eq_Inr hello_response_def switched_def)

lemmas script_simps = script_marshal step_def serve_step_def run_task_def read_request_def session_send_def session_write_def
  write_frame_def script_decode script_ids trigger_tasks_def armed_def message_tasks_def handler_tasks_def
  DialContext_def startConnection_def leave_def link_of_def set_link_def set_pc_def on_dev_def set_session_def
  script_ops_def PushState_def PushState_refused_def push_locked_def broadcast_step_def state_subscribers_def
  visiting_def stateSnapshotLocked_def bare_scenario_def Let_def MaxDeviceConnections_def

lemma switched_valid:
  "validState (Some switched)" "stateIdentityOf (Some switched) = Some (''switch'', 5)"
  by (simp_all add: switched_def validState_def stateIdentityOf_def)

lemma subscribe_run:
  "\<exists>s. run_actions script_ops script_protobuf (=) subscribe_script script_start = Some s \<and>
    sm_serial s = Free \<and> dv_connections (sm_dev s) = [0] \<and> ds_subscribed (dv_sessions (sm_dev s) 0) \<and>
    \<not> sm_failed s 0 \<and> sm_commanded s = [] \<and> dv_currentStates (sm_dev s) (''switch'', 5) = Some switched"
  by (simp add: subscribe_script_def script_start_eq script_simps isCommandRequest_def
      switched_valid storeStateLocked_def map_filter_simps)


lemma stored_states_are_typed_witness:
  "\<exists>s. run_actions script_ops script_protobuf (=) subscribe_script script_start = Some s \<and>
    stateIdentityOf (Some switched) = Some (''switch'', 5) \<and> distinct (dv_stateOrder (sm_dev s))"
proof -
  obtain s where s: "run_actions script_ops script_protobuf (=) subscribe_script script_start = Some s"
    "dv_currentStates (sm_dev s) (''switch'', 5) = Some switched"
    using subscribe_run by blast
  have "running script_ops script_protobuf (=) script_start"
    unfolding script_start_def by (rule running.start)
  from stored_states_are_typed[OF run_actions_running[OF this s(1)], where k = 0] s show ?thesis
    by blast
qed

end
