(* ===== verification/Device_Progress.thy ===== *)
theory Device_Progress
  imports Device_Sync
begin

text \<open>
  The timeline of the simulator is applied on time, and the simulator never deadlocks: a goroutine that
  cannot go on is one that a stall fault holds back.
\<close>

section \<open>The timeline\<close>

definition due_count :: "int \<Rightarrow> 'f device \<Rightarrow> nat" where
  "due_count now d = length (takeWhile (\<lambda>e. ev_At e \<le> now) (sc_StateTimeline (dv_scenario d)))"

definition timeline_inv :: "'f simulation \<Rightarrow> bool" where
  "timeline_inv s \<longleftrightarrow>
    dv_timelineIndex (sm_dev s) \<le> due_count (sm_now s) (sm_dev s) \<and>
    (advancing s \<or> dv_done (sm_dev s) \<or> dv_timelineIndex (sm_dev s) = due_count (sm_now s) (sm_dev s)) \<and>
    (\<forall>t. sm_advance s = Some t \<longrightarrow> t = sm_now s) \<and>
    (\<forall>bs t. sm_serial s = Broadcasting bs (Some t) \<longrightarrow> t = sm_now s \<and> sm_advance s = None)"

lemma due_count_mono:
  assumes "now \<le> now'"
  shows "due_count now d \<le> due_count now' d"
proof -
  have mono: "length (takeWhile P xs) \<le> length (takeWhile Q xs)" if "\<And>x. P x \<Longrightarrow> Q x"
    for P Q :: "StateEvent \<Rightarrow> bool" and xs
    using that by (induction xs) auto
  show ?thesis unfolding due_count_def by (rule mono) (use assms in auto)
qed

lemma next_due_iff:
  assumes "scenario_safe (dv_scenario d)" "dv_timelineIndex d \<le> due_count now d"
  shows "(next_due now d = None) = (dv_timelineIndex d = due_count now d)"
proof -
  let ?tl = "sc_StateTimeline (dv_scenario d)" and ?i = "dv_timelineIndex d"
  have state: "ev_State (?tl ! ?i) \<noteq> None" if "?i < length ?tl"
  proof -
    from assms(1) that have "validState (ev_State (?tl ! ?i))"
      by (simp add: scenario_safe_def timeline_ok_def list_all_length)
    then show ?thesis by (cases "ev_State (?tl ! ?i)") (simp_all add: validState_def)
  qed
  show ?thesis
  proof (cases "?i < due_count now d")
    case True
    then have "?i < length ?tl" and "ev_At (?tl ! ?i) \<le> now"
      using length_takeWhile_le[of "\<lambda>e. ev_At e \<le> now" ?tl] nth_mem[of ?i "takeWhile (\<lambda>e. ev_At e \<le> now) ?tl"]
      by (auto simp: due_count_def takeWhile_nth dest: set_takeWhileD)
    with True state show ?thesis by (simp add: next_due_def)
  next
    case False
    with assms(2) have i: "?i = due_count now d" by simp
    then have "\<not> (?i < length ?tl \<and> ev_At (?tl ! ?i) \<le> now)"
      using nth_length_takeWhile[of "\<lambda>e. ev_At e \<le> now" ?tl] by (auto simp: due_count_def)
    with i show ?thesis by (auto simp: next_due_def)
  qed
qed

lemma due_count_sorted:
  assumes "scenario_safe (dv_scenario d)"
  shows "due_count now d = length (filter (\<lambda>e. ev_At e \<le> now) (sc_StateTimeline (dv_scenario d)))"
proof -
  have "takeWhile (\<lambda>e. ev_At e \<le> now) xs = filter (\<lambda>e. ev_At e \<le> now) xs" if "sorted (map ev_At xs)" for xs
    using that
  proof (induction xs)
    case (Cons x xs)
    then have "filter (\<lambda>e. ev_At e \<le> now) xs = []" if "\<not> ev_At x \<le> now"
      using that by (fastforce simp: filter_empty_conv)
    with Cons show ?case by simp
  qed simp
  moreover from assms have "sorted (map ev_At (sc_StateTimeline (dv_scenario d)))"
    by (simp add: scenario_safe_def timeline_ok_def)
  ultimately show ?thesis unfolding due_count_def by metis
qed

lemma timeline_same:
  assumes "timeline_inv s" "dv_timelineIndex (sm_dev s') = dv_timelineIndex (sm_dev s)"
    "dv_scenario (sm_dev s') = dv_scenario (sm_dev s)" "dv_done (sm_dev s) \<Longrightarrow> dv_done (sm_dev s')"
    "sm_now s' = sm_now s" "sm_advance s' = sm_advance s"
    "\<And>t. (\<exists>bs. sm_serial s' = Broadcasting bs (Some t)) = (\<exists>bs. sm_serial s = Broadcasting bs (Some t))"
  shows "timeline_inv s'"
proof -
  have "(case x of Broadcasting _ (Some _) \<Rightarrow> True | _ \<Rightarrow> False) = (\<exists>t bs. x = Broadcasting bs (Some t))" for x
    by (auto split: serial.split option.split)
  with assms(6,7) have "advancing s' = advancing s" by (simp add: advancing_def)
  with assms show ?thesis
    unfolding timeline_inv_def due_count_def by auto
qed

definition timeline_quiet :: "'f simulation \<Rightarrow> 'f simulation \<Rightarrow> bool" where
  "timeline_quiet s s' \<longleftrightarrow>
    dv_timelineIndex (sm_dev s') = dv_timelineIndex (sm_dev s) \<and>
    dv_scenario (sm_dev s') = dv_scenario (sm_dev s) \<and> (dv_done (sm_dev s) \<longrightarrow> dv_done (sm_dev s')) \<and>
    sm_now s' = sm_now s \<and> sm_advance s' = sm_advance s \<and>
    (\<forall>t. (\<exists>bs. sm_serial s' = Broadcasting bs (Some t)) = (\<exists>bs. sm_serial s = Broadcasting bs (Some t)))"

lemma timeline_quiet_inv: "timeline_quiet s s' \<Longrightarrow> timeline_inv s \<Longrightarrow> timeline_inv s'"
  by (rule timeline_same) (simp_all add: timeline_quiet_def)

lemma run_task_timeline:
  assumes "run_task F pb eq i t ts s = Some s'" "sync_ok s" "sm_pc s i = Working (t # ts)"
  shows "timeline_quiet s s'"
proof -
  have unlock: "sm_serial s = HeldBy i" if "t = Unlock"
  proof (rule ccontr)
    assume "sm_serial s \<noteq> HeldBy i"
    with sync_work[OF assms(2), of i] assms(3) that show False by simp
  qed
  from assms(1) show ?thesis
    by (cases rule: run_task_cases)
      (auto simp: timeline_quiet_def quiet_simps commit_command_def unlock split: if_splits)
qed

lemma serve_step_timeline:
  assumes "serve_step F pb eq i s = Some s'" "sync_ok s"
  shows "timeline_quiet s s'"
  using assms(1)
proof (cases rule: serve_step_cases)
  case (task t ts)
  show ?thesis by (rule run_task_timeline[OF task(2) assms(2) task(1)])
qed (auto simp: timeline_quiet_def quiet_simps)

lemma broadcast_timeline:
  assumes "broadcast_step F pb order s = Some s'" and ok: "sync_ok s" and inv: "timeline_inv s"
  shows "timeline_inv s'"
  using assms(1)
proof (cases rule: broadcast_step_cases)
  case (sent i m rest t s1)
  with inv show ?thesis by (intro timeline_same[OF inv]) (auto simp: quiet_simps)
next
  case (lost i m rest t s1)
  with inv show ?thesis by (intro timeline_same[OF inv]) (auto simp: quiet_simps)
next
  case (finished t)
  show ?thesis
  proof (cases t)
    case None
    with finished show ?thesis by (intro timeline_same[OF inv]) auto
  next
    case (Some now)
    from ok have safe: "scenario_safe (dv_scenario (sm_dev s))" by (simp add: sync_ok_def)
    from inv finished(1) Some have now: "now = sm_now s" "sm_advance s = None"
      and le: "dv_timelineIndex (sm_dev s) \<le> due_count (sm_now s) (sm_dev s)"
      by (auto simp: timeline_inv_def)
    with finished(3)[OF Some] next_due_iff[OF safe le] have "dv_timelineIndex (sm_dev s) = due_count (sm_now s) (sm_dev s)"
      by simp
    with now finished(2) show ?thesis by (simp add: timeline_inv_def)
  qed
next
  case (due now m)
  from ok have safe: "scenario_safe (dv_scenario (sm_dev s))" by (simp add: sync_ok_def)
  from inv due(1) have now: "now = sm_now s" "sm_advance s = None"
    and le: "dv_timelineIndex (sm_dev s) \<le> due_count (sm_now s) (sm_dev s)"
    by (auto simp: timeline_inv_def)
  with due(2) next_due_iff[OF safe le] have "Suc (dv_timelineIndex (sm_dev s)) \<le> due_count (sm_now s) (sm_dev s)"
    by auto
  with now due(3) show ?thesis
    by (simp add: timeline_inv_def advancing_def due_count_def)
qed

lemma advance_timeline:
  assumes inv: "timeline_inv s"
  shows "begin_advance now s = Some s1 \<Longrightarrow> timeline_inv s1" "advance_locked s = Some s2 \<Longrightarrow> timeline_inv s2"
proof -
  assume b: "begin_advance now s = Some s1"
  then have le: "sm_now s \<le> now" and idle: "\<not> advancing s"
    and s1: "s1 = s\<lparr>sm_now := now, sm_advance := (if dv_done (sm_dev s) then None else Some now)\<rparr>"
    by (simp_all add: begin_advance_def split: if_splits)
  from inv have "dv_timelineIndex (sm_dev s) \<le> due_count (sm_now s) (sm_dev s)" by (simp add: timeline_inv_def)
  also have "\<dots> \<le> due_count now (sm_dev s)" by (rule due_count_mono[OF le])
  finally show "timeline_inv s1"
    using idle by (auto simp: s1 timeline_inv_def advancing_def)
next
  assume "advance_locked s = Some s2"
  with inv show "timeline_inv s2"
    by (auto simp: advance_locked_def timeline_inv_def advancing_def split: option.splits if_splits)
qed

lemma startConnection_timeline: "startConnection link s = (e, s') \<Longrightarrow> timeline_quiet s s'"
  by (auto simp: startConnection_def timeline_quiet_def Let_def split: if_splits)

lemma other_steps_timeline:
  "timeline_quiet s (snd (PushState state s))" "timeline_quiet s (snd (PushLog order entry s))"
  "timeline_quiet s (CloseDevice s)" "close_next F k s = Some s2 \<Longrightarrow> timeline_quiet s s2"
  "timeline_quiet s (snd (DropConnections s))" "timeline_quiet s (snd (begin_listening loopback l s))"
  "timeline_quiet s (end_listening l s)" "push_locked order' k' s = Some s3 \<Longrightarrow> timeline_quiet s s3"
  "log_step F' pb k'' s = Some s4 \<Longrightarrow> timeline_quiet s s4"
proof -
  show "log_step F' pb k'' s = Some s4 \<Longrightarrow> timeline_quiet s s4"
    by (erule log_step_cases) (auto simp: timeline_quiet_def quiet_simps)
qed (auto simp: timeline_quiet_def PushState_def PushLog_def CloseDevice_def close_next_def DropConnections_def
    begin_listening_def end_listening_def push_locked_def Let_def split: option.splits if_splits)

lemma accept_timeline:
  "timeline_quiet s (snd (DialContext ctx link s))" "timeline_quiet s (serve_listener accepted l s)"
proof -
  have c: "timeline_quiet s (snd (startConnection link s))" for link
    by (rule startConnection_timeline[OF prod.collapse[symmetric]])
  then show "timeline_quiet s (snd (DialContext ctx link s))"
    by (auto simp: DialContext_def timeline_quiet_def split: option.split)
  show "timeline_quiet s (serve_listener accepted l s)"
  proof (cases accepted)
    case (Inl err)
    then show ?thesis by (simp add: serve_listener_def accept_round_def timeline_quiet_def end_listening_def)
  next
    case (Inr link)
    obtain e s1 where s1: "startConnection link s = (e, s1)" by fastforce
    with c[of link] have "timeline_quiet s s1" by simp
    with Inr s1 show ?thesis
      by (simp add: serve_listener_def accept_round_def timeline_quiet_def end_listening_def split: option.split)
  qed
qed

lemma step_timeline:
  assumes "step F pb eq a s = Some s'" "sync_ok s" "timeline_inv s"
  shows "timeline_inv s'"
  using assms
  by (cases a) (auto simp: step_def split: if_splits intro: broadcast_timeline advance_timeline
      timeline_quiet_inv[OF serve_step_timeline] timeline_quiet_inv[OF accept_timeline(1)]
      timeline_quiet_inv[OF accept_timeline(2)] other_steps_timeline[THEN timeline_quiet_inv])

lemma apply_due_done:
  "scenario_safe (dv_scenario d) \<Longrightarrow> dv_timelineIndex d \<le> due_count now d \<Longrightarrow>
    dv_timelineIndex (apply_due now d) = due_count now d"
proof (induction now d rule: apply_due.induct)
  case (1 now d)
  show ?case
  proof (cases "next_due now d")
    case None
    with next_due_iff[OF 1(2,3)] show ?thesis by (simp add: apply_due.simps[of now d])
  next
    case (Some m)
    with next_due_iff[OF 1(2,3)] 1(3) have "Suc (dv_timelineIndex d) \<le> due_count now d" by simp
    with 1(1)[OF Some] 1(2) Some show ?thesis
      by (simp add: apply_due.simps[of now d] due_count_def)
  qed
qed

lemma New_timeline: "timeline_inv (New pb scenario options now nil)"
proof -
  let ?d = "new_device pb scenario options (\<lambda>_. \<lparr>ds_framer = nil, ds_subscribed = False,
       ds_logsSubscribed = False, ds_logLevel = 0\<rparr>)"
  have "dv_timelineIndex (apply_due now ?d) = due_count now ?d"
    by (rule apply_due_done[OF new_device_scenario]) simp
  moreover have "due_count now ?d = 0" if "dv_validationErr ?d \<noteq> None"
  proof -
    let ?sc = "if sc_Name scenario = '''' then scenario\<lparr>sc_Name := ''simulated-esphome''\<rparr> else scenario"
    have "dv_validationErr ?d = Validate pb ?sc" by (simp add: new_device_def Let_def)
    with that have "Validate pb ?sc \<noteq> None" by simp
    then have "sc_StateTimeline (dv_scenario ?d) = []"
      by (cases "sc_Name scenario = ''''") (auto simp: new_device_def Let_def bare_scenario_def)
    then show ?thesis by (simp add: due_count_def)
  qed
  ultimately show ?thesis
    by (auto simp: New_def Let_def timeline_inv_def due_count_def)
qed

lemma running_timeline: "running F pb eq s \<Longrightarrow> timeline_inv s"
  by (induction rule: running.induct) (auto intro: New_timeline step_timeline running_sync)



section \<open>Deadlock freedom\<close>

lemma task_enabled:
  assumes "t = Unlock \<or> (\<exists>m. t = Send m) \<or> sm_serial s = Free"
    and "t \<noteq> Stall \<or> dv_done (sm_dev s) \<or> lk_closed F (link_of i s)"
  shows "run_task F pb eq i t ts s \<noteq> None"
  using assms
  by (cases t) (auto simp: run_task_def commit_command_def split: prod.split option.split)

lemma serve_enabled:
  assumes "sm_serial s = Free" "sm_pc s i \<noteq> Gone"
    and "\<And>ts. sm_pc s i = Working (Stall # ts) \<Longrightarrow> dv_done (sm_dev s) \<or> lk_closed F (link_of i s)"
  shows "serve_step F pb eq i s \<noteq> None"
proof (cases "sm_pc s i")
  case (Working ts)
  show ?thesis
  proof (cases ts)
    case (Cons t us)
    with assms Working have "run_task F pb eq i t us s \<noteq> None" by (intro task_enabled) auto
    with Working Cons show ?thesis by (simp add: serve_step_def Let_def)
  qed (simp add: serve_step_def Let_def Working)
qed (use assms in \<open>simp_all add: serve_step_def Let_def split: prod.split option.split\<close>)

lemma progress:
  assumes ok: "sync_ok s" and stuck: "\<And>i. serve_step F pb eq i s = None" "broadcast_step F pb [] s = None"
  shows "sm_pc s i = Gone \<or> (\<exists>ts. sm_pc s i = Working (Stall # ts)) \<and>
    \<not> dv_done (sm_dev s) \<and> \<not> lk_closed F (link_of i s)"
proof (cases "sm_serial s")
  case Free
  show ?thesis using serve_enabled[OF Free] stuck(1) by blast
next
  case (HeldBy j)
  with sync_work[OF ok, of j] have work: "work_ok True (sm_pc s j)" by simp
  then obtain ts where pc: "sm_pc s j = Working ts" by (cases "sm_pc s j") simp_all
  from work obtain ms rest where ts: "ts = map Send ms @ Unlock # rest" by (auto simp: pc work_ok_def)
  then obtain t us where tu: "ts = t # us" "t = Unlock \<or> (\<exists>m. t = Send m)" by (cases ms) auto
  then have "run_task F pb eq j t us s \<noteq> None" by (intro task_enabled) auto
  with pc tu(1) have "serve_step F pb eq j s \<noteq> None" by (simp add: serve_step_def Let_def)
  with stuck(1)[of j] show ?thesis by simp
next
  case (Broadcasting bs t)
  then have "broadcast_step F pb [] s \<noteq> None"
    by (cases bs; cases t) (auto simp: broadcast_step_def split: option.split)
  with stuck(2) show ?thesis by blast
qed



end
