(* ===== verification/Device_Close.thy ===== *)
theory Device_Close
  imports Device_Progress
begin

text \<open>
  Termination of the serving goroutines: once the connection of a session is closed, by \<open>Close\<close>, by
  \<open>DropConnections\<close> or by the peer, its goroutine takes only finitely many more steps, whatever all the others do.
  With the absence of deadlocks (\<open>Device_Progress\<close>) this is what lets \<open>Close\<close> return.
\<close>

section \<open>Finitely many descents\<close>

lemma finite_descents:
  assumes "wf r" and "\<And>n. P n \<Longrightarrow> (v (Suc n), v n) \<in> r" and "\<And>n. \<not> P n \<Longrightarrow> v (Suc n) = v n"
  shows "finite {n :: nat. P n}"
proof -
  have "finite {n. k \<le> n \<and> P n}" if "v k = x" for x k
    using assms(1) that
  proof (induction x arbitrary: k rule: wf_induct_rule)
    case (less x)
    show ?case
    proof (cases "\<exists>n \<ge> k. P n")
      case True
      define n where "n = (LEAST n. k \<le> n \<and> P n)"
      have n: "k \<le> n" "P n" using LeastI_ex[of "\<lambda>n. k \<le> n \<and> P n"] True by (auto simp: n_def)
      have quiet: "\<not> P j" if "k \<le> j" "j < n" for j
        using not_less_Least[of j "\<lambda>n. k \<le> n \<and> P n"] that by (auto simp: n_def)
      have "v (k + d) = v k" if "k + d \<le> n" for d
        using that by (induction d) (use assms(3) quiet in \<open>simp_all add: Suc_le_eq\<close>)
      from this[of "n - k"] n(1) have "v n = x" using less(2) by simp
      with assms(2)[OF n(2)] have "finite {m. Suc n \<le> m \<and> P m}" using less(1) by blast
      moreover have "{m. k \<le> m \<and> P m} \<subseteq> insert n {m. Suc n \<le> m \<and> P m}"
        using quiet by (auto simp: Suc_le_eq intro: linorder_neqE_nat)
      ultimately show ?thesis using finite_subset by blast
    next
      case False
      then have "{n. k \<le> n \<and> P n} = {}" by blast
      then show ?thesis by (simp only: finite.emptyI)
    qed
  qed
  from this[of 0] show ?thesis by simp
qed

section \<open>What a goroutine still has to do\<close>

fun locks :: "task \<Rightarrow> bool" where
  "locks Subscribe = True"
| "locks t = command_task t"

text \<open>The tasks that wait for the lock and expand when they get it count first, then the steps to the end.\<close>

fun to_do :: "serve_pc \<Rightarrow> nat \<times> nat" where
  "to_do Accepted = (0, 6)"
| "to_do Greeting = (0, 4)"
| "to_do Serving = (0, 4)"
| "to_do (Working ts) = (length (filter locks ts), length ts + 5)"
| "to_do Leaving = (0, 2)"
| "to_do ClosedConn = (0, 1)"
| "to_do Gone = (0, 0)"

abbreviation shorter :: "((nat \<times> nat) \<times> (nat \<times> nat)) set" where
  "shorter \<equiv> less_than <*lex*> less_than"

lemma locks_sends [simp]: "filter locks (map Send ms @ Unlock # ts) = filter locks ts"
  by (induction ms) simp_all

lemma run_task_shorter:
  assumes "run_task F pb eq i t ts s = Some s'"
  shows "(to_do (sm_pc s' i), to_do (Working (t # ts))) \<in> shorter"
  using assms
proof (cases rule: run_task_cases)
  case (commit m)
  from commit(2) have "sm_pc s' i = Working (Send m # Unlock # ts)"
    by (auto simp: commit_command_def sends_state_def split: if_splits)
  moreover have "locks t" using commit(1) by (cases t) simp_all
  ultimately show ?thesis by simp
next
  case subscribe
  then show ?thesis using locks_sends[of "stateSnapshotLocked (sm_dev s)" ts] by simp
qed auto

lemma serve_step_shorter:
  assumes "serve_step F pb eq i s = Some s'" and "\<exists>e link. fr_ReadFrame F (link_of i s) = (Inl e, link)"
  shows "(to_do (sm_pc s' i), to_do (sm_pc s i)) \<in> shorter"
proof (cases "sm_pc s i")
  case Accepted
  with assms(1) show ?thesis
    by (auto simp: serve_step_def Let_def split: prod.splits if_splits)
next
  case Greeting
  with assms show ?thesis by (auto simp: serve_step_def Let_def read_request_def)
next
  case Serving
  with assms show ?thesis by (auto simp: serve_step_def Let_def read_request_def)
next
  case (Working ts)
  with assms(1) show ?thesis
    by (cases ts) (auto simp: serve_step_def Let_def dest: run_task_shorter)
next
  case Leaving
  with assms(1) show ?thesis by (auto simp: serve_step_def Let_def)
next
  case ClosedConn
  with assms(1) show ?thesis by (auto simp: serve_step_def Let_def)
next
  case Gone
  with assms(1) show ?thesis by (simp add: serve_step_def Let_def)
qed

section \<open>The steps of the others\<close>

lemma serve_step_others: "serve_step F pb eq k s = Some s' \<Longrightarrow> i \<noteq> k \<Longrightarrow> sm_pc s' i = sm_pc s i"
proof (erule serve_step_cases)
  fix t ts assume "i \<noteq> k" "run_task F pb eq k t ts s = Some s'"
  from this(2,1) show ?thesis
    by (cases rule: run_task_cases) (auto simp: quiet_simps commit_command_def split: if_splits)
qed (simp_all add: quiet_simps)

lemma startConnection_others:
  "i \<noteq> dv_nextSession (sm_dev s) \<Longrightarrow> sm_pc (snd (startConnection link s)) i = sm_pc s i"
  by (simp add: startConnection_def Let_def)

lemma step_others:
  assumes "step F pb eq a s = Some s'" "a \<noteq> ServeStep i" "i < dv_nextSession (sm_dev s)"
  shows "sm_pc s' i = sm_pc s i"
proof (cases a)
  case (ServeStep k)
  with assms have "serve_step F pb eq k s = Some s'" "i \<noteq> k" by (auto simp: step_def)
  then show ?thesis by (rule serve_step_others)
next
  case (DialIn ctx link)
  with assms startConnection_others[of i s link] show ?thesis
    by (auto simp: step_def DialContext_def split: option.splits)
next
  case (Accept accepted l)
  have "sm_pc (snd (accept_round accepted s)) i = sm_pc s i"
  proof (cases accepted)
    case (Inr link)
    obtain e s1 where c: "startConnection link s = (e, s1)" by fastforce
    with startConnection_others[of i s link] assms(3) have "sm_pc s1 i = sm_pc s i" by simp
    with c Inr show ?thesis by (simp add: accept_round_def split: option.split)
  qed (simp add: accept_round_def)
  with Accept assms show ?thesis
    by (auto simp: step_def serve_listener_def end_listening_def split: if_splits prod.splits option.splits)
next
  case (BroadcastStep order)
  with assms show ?thesis
    by (auto simp: step_def quiet_simps elim: broadcast_step_cases)
next
  case (LogStep k)
  with assms show ?thesis by (auto simp: step_def quiet_simps elim: log_step_cases)
qed (use assms in \<open>auto simp: step_def begin_listening_def end_listening_def PushState_def push_locked_def PushLog_def
      begin_advance_def advance_locked_def DropConnections_def CloseDevice_def close_next_def Let_def
      split: option.splits if_splits\<close>)

lemma startConnection_next: "dv_nextSession (sm_dev s) \<le> dv_nextSession (sm_dev (snd (startConnection link s)))"
  by (simp add: startConnection_def Let_def)

lemma step_next:
  assumes "step F pb eq a s = Some s'"
  shows "dv_nextSession (sm_dev s) \<le> dv_nextSession (sm_dev s')"
proof (cases a)
  case (ServeStep k)
  with assms have "serve_step F pb eq k s = Some s'" by (simp add: step_def)
  then show ?thesis
  proof (cases rule: serve_step_cases)
    case (task t ts)
    from task(2) show ?thesis
      by (cases rule: run_task_cases) (auto simp: quiet_simps commit_command_def split: if_splits)
  qed (simp_all add: quiet_simps)
next
  case (DialIn ctx link)
  with assms startConnection_next[of s link] show ?thesis
    by (auto simp: step_def DialContext_def split: option.splits)
next
  case (Accept accepted l)
  have "dv_nextSession (sm_dev s) \<le> dv_nextSession (sm_dev (snd (accept_round accepted s)))"
  proof (cases accepted)
    case (Inr link)
    obtain e s1 where c: "startConnection link s = (e, s1)" by fastforce
    with startConnection_next[of s link] have "dv_nextSession (sm_dev s) \<le> dv_nextSession (sm_dev s1)" by simp
    with c Inr show ?thesis by (simp add: accept_round_def split: option.split)
  qed (simp add: accept_round_def)
  with Accept assms show ?thesis
    by (auto simp: step_def serve_listener_def end_listening_def split: if_splits prod.splits option.splits)
next
  case (BroadcastStep order)
  with assms show ?thesis
    by (auto simp: step_def quiet_simps elim: broadcast_step_cases)
next
  case (LogStep k)
  with assms show ?thesis by (auto simp: step_def quiet_simps elim: log_step_cases)
qed (use assms in \<open>auto simp: step_def begin_listening_def end_listening_def PushState_def push_locked_def PushLog_def
      begin_advance_def advance_locked_def DropConnections_def CloseDevice_def close_next_def Let_def
      split: option.splits if_splits\<close>)

text \<open>C13. Serving ends: in any infinite run of the simulator, in which sessions, pushes, the clock and new connections
  interleave in any way, the goroutine of a session whose connection is closed, so that reading from it fails,
  takes only finitely many steps.\<close>

theorem closed_sessions_end:
  assumes "running F pb eq (\<sigma> 0)" and "\<And>n. step F pb eq (act n) (\<sigma> n) = Some (\<sigma> (Suc n))"
    and "sm_pc (\<sigma> 0) i \<noteq> Gone" and "\<And>n. lk_closed F (link_of i (\<sigma> n))"
    and "\<And>link. lk_closed F link \<Longrightarrow> \<exists>e link'. fr_ReadFrame F link = (Inl e, link')"
  shows "finite {n. act n = ServeStep i}"
proof -
  have r: "running F pb eq (\<sigma> n)" for n
    by (induction n) (use assms(1,2) running.step in blast)+
  have known: "i < dv_nextSession (sm_dev (\<sigma> n))" for n
  proof (induction n)
    case 0
    from running_owned[OF assms(1)] assms(3) show ?case by (auto simp: owned_ok_def Let_def)
  next
    case (Suc n)
    with step_next[OF assms(2)[of n]] show ?case by simp
  qed
  show ?thesis
  proof (rule finite_descents[of shorter _ "\<lambda>n. to_do (sm_pc (\<sigma> n) i)"])
    show "wf shorter" by (intro wf_lex_prod wf_less_than)
    show "(to_do (sm_pc (\<sigma> (Suc n)) i), to_do (sm_pc (\<sigma> n) i)) \<in> shorter" if "act n = ServeStep i" for n
    proof (rule serve_step_shorter)
      show "serve_step F pb eq i (\<sigma> n) = Some (\<sigma> (Suc n))" using assms(2)[of n] that by (simp add: step_def)
      show "\<exists>e link. fr_ReadFrame F (link_of i (\<sigma> n)) = (Inl e, link)" using assms(5)[OF assms(4)] .
    qed
    show "to_do (sm_pc (\<sigma> (Suc n)) i) = to_do (sm_pc (\<sigma> n) i)" if "act n \<noteq> ServeStep i" for n
      using step_others[OF assms(2) that known] by simp
  qed
qed

text \<open>A device with one dead connection: its goroutine starts, and the device is closed again and again.\<close>

definition dead_ops :: "(u32 \<times> bytes) list link_ops" where
  "dead_ops = script_ops\<lparr>fr_ReadFrame := (\<lambda>f. (Fail EOF, f)), lk_closed := (\<lambda>_. True)\<rparr>"

definition dying_action :: "nat \<Rightarrow> (u32 \<times> bytes) list action" where
  "dying_action n = (if n = 0 then ServeStep 0 else CloseAll)"

primrec dying :: "nat \<Rightarrow> (u32 \<times> bytes) list simulation" where
  "dying 0 = snd (DialContext None [] script_start)"
| "dying (Suc n) = the (step dead_ops script_protobuf (=) (dying_action n) (dying n))"

lemma dying_start: "sm_pc (dying 0) 0 = Accepted"
  by (simp add: script_start_eq DialContext_def startConnection_def set_pc_def Let_def MaxDeviceConnections_def)

lemma closed_sessions_end_witness:
  "sm_pc (dying 0) 0 = Accepted \<and> finite {n. dying_action n = ServeStep 0}"
proof -
  have "running dead_ops script_protobuf (=) script_start"
    unfolding script_start_def by (rule running.start)
  then have run: "running dead_ops script_protobuf (=) (dying 0)"
    by (rule running.step[where a = "DialIn None []"]) (simp add: step_def)
  have steps: "step dead_ops script_protobuf (=) (dying_action n) (dying n) = Some (dying (Suc n))" for n
  proof (cases n)
    case 0
    with dying_start show ?thesis
      by (simp add: dying_action_def step_def serve_step_def Let_def dead_ops_def script_ops_def)
  next
    case (Suc m)
    then show ?thesis by (simp add: dying_action_def step_def)
  qed
  have "sm_pc (dying 0) 0 \<noteq> Gone" by (simp only: dying_start) simp
  from closed_sessions_end[OF run steps this] dying_start show ?thesis
    by (simp add: dead_ops_def)
qed

end
