(* ===== verification/Clock.thy ===== *)
theory Clock
  imports Scenario
begin

text \<open>
  \<open>simulator.ManualClock\<close> (\<open>clock.go\<close>): virtual time that only moves when asked to, the devices it tells, and
  the waiters it wakes. A duration is the integer of its nanoseconds, within the 64-bit range; a waiter is
  known by a number. A nil clock is \<open>None\<close>.
\<close>

definition max_duration :: int where "max_duration = 2 ^ 63 - 1"

definition wrap64 :: "int \<Rightarrow> int" where
  "wrap64 x = (x + 2 ^ 63) mod 2 ^ 64 - 2 ^ 63"

record clock =
  ck_now :: int
  ck_devices :: "nat list"
  ck_waiters :: "(nat \<times> int) list"
  ck_nextWaiter :: nat
  ck_ready :: "nat list"

definition NewManualClock :: clock where
  "NewManualClock = \<lparr>ck_now = 0, ck_devices = [], ck_waiters = [], ck_nextWaiter = 0, ck_ready = []\<rparr>"

definition Now :: "clock option \<Rightarrow> int" where
  "Now c = (case c of None \<Rightarrow> 0 | Some c \<Rightarrow> ck_now c)"

text \<open>\<open>advance\<close>: on success the devices to advance, in order, and the time to advance them to.\<close>

definition clock_advance ::
  "(int \<Rightarrow> int result) \<Rightarrow> clock option \<Rightarrow> (nat list \<times> int) result \<times> clock option" where
  "clock_advance target c =
    (case c of
      None \<Rightarrow> (Inl (Errorf ''nil simulator clock'' []), None)
    | Some c \<Rightarrow>
        (case target (ck_now c) of
          Inl err \<Rightarrow> (Inl err, Some c)
        | Inr next_time \<Rightarrow>
            (Inr (ck_devices c, next_time),
             Some (c\<lparr>ck_now := next_time,
               ck_waiters := filter (\<lambda>(w, t). \<not> t \<le> next_time) (ck_waiters c),
               ck_ready := ck_ready c @ map fst (filter (\<lambda>(w, t). t \<le> next_time) (ck_waiters c))\<rparr>))))"

definition Advance :: "int \<Rightarrow> clock option \<Rightarrow> (nat list \<times> int) result \<times> clock option" where
  "Advance delta c =
    (if delta < 0 then (Fail ErrClockBackwards, c)
     else clock_advance (\<lambda>now. if delta > max_duration - now then Fail ErrClockOverflow else Inr (now + delta)) c)"

definition AdvanceTo :: "int \<Rightarrow> clock option \<Rightarrow> (nat list \<times> int) result \<times> clock option" where
  "AdvanceTo target = clock_advance (\<lambda>now. if target < now then Fail ErrClockBackwards else Inr target)"

text \<open>\<open>waitUntil\<close> up to its select: \<open>None\<close> when the time has come, otherwise the new waiter.\<close>

definition wait_begin :: "int \<Rightarrow> clock \<Rightarrow> nat option \<times> clock" where
  "wait_begin target c =
    (if ck_now c \<ge> target then (None, c)
     else (Some (ck_nextWaiter c),
       c\<lparr>ck_waiters := ck_waiters c @ [(ck_nextWaiter c, target)], ck_nextWaiter := Suc (ck_nextWaiter c)\<rparr>))"

text \<open>Its select: woken, stopped (the waiter is deleted), or still waiting; when both are ready, \<open>pick_stop\<close> chooses.\<close>

definition wait_end :: "nat \<Rightarrow> bool \<Rightarrow> bool \<Rightarrow> clock \<Rightarrow> (goerror option \<times> clock) option" where
  "wait_end w stopped pick_stop c =
    (if w \<in> set (ck_ready c) \<and> \<not> (stopped \<and> pick_stop) then Some (None, c)
     else if stopped
     then Some (Some (Err NetClosed), c\<lparr>ck_waiters := filter (\<lambda>(v, t). v \<noteq> w) (ck_waiters c)\<rparr>)
     else None)"

definition register_device :: "nat \<Rightarrow> clock \<Rightarrow> clock" where
  "register_device d c = c\<lparr>ck_devices := ck_devices c @ [d]\<rparr>"

definition unregister_device :: "nat \<Rightarrow> clock \<Rightarrow> clock" where
  "unregister_device d c = c\<lparr>ck_devices := remove1 d (ck_devices c)\<rparr>"

section \<open>Runs\<close>

datatype clock_op =
    AdvanceBy int | AdvanceUntil int | WaitBegin int | WaitEnd nat bool bool | Register nat | Unregister nat

definition duration :: "int \<Rightarrow> bool" where
  "duration t \<longleftrightarrow> - (2 ^ 63) \<le> t \<and> t \<le> max_duration"

definition clock_step :: "clock_op \<Rightarrow> clock \<Rightarrow> clock" where
  "clock_step a c =
    (case a of
       AdvanceBy delta \<Rightarrow> the (snd (Advance delta (Some c)))
     | AdvanceUntil target \<Rightarrow> the (snd (AdvanceTo target (Some c)))
     | WaitBegin target \<Rightarrow> snd (wait_begin target c)
     | WaitEnd w stopped pick_stop \<Rightarrow> (case wait_end w stopped pick_stop c of None \<Rightarrow> c | Some (e, c) \<Rightarrow> c)
     | Register d \<Rightarrow> register_device d c
     | Unregister d \<Rightarrow> unregister_device d c)"

definition argument_ok :: "clock_op \<Rightarrow> bool" where
  "argument_ok a \<longleftrightarrow> (case a of AdvanceBy t \<Rightarrow> duration t | AdvanceUntil t \<Rightarrow> duration t | _ \<Rightarrow> True)"

definition clock_ok :: "clock \<Rightarrow> bool" where
  "clock_ok c \<longleftrightarrow>
    0 \<le> ck_now c \<and> ck_now c \<le> max_duration \<and> list_all (\<lambda>(w, t). ck_now c < t) (ck_waiters c)"

lemma clock_advance_ok:
  assumes "clock_ok c" and "\<And>t. target (ck_now c) = Inr t \<Longrightarrow> ck_now c \<le> t \<and> t \<le> max_duration"
  shows "clock_ok (the (snd (clock_advance target (Some c)))) \<and>
    ck_now c \<le> ck_now (the (snd (clock_advance target (Some c))))"
proof (cases "target (ck_now c)")
  case (Inl err)
  with assms show ?thesis by (simp add: clock_advance_def)
next
  case (Inr t)
  with assms show ?thesis
    by (auto simp: clock_advance_def clock_ok_def list_all_iff)
qed

lemma clock_step_ok:
  assumes "clock_ok c" "argument_ok a"
  shows "clock_ok (clock_step a c) \<and> ck_now c \<le> ck_now (clock_step a c)"
proof (cases a)
  case (AdvanceBy delta)
  show ?thesis
  proof (cases "delta < 0")
    case False
    have "clock_step a c = the (snd (clock_advance (\<lambda>now. if delta > max_duration - now
        then Fail ErrClockOverflow else Inr (now + delta)) (Some c)))"
      using False by (simp add: clock_step_def Advance_def AdvanceBy)
    moreover have "ck_now c \<le> t \<and> t \<le> max_duration"
      if "(if delta > max_duration - ck_now c then Fail ErrClockOverflow else Inr (ck_now c + delta)) = Inr t" for t
      using that False by (auto split: if_splits)
    ultimately show ?thesis using clock_advance_ok[OF assms(1)] by simp
  qed (use assms AdvanceBy in \<open>simp add: clock_step_def Advance_def\<close>)
next
  case (AdvanceUntil target)
  have "clock_step a c = the (snd (clock_advance (\<lambda>now. if target < now
      then Fail ErrClockBackwards else Inr target) (Some c)))"
    by (simp add: clock_step_def AdvanceTo_def AdvanceUntil)
  moreover have "ck_now c \<le> t \<and> t \<le> max_duration"
    if "(if target < ck_now c then Fail ErrClockBackwards else Inr target) = Inr t" for t
    using that assms(2) by (auto simp: AdvanceUntil argument_ok_def duration_def split: if_splits)
  ultimately show ?thesis using clock_advance_ok[OF assms(1)] by simp
qed (use assms in \<open>auto simp: clock_step_def wait_begin_def wait_end_def register_device_def
    unregister_device_def clock_ok_def list_all_iff split: option.splits if_splits\<close>)

lemma clock_runs_ok:
  "clock_ok c \<Longrightarrow> list_all argument_ok as \<Longrightarrow> clock_ok (fold clock_step as c) \<and> ck_now c \<le> ck_now (fold clock_step as c)"
proof (induction as arbitrary: c)
  case (Cons a as)
  then show ?case using clock_step_ok[of c a] Cons.IH[of "clock_step a c"] by (auto intro: order_trans)
qed simp

text \<open>Virtual time never goes back and never leaves the 64-bit range, whatever sequence of calls is made
  between two moments and however large their arguments, and nobody is left waiting for a time that has
  come.\<close>

theorem clock_is_monotone:
  assumes "list_all argument_ok (as @ bs)"
  shows "(let c = fold clock_step as NewManualClock; c' = fold clock_step bs c in
    0 \<le> ck_now c \<and> ck_now c \<le> ck_now c' \<and> ck_now c' \<le> max_duration \<and>
    list_all (\<lambda>(w, t). ck_now c' < t) (ck_waiters c'))"
proof -
  have start: "clock_ok NewManualClock"
    by (simp add: clock_ok_def NewManualClock_def max_duration_def)
  from assms have "list_all argument_ok as" "list_all argument_ok bs" by simp_all
  with clock_runs_ok[OF start, of as] clock_runs_ok[of "fold clock_step as NewManualClock" bs] show ?thesis
    by (auto simp: Let_def clock_ok_def list_all_iff)
qed

lemma clock_is_monotone_witness:
  "(let c = fold clock_step [WaitBegin 7, AdvanceBy 5] NewManualClock;
        c' = fold clock_step [AdvanceUntil 3, AdvanceBy (2 ^ 63 - 1)] c in
    ck_now c' = 5 \<and> list_all (\<lambda>(w, t). ck_now c' < t) (ck_waiters c') \<and> ck_waiters c' = [(0, 7)])"
proof -
  have "list_all argument_ok ([WaitBegin 7, AdvanceBy 5] @ [AdvanceUntil 3, AdvanceBy (2 ^ 63 - 1)])"
    by (simp add: argument_ok_def duration_def max_duration_def)
  from clock_is_monotone[OF this] show ?thesis
    by (simp add: Let_def clock_step_def wait_begin_def Advance_def AdvanceTo_def clock_advance_def
        NewManualClock_def max_duration_def)
qed

end
