(* ===== verification/Network.thy ===== *)
theory Network
  imports Clock
begin

text \<open>
  \<open>simulator.networkConn\<close> (\<open>network.go\<close>): a connection that captures the writes of one frame and hands
  complete frames to a writer goroutine, which may fragment, coalesce or hold them back until a virtual
  time. The sender, the writer, the clock and whoever closes the connection interleave as steps of
  \<open>net_step\<close>. \<open>nc_accepted\<close> is history: the bytes of everything that was accepted for sending, in order.
\<close>

section \<open>State\<close>

record network_frame =
  fm_segments :: "bytes list"
  fm_fragment :: bool
  fm_coalesce :: bool
  fm_delayTarget :: int
  fm_asynchronous :: bool

text \<open>The writer goroutine: at its select, holding a frame back, writing what is left of one, or returned.\<close>

datatype net_writer = WIdle | WHeld network_frame | WWriting "bytes list" network_frame | WFinished

text \<open>The sender: outside a frame, in one, waiting for it to be written, or returned from \<open>endFrame\<close> with an
  error, with the frame queued, or with the frame written.\<close>

datatype net_sender = Outside | Capturing | Awaiting | Refused goerror | Queued | Delivered

record net_stats =
  ns_fragmentedFrames :: u64
  ns_fragmentedSegments :: u64
  ns_coalescedFrames :: u64
  ns_coalescedSegments :: u64
  ns_delayedFrames :: u64
  ns_pendingDelayedFrames :: u64

record networkConn =
  nc_now :: int
  nc_stopped :: bool
  nc_fragmentNext :: bool
  nc_coalesceNext :: bool
  nc_delayNextTarget :: int
  nc_frameActive :: bool
  nc_fragmentActive :: bool
  nc_coalesceActive :: bool
  nc_delayActive :: int
  nc_segments :: "bytes list"
  nc_asyncFrames :: nat
  nc_frames :: "network_frame list"
  nc_conn :: writer
  nc_writer :: net_writer
  nc_sender :: net_sender
  nc_stats :: net_stats
  nc_accepted :: bytes

definition networkFrameQueueSize :: nat where "networkFrameQueueSize = 64"

definition newNetworkConn :: "int \<Rightarrow> writer \<Rightarrow> net_stats \<Rightarrow> networkConn" where
  "newNetworkConn now w stats =
    \<lparr>nc_now = now, nc_stopped = False, nc_fragmentNext = False, nc_coalesceNext = False,
     nc_delayNextTarget = 0, nc_frameActive = False, nc_fragmentActive = False, nc_coalesceActive = False,
     nc_delayActive = 0, nc_segments = [], nc_asyncFrames = 0, nc_frames = [], nc_conn = w,
     nc_writer = WIdle, nc_sender = Outside, nc_stats = stats, nc_accepted = sent w\<rparr>"

definition on_stats :: "(net_stats \<Rightarrow> net_stats) \<Rightarrow> networkConn \<Rightarrow> networkConn" where
  "on_stats f c = c\<lparr>nc_stats := f (nc_stats c)\<rparr>"

definition recordFragmentedFrame :: "net_stats \<Rightarrow> net_stats" where
  "recordFragmentedFrame n = n\<lparr>ns_fragmentedFrames := ns_fragmentedFrames n + 1\<rparr>"

definition recordFragmentedSegment :: "net_stats \<Rightarrow> net_stats" where
  "recordFragmentedSegment n = n\<lparr>ns_fragmentedSegments := ns_fragmentedSegments n + 1\<rparr>"

definition recordCoalescedFrame :: "net_stats \<Rightarrow> net_stats" where
  "recordCoalescedFrame n = n\<lparr>ns_coalescedFrames := ns_coalescedFrames n + 1\<rparr>"

definition recordCoalescedSegments :: "u64 \<Rightarrow> net_stats \<Rightarrow> net_stats" where
  "recordCoalescedSegments segments n = n\<lparr>ns_coalescedSegments := ns_coalescedSegments n + segments\<rparr>"

definition recordDelayedFrame :: "net_stats \<Rightarrow> net_stats" where
  "recordDelayedFrame n = n\<lparr>ns_delayedFrames := ns_delayedFrames n + 1\<rparr>"

definition recordDelayedWait :: "bool \<Rightarrow> net_stats \<Rightarrow> net_stats" where
  "recordDelayedWait begins n =
    (if begins then n\<lparr>ns_pendingDelayedFrames := ns_pendingDelayedFrames n + 1\<rparr>
     else if ns_pendingDelayedFrames n > 0
     then n\<lparr>ns_pendingDelayedFrames := ns_pendingDelayedFrames n - 1\<rparr> else n)"

section \<open>The sender's side\<close>

definition arm :: "NetworkAction \<Rightarrow> int \<Rightarrow> networkConn \<Rightarrow> networkConn" where
  "arm action delay c =
    (case action of
      NetworkFragmentFrame \<Rightarrow> c\<lparr>nc_fragmentNext := True\<rparr>
    | NetworkCoalesceSegments \<Rightarrow> c\<lparr>nc_coalesceNext := True\<rparr>
    | NetworkDelayReply \<Rightarrow> c\<lparr>nc_delayNextTarget := wrap64 (nc_now c + delay)\<rparr>
    | OtherNetworkAction _ \<Rightarrow> c)"

definition beginFrame :: "networkConn \<Rightarrow> networkConn" where
  "beginFrame c =
    (let stats = (if nc_fragmentNext c then recordFragmentedFrame (nc_stats c) else nc_stats c);
         stats = (if nc_coalesceNext c then recordCoalescedFrame stats else stats);
         stats = (if nc_delayNextTarget c > 0 then recordDelayedFrame stats else stats)
     in c\<lparr>nc_frameActive := True, nc_fragmentActive := nc_fragmentNext c, nc_fragmentNext := False,
       nc_coalesceActive := nc_coalesceNext c, nc_coalesceNext := False,
       nc_delayActive := nc_delayNextTarget c, nc_delayNextTarget := 0, nc_segments := [],
       nc_sender := Capturing, nc_stats := stats\<rparr>)"

definition finishAsyncFrame :: "network_frame \<Rightarrow> networkConn \<Rightarrow> networkConn" where
  "finishAsyncFrame f c =
    (if fm_asynchronous f \<and> nc_asyncFrames c > 0 then c\<lparr>nc_asyncFrames := nc_asyncFrames c - 1\<rparr> else c)"

definition stop :: "networkConn \<Rightarrow> networkConn" where
  "stop c = c\<lparr>nc_stopped := True\<rparr>"

definition frame_bytes :: "network_frame \<Rightarrow> bytes" where
  "frame_bytes f = concat (fm_segments f)"

definition net_enqueue :: "network_frame \<Rightarrow> networkConn \<Rightarrow> goerror option \<times> networkConn" where
  "net_enqueue f c =
    (if nc_stopped c then (Some (Err NetClosed), c)
     else if length (nc_frames c) < networkFrameQueueSize
     then (None, c\<lparr>nc_frames := nc_frames c @ [f], nc_accepted := nc_accepted c @ frame_bytes f\<rparr>)
     else (Some (Err ErrNetworkFrameQueueFull), c))"

definition captured_frame :: "networkConn \<Rightarrow> network_frame" where
  "captured_frame c =
    \<lparr>fm_segments = nc_segments c, fm_fragment = nc_fragmentActive c, fm_coalesce = nc_coalesceActive c,
     fm_delayTarget = nc_delayActive c, fm_asynchronous = (nc_delayActive c > 0 \<or> nc_asyncFrames c > 0)\<rparr>"

text \<open>\<open>endFrame\<close> up to its select.\<close>

definition endFrame :: "goerror option \<Rightarrow> networkConn \<Rightarrow> networkConn" where
  "endFrame frameErr c =
    (let f = captured_frame c;
         c = c\<lparr>nc_asyncFrames := (if fm_asynchronous f then nc_asyncFrames c + 1 else nc_asyncFrames c),
           nc_frameActive := False, nc_fragmentActive := False, nc_coalesceActive := False,
           nc_delayActive := 0, nc_segments := []\<rparr>
     in case frameErr of
        Some err \<Rightarrow> (finishAsyncFrame f c)\<lparr>nc_sender := Refused err\<rparr>
      | None \<Rightarrow>
          (let c = (if fm_coalesce f
               then on_stats (recordCoalescedSegments (of_nat (length (fm_segments f)))) c else c)
           in case net_enqueue f c of
              (Some err, c) \<Rightarrow>
                (let c = (finishAsyncFrame f c)\<lparr>nc_sender := Refused err\<rparr>
                 in if errors_is err ErrNetworkFrameQueueFull then stop c else c)
            | (None, c) \<Rightarrow> c\<lparr>nc_sender := (if fm_asynchronous f then Queued else Awaiting)\<rparr>))"

text \<open>\<open>Write\<close>: captured inside a frame, passed on outside of one.\<close>

definition net_Write :: "bytes \<Rightarrow> networkConn \<Rightarrow> (nat \<times> goerror option) \<times> networkConn" where
  "net_Write payload c =
    (if nc_stopped c then ((0, Some (Err NetClosed)), c)
     else if nc_frameActive c then ((length payload, None), c\<lparr>nc_segments := nc_segments c @ [payload]\<rparr>)
     else (case write_once (nc_conn c) payload of
         (n, e, w) \<Rightarrow> ((n, e), c\<lparr>nc_conn := w, nc_accepted := nc_accepted c @ take n payload\<rparr>)))"

section \<open>The writer goroutine\<close>

text \<open>The pieces in which \<open>writeFrame\<close> hands a frame to \<open>writeAll\<close>.\<close>

definition pieces :: "network_frame \<Rightarrow> bytes list" where
  "pieces f =
    (if fm_coalesce f then [concat (fm_segments f)]
     else if fm_fragment f then map (\<lambda>b. [b]) (concat (fm_segments f))
     else fm_segments f)"

definition finish_frame :: "goerror option \<Rightarrow> network_frame \<Rightarrow> networkConn \<Rightarrow> networkConn" where
  "finish_frame err f c =
    (let c = (if \<not> fm_asynchronous f \<and> nc_sender c = Awaiting
         then c\<lparr>nc_sender := (case err of None \<Rightarrow> Delivered | Some e \<Rightarrow> Refused e)\<rparr> else c);
         c = finishAsyncFrame f c
     in case err of
        None \<Rightarrow> c\<lparr>nc_writer := WIdle\<rparr>
      | Some e \<Rightarrow> (stop c)\<lparr>nc_writer := WFinished\<rparr>)"

text \<open>One step of \<open>writeLoop\<close>. Where its select has two ready cases, \<open>pick_closed\<close> chooses.\<close>

definition writer_step :: "bool \<Rightarrow> networkConn \<Rightarrow> networkConn option" where
  "writer_step pick_closed c =
    (case nc_writer c of
       WIdle \<Rightarrow>
         (case nc_frames c of
           [] \<Rightarrow> if nc_stopped c then Some (c\<lparr>nc_writer := WFinished\<rparr>) else None
         | f # fs \<Rightarrow>
             if nc_stopped c \<and> pick_closed then Some (c\<lparr>nc_writer := WFinished\<rparr>)
             else if fm_delayTarget f > 0
             then Some (on_stats (recordDelayedWait True) (c\<lparr>nc_frames := fs, nc_writer := WHeld f\<rparr>))
             else Some (c\<lparr>nc_frames := fs, nc_writer := WWriting (pieces f) f\<rparr>))
     | WHeld f \<Rightarrow>
         if nc_now c \<ge> fm_delayTarget f \<and> \<not> (nc_stopped c \<and> pick_closed)
         then Some (on_stats (recordDelayedWait False) (c\<lparr>nc_writer := WWriting (pieces f) f\<rparr>))
         else if nc_stopped c
         then Some (finish_frame (Some (Err NetClosed)) f (on_stats (recordDelayedWait False) c))
         else None
     | WWriting [] f \<Rightarrow> Some (finish_frame None f c)
     | WWriting (p # ps) f \<Rightarrow>
         if p = []
         then Some ((if fm_fragment f \<and> \<not> fm_coalesce f then on_stats recordFragmentedSegment c else c)
           \<lparr>nc_writer := WWriting ps f\<rparr>)
         else if nc_stopped c then Some (finish_frame (Some (Err NetClosed)) f c)
         else (case write_once (nc_conn c) p of
             (n, Some err, w) \<Rightarrow> Some (finish_frame (Some err) f (c\<lparr>nc_conn := w\<rparr>))
           | (n, None, w) \<Rightarrow>
               if n = 0 then Some (finish_frame (Some (Err NetClosed)) f (c\<lparr>nc_conn := w\<rparr>))
               else Some (c\<lparr>nc_conn := w, nc_writer := WWriting (drop n p # ps) f\<rparr>))
     | WFinished \<Rightarrow> None)"

section \<open>Steps\<close>

datatype net_action =
    Arm NetworkAction int
  | Begin
  | NetWrite bytes
  | End "goerror option"
  | SenderClosed
  | WriterStep bool
  | Tick int
  | Stop

text \<open>Sends of one session exclude each other, so a frame begins when the last one has returned. Writes outside
  a frame are those of the handshake, before the first frame.\<close>

definition net_step :: "net_action \<Rightarrow> networkConn \<Rightarrow> networkConn option" where
  "net_step a c =
    (case a of
       Arm action delay \<Rightarrow> Some (arm action delay c)
     | Begin \<Rightarrow> if nc_sender c \<noteq> Capturing \<and> nc_sender c \<noteq> Awaiting then Some (beginFrame c) else None
     | NetWrite payload \<Rightarrow>
         if nc_sender c = Capturing \<or> nc_sender c = Outside then Some (snd (net_Write payload c)) else None
     | End err \<Rightarrow> if nc_sender c = Capturing then Some (endFrame err c) else None
     | SenderClosed \<Rightarrow>
         if nc_sender c = Awaiting \<and> nc_stopped c then Some (c\<lparr>nc_sender := Refused (Err NetClosed)\<rparr>) else None
     | WriterStep pick_closed \<Rightarrow> writer_step pick_closed c
     | Tick now \<Rightarrow> if nc_now c \<le> now then Some (c\<lparr>nc_now := now\<rparr>) else None
     | Stop \<Rightarrow> Some (stop c))"

inductive net_reachable :: "networkConn \<Rightarrow> bool" where
  start: "net_reachable (newNetworkConn now w stats)"
| step: "net_reachable c \<Longrightarrow> net_step a c = Some c' \<Longrightarrow> net_reachable c'"

section \<open>The stream is preserved\<close>

definition in_flight :: "networkConn \<Rightarrow> bytes" where
  "in_flight c = (case nc_writer c of WHeld f \<Rightarrow> frame_bytes f | WWriting ps f \<Rightarrow> concat ps | _ \<Rightarrow> [])"

definition queued :: "networkConn \<Rightarrow> bytes" where
  "queued c = concat (map frame_bytes (nc_frames c))"

definition current_frames :: "networkConn \<Rightarrow> network_frame list" where
  "current_frames c = (case nc_writer c of WHeld f \<Rightarrow> [f] | WWriting ps f \<Rightarrow> [f] | _ \<Rightarrow> []) @ nc_frames c"

definition stream_inv :: "networkConn \<Rightarrow> bool" where
  "stream_inv c \<longleftrightarrow>
    (if nc_writer c = WFinished then \<exists>rest. nc_accepted c = sent (nc_conn c) @ rest
     else nc_accepted c = sent (nc_conn c) @ in_flight c @ queued c)"

definition queue_inv :: "networkConn \<Rightarrow> bool" where
  "queue_inv c \<longleftrightarrow>
    length (nc_frames c) \<le> networkFrameQueueSize \<and>
    (nc_writer c = WFinished \<longrightarrow> nc_stopped c) \<and>
    (nc_frameActive c \<longleftrightarrow> nc_sender c = Capturing) \<and>
    (nc_sender c = Outside \<longrightarrow> nc_frames c = [] \<and> (nc_writer c = WIdle \<or> nc_writer c = WFinished))"

text \<open>A frame that is sent synchronously is alone: nothing is queued before it, nor behind it until it is
  written.\<close>

definition sync_inv :: "networkConn \<Rightarrow> bool" where
  "sync_inv c \<longleftrightarrow>
    (\<not> nc_stopped c \<longrightarrow> nc_asyncFrames c = length (filter fm_asynchronous (current_frames c))) \<and>
    (\<not> nc_stopped c \<and> nc_sender c \<noteq> Awaiting \<longrightarrow> list_all fm_asynchronous (current_frames c)) \<and>
    (nc_sender c = Awaiting \<longrightarrow> nc_writer c = WFinished \<or>
      (\<exists>f. current_frames c = [f] \<and> \<not> fm_asynchronous f)) \<and>
    (nc_sender c = Delivered \<longrightarrow> sent (nc_conn c) = nc_accepted c \<and> nc_frames c = [] \<and>
      (nc_writer c = WIdle \<or> nc_writer c = WFinished))"

definition time_inv :: "networkConn \<Rightarrow> bool" where
  "time_inv c \<longleftrightarrow>
    (\<forall>ps f. nc_writer c = WWriting ps f \<longrightarrow> fm_delayTarget f \<le> 0 \<or> fm_delayTarget f \<le> nc_now c)"

lemma concat_pieces: "concat (pieces f) = frame_bytes f"
proof -
  have "concat (map (\<lambda>b. [b]) xs) = xs" for xs :: bytes by (induction xs) simp_all
  then show ?thesis by (simp add: pieces_def frame_bytes_def)
qed

lemma record_simps [simp]:
  "nc_now (on_stats g c) = nc_now c" "nc_stopped (on_stats g c) = nc_stopped c"
  "nc_frameActive (on_stats g c) = nc_frameActive c"
  "nc_asyncFrames (on_stats g c) = nc_asyncFrames c" "nc_frames (on_stats g c) = nc_frames c"
  "nc_conn (on_stats g c) = nc_conn c" "nc_writer (on_stats g c) = nc_writer c"
  "nc_sender (on_stats g c) = nc_sender c" "nc_accepted (on_stats g c) = nc_accepted c"
  by (simp_all add: on_stats_def)

lemma stop_simps [simp]:
  "nc_now (stop c) = nc_now c" "nc_stopped (stop c)" "nc_frameActive (stop c) = nc_frameActive c"
  "nc_asyncFrames (stop c) = nc_asyncFrames c" "nc_frames (stop c) = nc_frames c"
  "nc_conn (stop c) = nc_conn c" "nc_writer (stop c) = nc_writer c" "nc_sender (stop c) = nc_sender c"
  "nc_accepted (stop c) = nc_accepted c"
  by (simp_all add: stop_def)

lemma finishAsync_simps [simp]:
  "nc_now (finishAsyncFrame f c) = nc_now c" "nc_stopped (finishAsyncFrame f c) = nc_stopped c"
  "nc_frameActive (finishAsyncFrame f c) = nc_frameActive c"
  "nc_asyncFrames (finishAsyncFrame f c) = (if fm_asynchronous f then nc_asyncFrames c - 1 else nc_asyncFrames c)"
  "nc_frames (finishAsyncFrame f c) = nc_frames c"
  "nc_conn (finishAsyncFrame f c) = nc_conn c" "nc_writer (finishAsyncFrame f c) = nc_writer c"
  "nc_sender (finishAsyncFrame f c) = nc_sender c" "nc_accepted (finishAsyncFrame f c) = nc_accepted c"
  by (simp_all add: finishAsyncFrame_def)

lemma finish_frame_simps [simp]:
  "nc_now (finish_frame err f c) = nc_now c"
  "nc_stopped (finish_frame err f c) = (nc_stopped c \<or> err \<noteq> None)"
  "nc_frameActive (finish_frame err f c) = nc_frameActive c"
  "nc_asyncFrames (finish_frame err f c) = (if fm_asynchronous f then nc_asyncFrames c - 1 else nc_asyncFrames c)"
  "nc_frames (finish_frame err f c) = nc_frames c" "nc_conn (finish_frame err f c) = nc_conn c"
  "nc_accepted (finish_frame err f c) = nc_accepted c"
  "nc_writer (finish_frame err f c) = (if err = None then WIdle else WFinished)"
  "nc_sender (finish_frame err f c) = (if \<not> fm_asynchronous f \<and> nc_sender c = Awaiting
    then (case err of None \<Rightarrow> Delivered | Some e \<Rightarrow> Refused e) else nc_sender c)"
  by (simp_all add: finish_frame_def Let_def split: option.split)

lemmas inv_defs = stream_inv_def queue_inv_def sync_inv_def time_inv_def in_flight_def queued_def current_frames_def

definition net_ok :: "networkConn \<Rightarrow> bool" where
  "net_ok c \<longleftrightarrow> stream_inv c \<and> queue_inv c \<and> sync_inv c \<and> time_inv c"

text \<open>The steps of the writer, by cases.\<close>

lemma writer_step_cases:
  assumes "writer_step pick c = Some c'"
  obtains (give_up) "nc_writer c = WIdle" "nc_stopped c" "c' = c\<lparr>nc_writer := WFinished\<rparr>"
  | (hold) f fs where "nc_writer c = WIdle" "nc_frames c = f # fs" "fm_delayTarget f > 0"
      "c' = on_stats (recordDelayedWait True) (c\<lparr>nc_frames := fs, nc_writer := WHeld f\<rparr>)"
  | (take_it) f fs where "nc_writer c = WIdle" "nc_frames c = f # fs" "\<not> fm_delayTarget f > 0"
      "c' = c\<lparr>nc_frames := fs, nc_writer := WWriting (pieces f) f\<rparr>"
  | (wake) f where "nc_writer c = WHeld f" "nc_now c \<ge> fm_delayTarget f"
      "c' = on_stats (recordDelayedWait False) (c\<lparr>nc_writer := WWriting (pieces f) f\<rparr>)"
  | (held_closed) f where "nc_writer c = WHeld f"
      "c' = finish_frame (Some (Err NetClosed)) f (on_stats (recordDelayedWait False) c)"
  | (written) f where "nc_writer c = WWriting [] f" "c' = finish_frame None f c"
  | (piece_done) ps f g where "nc_writer c = WWriting ([] # ps) f" "c' = (on_stats g c)\<lparr>nc_writer := WWriting ps f\<rparr>"
  | (failed) p ps f n e w where "nc_writer c = WWriting (p # ps) f"
      "sent w = sent (nc_conn c) @ take n p" "c' = finish_frame (Some e) f (c\<lparr>nc_conn := w\<rparr>)"
  | (wrote) p ps f n w where "nc_writer c = WWriting (p # ps) f"
      "sent w = sent (nc_conn c) @ take n p" "c' = c\<lparr>nc_conn := w, nc_writer := WWriting (drop n p # ps) f\<rparr>"
proof (cases "nc_writer c")
  case WIdle
  with assms that show ?thesis by (auto simp: writer_step_def split: list.splits if_splits)
next
  case (WHeld f)
  with assms that show ?thesis by (auto simp: writer_step_def split: if_splits)
next
  case (WWriting qs f)
  show ?thesis
  proof (cases qs)
    case Nil
    with assms WWriting that show ?thesis by (simp add: writer_step_def)
  next
    case (Cons p ps)
    show ?thesis
    proof (cases "p = []")
      case True
      have same: "on_stats id c = c" by (simp add: on_stats_def)
      from True assms WWriting Cons show ?thesis
        by (cases "fm_fragment f \<and> \<not> fm_coalesce f")
          (auto simp: writer_step_def intro: piece_done piece_done[where g = id, unfolded same])
    next
      case False
      show ?thesis
      proof (cases "nc_stopped c")
        case True
        have same: "c\<lparr>nc_conn := nc_conn c\<rparr> = c" by simp
        from True False assms WWriting Cons have "c' = finish_frame (Some (Err NetClosed)) f c"
          by (simp add: writer_step_def)
        with WWriting Cons show ?thesis
          by (intro failed[where n = 0 and w = "nc_conn c" and e = "Err NetClosed"]) simp_all
      next
        case running: False
        obtain n e w where once: "write_once (nc_conn c) p = (n, e, w)" by (metis prod_cases3)
        from write_once_sent[OF once] have sw: "sent w = sent (nc_conn c) @ take n p" by simp
        from once False running assms WWriting Cons have "c' = (case e of
            Some err \<Rightarrow> finish_frame (Some err) f (c\<lparr>nc_conn := w\<rparr>)
          | None \<Rightarrow> if n = 0 then finish_frame (Some (Err NetClosed)) f (c\<lparr>nc_conn := w\<rparr>)
              else c\<lparr>nc_conn := w, nc_writer := WWriting (drop n p # ps) f\<rparr>)"
          by (auto simp: writer_step_def split: option.splits if_splits)
        then show ?thesis
          using failed[OF _ sw, of ps f] wrote[OF _ sw, of ps f] WWriting Cons
          by (cases e; cases "n = 0") simp_all
      qed
    qed
  qed
next
  case WFinished
  with assms show ?thesis by (simp add: writer_step_def)
qed

lemma take_prefix [simp]: "\<exists>rest. p @ x = take n p @ rest"
  by (intro exI[of _ "drop n p @ x"]) (simp flip: append.assoc)

lemma writer_step_ok:
  assumes "writer_step pick c = Some c'" "net_ok c"
  shows "net_ok c'"
  using assms(1)
proof (cases rule: writer_step_cases)
  case give_up
  from assms(2) give_up have "nc_accepted c = sent (nc_conn c) @ queued c"
    by (simp add: net_ok_def stream_inv_def in_flight_def)
  then have "stream_inv c'" using give_up(3) by (simp add: stream_inv_def)
  moreover have "queue_inv c'" using assms(2) give_up by (simp add: net_ok_def queue_inv_def)
  moreover have "sync_inv c'" using assms(2) give_up by (simp add: net_ok_def sync_inv_def)
  moreover have "time_inv c'" using give_up by (simp add: time_inv_def)
  ultimately show ?thesis by (simp add: net_ok_def)
next
  case (hold f fs)
  with assms(2) show ?thesis by (auto simp: net_ok_def inv_defs)
next
  case (take_it f fs)
  with assms(2) show ?thesis by (auto simp: net_ok_def inv_defs concat_pieces)
next
  case (wake f)
  with assms(2) show ?thesis by (auto simp: net_ok_def inv_defs concat_pieces)
next
  case (held_closed f)
  with assms(2) show ?thesis by (auto simp: net_ok_def inv_defs)
next
  case (written f)
  with assms(2) show ?thesis by (auto simp: net_ok_def inv_defs)
next
  case (piece_done ps f g)
  with assms(2) show ?thesis by (auto simp: net_ok_def inv_defs)
next
  case (failed p ps f n e w)
  with assms(2) show ?thesis by (auto simp: net_ok_def inv_defs)
next
  case (wrote p ps f n w)
  with assms(2) show ?thesis by (auto simp: net_ok_def inv_defs)
qed

lemma arm_ok: "net_ok c \<Longrightarrow> net_ok (arm action delay c)"
  by (cases action) (simp_all add: arm_def net_ok_def inv_defs)

lemma begin_ok:
  assumes "net_ok c" "nc_sender c \<noteq> Capturing" "nc_sender c \<noteq> Awaiting"
  shows "net_ok (beginFrame c)"
  using assms by (simp add: beginFrame_def Let_def net_ok_def inv_defs)

lemma Write_ok:
  assumes "net_ok c" "nc_sender c = Capturing \<or> nc_sender c = Outside"
  shows "net_ok (snd (net_Write payload c))"
proof (cases "nc_stopped c \<or> nc_frameActive c")
  case True
  with assms(1) show ?thesis
    by (cases "nc_stopped c") (simp_all add: net_Write_def net_ok_def inv_defs)
next
  case False
  obtain n e w where once: "write_once (nc_conn c) payload = (n, e, w)" by (metis prod_cases3)
  from write_once_sent[OF once] have "sent w = sent (nc_conn c) @ take n payload" by simp
  moreover from False assms have idle: "nc_sender c = Outside" "nc_frames c = []" "nc_writer c = WIdle"
    by (auto simp: net_ok_def queue_inv_def)
  moreover from assms(1) idle have "nc_accepted c = sent (nc_conn c)"
    by (simp add: net_ok_def stream_inv_def in_flight_def queued_def)
  moreover from assms(1) idle have "\<not> nc_stopped c \<longrightarrow> nc_asyncFrames c = 0"
    by (simp add: net_ok_def sync_inv_def current_frames_def)
  ultimately show ?thesis
    using False once by (simp add: net_Write_def net_ok_def inv_defs)
qed

lemma net_enqueue_cases:
  assumes "net_enqueue f c = (e, c')"
  obtains (taken) "e = None" "\<not> nc_stopped c" "length (nc_frames c) < networkFrameQueueSize"
      "c' = c\<lparr>nc_frames := nc_frames c @ [f], nc_accepted := nc_accepted c @ frame_bytes f\<rparr>"
  | (refused) err where "e = Some err" "c' = c" "nc_stopped c \<or> errors_is err ErrNetworkFrameQueueFull"
  using assms by (auto simp: net_enqueue_def split: if_splits)

text \<open>The connection as the frame is handed over, and the sender's return.\<close>

lemma refused_ok:
  assumes "net_ok c" "nc_sender c = Capturing"
    and "stream_inv c' = stream_inv c" "nc_frames c' = nc_frames c" "nc_writer c' = nc_writer c" "nc_now c' = nc_now c"
    and "nc_stopped c \<Longrightarrow> nc_stopped c'" "nc_stopped c' \<or> nc_asyncFrames c' = nc_asyncFrames c"
    and "\<not> nc_frameActive c'" "nc_sender c' = Refused err"
  shows "net_ok c'"
  using assms by (auto simp: net_ok_def queue_inv_def sync_inv_def time_inv_def current_frames_def)

lemma handed_over_ok:
  assumes ok: "net_ok c" and "nc_sender c = Capturing" and open_conn: "\<not> nc_stopped c"
    and room: "length (nc_frames c) < networkFrameQueueSize"
    and f: "fm_asynchronous f = (fm_delayTarget f > 0 \<or> nc_asyncFrames c > 0)"
    and c': "nc_frames c' = nc_frames c @ [f]" "nc_accepted c' = nc_accepted c @ frame_bytes f"
      "nc_conn c' = nc_conn c" "nc_writer c' = nc_writer c" "nc_now c' = nc_now c" "\<not> nc_stopped c'"
      "nc_asyncFrames c' = (if fm_asynchronous f then nc_asyncFrames c + 1 else nc_asyncFrames c)"
      "\<not> nc_frameActive c'" "nc_sender c' = (if fm_asynchronous f then Queued else Awaiting)"
  shows "net_ok c'"
proof -
  from ok open_conn have w: "nc_writer c \<noteq> WFinished" by (auto simp: net_ok_def queue_inv_def)
  have cur: "current_frames c' = current_frames c @ [f]"
    by (simp add: current_frames_def c')
  from ok w have "stream_inv c'"
    by (simp add: net_ok_def stream_inv_def c' in_flight_def queued_def)
  moreover have "queue_inv c'"
    using ok room w by (simp add: net_ok_def queue_inv_def c')
  moreover have "sync_inv c'"
  proof -
    from ok open_conn assms(2) have all: "list_all fm_asynchronous (current_frames c)"
      "nc_asyncFrames c = length (filter fm_asynchronous (current_frames c))"
      by (simp_all add: net_ok_def sync_inv_def)
    then have "nc_asyncFrames c = length (current_frames c)"
      by (metis filter_True list_all_iff)
    with all f show ?thesis
      by (auto simp: sync_inv_def cur c')
  qed
  moreover have "time_inv c'"
    using ok by (simp add: net_ok_def time_inv_def c')
  ultimately show ?thesis by (simp add: net_ok_def)
qed

lemma end_ok:
  assumes ok: "net_ok c" and cap: "nc_sender c = Capturing"
  shows "net_ok (endFrame frameErr c)"
proof -
  let ?f = "captured_frame c"
  define c1 where "c1 = c\<lparr>nc_asyncFrames := (if fm_asynchronous ?f then nc_asyncFrames c + 1 else nc_asyncFrames c),
    nc_frameActive := False, nc_fragmentActive := False, nc_coalesceActive := False,
    nc_delayActive := 0, nc_segments := []\<rparr>"
  define c2 where "c2 = (if fm_coalesce ?f
    then on_stats (recordCoalescedSegments (of_nat (length (fm_segments ?f)))) c1 else c1)"
  have c2: "nc_stopped c2 = nc_stopped c" "nc_frames c2 = nc_frames c" "nc_writer c2 = nc_writer c"
    "nc_now c2 = nc_now c" "nc_conn c2 = nc_conn c" "nc_accepted c2 = nc_accepted c" "\<not> nc_frameActive c2"
    "nc_asyncFrames c2 = (if fm_asynchronous ?f then nc_asyncFrames c + 1 else nc_asyncFrames c)"
    by (simp_all add: c2_def c1_def)
  have c1: "nc_stopped c1 = nc_stopped c" "nc_frames c1 = nc_frames c" "nc_writer c1 = nc_writer c"
    "nc_now c1 = nc_now c" "nc_conn c1 = nc_conn c" "nc_accepted c1 = nc_accepted c" "\<not> nc_frameActive c1"
    "nc_asyncFrames c1 = (if fm_asynchronous ?f then nc_asyncFrames c + 1 else nc_asyncFrames c)"
    by (simp_all add: c1_def)
  show ?thesis
  proof (cases frameErr)
    case (Some err)
    then have "endFrame frameErr c = (finishAsyncFrame ?f c1)\<lparr>nc_sender := Refused err\<rparr>"
      by (simp add: endFrame_def c1_def Let_def)
    then show ?thesis
      by (intro refused_ok[OF ok cap, where err = err]) (simp_all add: c1 stream_inv_def in_flight_def queued_def)
  next
    case None
    obtain e c3 where enq: "net_enqueue ?f c2 = (e, c3)" by fastforce
    with None have e: "endFrame frameErr c = (case e of
        Some err \<Rightarrow> (if errors_is err ErrNetworkFrameQueueFull
          then stop ((finishAsyncFrame ?f c3)\<lparr>nc_sender := Refused err\<rparr>)
          else (finishAsyncFrame ?f c3)\<lparr>nc_sender := Refused err\<rparr>)
      | None \<Rightarrow> c3\<lparr>nc_sender := (if fm_asynchronous ?f then Queued else Awaiting)\<rparr>)"
      unfolding endFrame_def Let_def None c1_def[symmetric] c2_def[symmetric] option.case enq
      by (cases e) simp_all
    from enq show ?thesis
    proof (cases rule: net_enqueue_cases)
      case taken
      then show ?thesis
        using e c2 by (intro handed_over_ok[OF ok cap, where f = ?f]) (simp_all add: captured_frame_def)
    next
      case (refused err)
      then show ?thesis
        using e c2 by (intro refused_ok[OF ok cap, where err = err])
          (auto simp: stream_inv_def in_flight_def queued_def)
    qed
  qed
qed

lemma stop_ok: "net_ok c \<Longrightarrow> net_ok (stop c)"
  by (simp add: net_ok_def inv_defs)

lemma net_step_ok:
  assumes "net_step a c = Some c'" "net_ok c"
  shows "net_ok c'"
proof (cases a)
  case (Arm action delay)
  with assms show ?thesis by (simp add: net_step_def) (metis arm_ok)
next
  case Begin
  with assms(1) have "nc_sender c \<noteq> Capturing" "nc_sender c \<noteq> Awaiting" "c' = beginFrame c"
    by (simp_all add: net_step_def split: if_splits)
  with assms(2) show ?thesis using begin_ok by blast
next
  case (NetWrite payload)
  with assms(1) have "nc_sender c = Capturing \<or> nc_sender c = Outside" "c' = snd (net_Write payload c)"
    by (simp_all add: net_step_def split: if_splits)
  with assms(2) show ?thesis using Write_ok by blast
next
  case (End err)
  with assms(1) have "nc_sender c = Capturing" "c' = endFrame err c"
    by (simp_all add: net_step_def split: if_splits)
  with assms(2) show ?thesis using end_ok by blast
next
  case SenderClosed
  with assms(1) have "nc_sender c = Awaiting" "nc_stopped c" "c' = c\<lparr>nc_sender := Refused (Err NetClosed)\<rparr>"
    by (simp_all add: net_step_def split: if_splits)
  with assms(2) show ?thesis by (simp add: net_ok_def inv_defs)
next
  case (WriterStep pick)
  with assms(1) have "writer_step pick c = Some c'" by (simp add: net_step_def)
  then show ?thesis using assms(2) by (rule writer_step_ok)
next
  case (Tick now)
  with assms(1) have "nc_now c \<le> now" "c' = c\<lparr>nc_now := now\<rparr>"
    by (simp_all add: net_step_def split: if_splits)
  moreover have "time_inv (c\<lparr>nc_now := now\<rparr>)"
    using assms(2) calculation(1) by (force simp: net_ok_def time_inv_def)
  ultimately show ?thesis
    using assms(2) by (simp add: net_ok_def stream_inv_def queue_inv_def sync_inv_def in_flight_def queued_def current_frames_def)
next
  case Stop
  with assms(1) have "c' = stop c" by (simp add: net_step_def)
  with assms(2) show ?thesis using stop_ok by blast
qed

lemma net_reachable_ok: "net_reachable c \<Longrightarrow> net_ok c"
proof (induction rule: net_reachable.induct)
  case (start now w stats)
  then show ?case by (simp add: newNetworkConn_def net_ok_def inv_defs)
qed (rule net_step_ok)

text \<open>C5. Network shaping never changes the byte stream: however frames are fragmented, coalesced and delayed,
  and however sender, writer, clock and close interleave, what the peer has received is a prefix of what was
  accepted for sending; a send that waited for its frame returns success only when everything accepted has
  been written; at most 64 frames wait; and a delayed frame is being written only once its time has come.\<close>

theorem shaping_preserves_the_stream:
  assumes "net_reachable c"
  shows "(\<exists>rest. nc_accepted c = sent (nc_conn c) @ rest) \<and>
    (nc_writer c = WFinished \<or> nc_accepted c = sent (nc_conn c) @ in_flight c @ queued c) \<and>
    (nc_sender c = Delivered \<longrightarrow> sent (nc_conn c) = nc_accepted c) \<and>
    length (nc_frames c) \<le> 64 \<and>
    (\<forall>ps f. nc_writer c = WWriting ps f \<longrightarrow> fm_delayTarget f \<le> 0 \<or> fm_delayTarget f \<le> nc_now c)"
  using net_reachable_ok[OF assms]
  by (auto simp: net_ok_def stream_inv_def queue_inv_def sync_inv_def time_inv_def networkFrameQueueSize_def
      split: if_splits)

text \<open>A frame of two segments, fragmented and held back until virtual time 5.\<close>

definition shaped_run :: "networkConn option" where
  "shaped_run = foldl (\<lambda>c a. case c of None \<Rightarrow> None | Some c \<Rightarrow> net_step a c)
    (Some (newNetworkConn 0 \<lparr>sent = [], outcomes = []\<rparr> (\<lparr>ns_fragmentedFrames = 0, ns_fragmentedSegments = 0,
      ns_coalescedFrames = 0, ns_coalescedSegments = 0, ns_delayedFrames = 0, ns_pendingDelayedFrames = 0\<rparr>)))
    [Arm NetworkFragmentFrame 0, Arm NetworkDelayReply 5, Begin, NetWrite [1], NetWrite [2, 3], End None,
     WriterStep False, Tick 5, WriterStep False, WriterStep False, WriterStep False]"

lemma shaped_run_eq:
  "\<exists>c. shaped_run = Some c \<and> net_reachable c \<and> sent (nc_conn c) = [1] \<and> nc_accepted c = [1, 2, 3]"
proof -
  have run: "net_reachable c \<Longrightarrow> foldl (\<lambda>c a. case c of None \<Rightarrow> None | Some c \<Rightarrow> net_step a c) (Some c) as = Some c' \<Longrightarrow>
      net_reachable c'" for as c c'
  proof (induction as arbitrary: c)
    case (Cons a as)
    have none: "foldl (\<lambda>c a. case c of None \<Rightarrow> None | Some c \<Rightarrow> net_step a c) None bs = None" for bs
      by (induction bs) simp_all
    from Cons.prems obtain c1 where "net_step a c = Some c1"
      by (cases "net_step a c") (simp_all add: none)
    with Cons show ?case by (auto intro: net_reachable.step)
  qed simp
  have "\<exists>c. shaped_run = Some c \<and> sent (nc_conn c) = [1] \<and> nc_accepted c = [1, 2, 3]"
    by (simp add: shaped_run_def net_step_def newNetworkConn_def arm_def beginFrame_def net_Write_def endFrame_def
        captured_frame_def net_enqueue_def writer_step_def on_stats_def pieces_def frame_bytes_def write_once_def
        Let_def wrap64_def networkFrameQueueSize_def)
  with run[OF net_reachable.start] show ?thesis
    unfolding shaped_run_def by blast
qed

lemma shaping_preserves_the_stream_witness:
  "\<exists>c. shaped_run = Some c \<and> [1, 2, 3] = sent (nc_conn c) @ in_flight c @ queued c"
proof -
  obtain c where c: "shaped_run = Some c" "net_reachable c" "sent (nc_conn c) = [1]" "nc_accepted c = [1, 2, 3]"
    using shaped_run_eq by blast
  from shaping_preserves_the_stream[OF c(2)] c
  have "nc_writer c = WFinished \<or> [1, 2, 3] = sent (nc_conn c) @ in_flight c @ queued c" by simp
  moreover have "nc_writer c \<noteq> WFinished"
    using c(1) by (auto simp: shaped_run_def net_step_def newNetworkConn_def arm_def beginFrame_def net_Write_def
        endFrame_def captured_frame_def net_enqueue_def writer_step_def on_stats_def pieces_def frame_bytes_def
        write_once_def Let_def wrap64_def networkFrameQueueSize_def)
  ultimately show ?thesis using c(1) by blast
qed

end
