(* ===== verification/Device_Stats.thy ===== *)
theory Device_Stats
  imports Device_Progress Network
begin

text \<open>\<open>Device.Stats\<close>: the snapshot of a device's counters, and what \<open>WaitForIdle\<close> reads in it.\<close>

record DeviceStats =
  st_AcceptedConnections :: u64
  st_AnsweredPings :: u64
  st_ActiveConnections :: nat
  st_ActiveListeners :: nat
  st_ActiveSessionTasks :: nat
  st_DroppedCommands :: u64
  st_DroppedConnections :: u64
  st_NetworkFragmentedFrames :: u64
  st_NetworkFragmentedSegments :: u64
  st_NetworkCoalescedFrames :: u64
  st_NetworkCoalescedSegments :: u64
  st_NetworkDelayedFrames :: u64
  st_NetworkPendingDelays :: u64

definition Stats :: "net_stats \<Rightarrow> 'f device \<Rightarrow> DeviceStats" where
  "Stats n d =
    \<lparr>st_AcceptedConnections = dv_accepted d,
     st_AnsweredPings = dv_answeredPings d,
     st_ActiveConnections = length (dv_connections d),
     st_ActiveListeners = length (dv_listeners d),
     st_ActiveSessionTasks = dv_sessionTasks d,
     st_DroppedCommands = dv_droppedCommands d,
     st_DroppedConnections = dv_droppedSessions d,
     st_NetworkFragmentedFrames = ns_fragmentedFrames n,
     st_NetworkFragmentedSegments = ns_fragmentedSegments n,
     st_NetworkCoalescedFrames = ns_coalescedFrames n,
     st_NetworkCoalescedSegments = ns_coalescedSegments n,
     st_NetworkDelayedFrames = ns_delayedFrames n,
     st_NetworkPendingDelays = ns_pendingDelayedFrames n\<rparr>"

text \<open>The test of \<open>WaitForIdle\<close> on the snapshot is the one on the device.\<close>

lemma idle_stats:
  "is_idle (unat (ns_pendingDelayedFrames n)) d \<longleftrightarrow>
    st_ActiveConnections (Stats n d) = 0 \<and> st_ActiveListeners (Stats n d) = 0 \<and>
    st_ActiveSessionTasks (Stats n d) = 0 \<and> st_NetworkPendingDelays (Stats n d) = 0"
  by (simp add: is_idle_def Stats_def unat_eq_0)

end
