(* ===== verification/Scenarios.thy ===== *)
theory Scenarios
  imports Device_Progress Client_Loop
begin

text \<open>
  The built-in scenarios (\<open>simulator/basic.go\<close>, \<open>simulator/conveyor.go\<close>), and what a client's listing gets
  from a simulated device. A \<open>float32\<close> is its IEEE 754 bits.
\<close>

section \<open>Constants\<close>

definition BasicButtonKey :: u32 where "BasicButtonKey = 201"
definition BasicSwitchKey :: u32 where "BasicSwitchKey = 202"
definition BasicNumberKey :: u32 where "BasicNumberKey = 203"
definition BlinkSensorKey :: u32 where "BlinkSensorKey = 211"
definition BlinkSwitchKey :: u32 where "BlinkSwitchKey = 212"
definition ConveyorFanKey :: u32 where "ConveyorFanKey = 101"
definition StatusLightKey :: u32 where "StatusLightKey = 102"
definition BrickEnRouteKey :: u32 where "BrickEnRouteKey = 103"
definition ExitRedRatioKey :: u32 where "ExitRedRatioKey = 104"
definition ConveyorEffectNone :: string where "ConveyorEffectNone = ''None''"
definition ConveyorEffectRainbow :: string where "ConveyorEffectRainbow = ''Rainbow''"
definition ConveyorEffectTraveling :: string where "ConveyorEffectTraveling = ''Traveling Blink''"
definition ExitRedRatioNoReading :: f32 where "ExitRedRatioNoReading = 0xBF800000"
definition FamilySwitchKey :: u32 where "FamilySwitchKey = 201"
definition FamilyNumberKey :: u32 where "FamilyNumberKey = 202"
definition FamilyButtonKey :: u32 where "FamilyButtonKey = 203"
definition FamilyTextSensorKey :: u32 where "FamilyTextSensorKey = 204"
definition FamilySensorKey :: u32 where "FamilySensorKey = 205"
definition FamilyBinaryKey :: u32 where "FamilyBinaryKey = 206"

text \<open>\<open>pb.ColorMode_COLOR_MODE_RGB\<close>, \<open>pb.FanDirection_FAN_DIRECTION_FORWARD\<close>, \<open>pb.LogLevel_LOG_LEVEL_INFO\<close>.\<close>

definition COLOR_MODE_RGB :: i32 where "COLOR_MODE_RGB = 35"
definition FAN_DIRECTION_FORWARD :: i32 where "FAN_DIRECTION_FORWARD = 0"
definition LOG_LEVEL_INFO :: i32 where "LOG_LEVEL_INFO = 3"

lemmas key_defs = BasicButtonKey_def BasicSwitchKey_def BasicNumberKey_def BlinkSensorKey_def BlinkSwitchKey_def
  ConveyorFanKey_def StatusLightKey_def BrickEnRouteKey_def ExitRedRatioKey_def FamilySwitchKey_def
  FamilyNumberKey_def FamilyButtonKey_def FamilyTextSensorKey_def FamilySensorKey_def FamilyBinaryKey_def

definition ready_log :: "string \<Rightarrow> SubscribeLogsResponse option list" where
  "ready_log line = [Some (zero_SubscribeLogsResponse\<lparr>Log_Level := LOG_LEVEL_INFO,
    Log_Message := string_bytes line @ [10]\<rparr>)]"

section \<open>Scenarios\<close>

definition BasicIOScenario :: Scenario where
  "BasicIOScenario = (bare_scenario ''basic-io-simulator'' 0)\<lparr>
    sc_Entities :=
      [Some (ListEntitiesBinarySensorResponse (zero_ListEntitiesBinarySensorResponse\<lparr>
         BinarySensorInfo_Key := BasicButtonKey, BinarySensorInfo_ObjectId := ''button_a'',
         BinarySensorInfo_Name := ''Button A''\<rparr>)),
       Some (ListEntitiesSwitchResponse (zero_ListEntitiesSwitchResponse\<lparr>
         SwitchInfo_Key := BasicSwitchKey, SwitchInfo_ObjectId := ''led_1'', SwitchInfo_Name := ''LED 1''\<rparr>)),
       Some (ListEntitiesNumberResponse (zero_ListEntitiesNumberResponse\<lparr>
         NumberInfo_Key := BasicNumberKey, NumberInfo_ObjectId := ''motor_speed'',
         NumberInfo_Name := ''Motor Speed'', NumberInfo_MinValue := 0, NumberInfo_MaxValue := 0x3F800000,
         NumberInfo_Step := 0x3C23D70A\<rparr>))],
    sc_States :=
      [Some (BinarySensorStateResponse (zero_BinarySensorStateResponse\<lparr>
         BinarySensorState_Key := BasicButtonKey, BinarySensorState_State := False\<rparr>)),
       Some (SwitchStateResponse (zero_SwitchStateResponse\<lparr>
         SwitchState_Key := BasicSwitchKey, SwitchState_State := True\<rparr>)),
       Some (NumberStateResponse (zero_NumberStateResponse\<lparr>
         NumberState_Key := BasicNumberKey, NumberState_State := 0x3F400000\<rparr>))],
    sc_Logs := ready_log ''basic I/O simulator ready''\<rparr>"

definition BlinkScenario :: Scenario where
  "BlinkScenario = (bare_scenario ''esphome-blink'' 0)\<lparr>
    sc_Entities :=
      [Some (ListEntitiesBinarySensorResponse (zero_ListEntitiesBinarySensorResponse\<lparr>
         BinarySensorInfo_Key := BlinkSensorKey, BinarySensorInfo_ObjectId := ''onboard_led_state'',
         BinarySensorInfo_Name := ''Onboard LED State''\<rparr>)),
       Some (ListEntitiesSwitchResponse (zero_ListEntitiesSwitchResponse\<lparr>
         SwitchInfo_Key := BlinkSwitchKey, SwitchInfo_ObjectId := ''onboard_led'',
         SwitchInfo_Name := ''Onboard LED''\<rparr>))],
    sc_States :=
      [Some (BinarySensorStateResponse (zero_BinarySensorStateResponse\<lparr>
         BinarySensorState_Key := BlinkSensorKey, BinarySensorState_State := True\<rparr>)),
       Some (SwitchStateResponse (zero_SwitchStateResponse\<lparr>
         SwitchState_Key := BlinkSwitchKey, SwitchState_State := True\<rparr>))],
    sc_Logs := ready_log ''blink simulator ready''\<rparr>"

definition ConveyorScenario :: Scenario where
  "ConveyorScenario = (bare_scenario ''conveyor-simulator'' 0)\<lparr>
    sc_Entities :=
      [Some (ListEntitiesFanResponse (zero_ListEntitiesFanResponse\<lparr>
         FanInfo_Key := ConveyorFanKey, FanInfo_ObjectId := ''conveyor_motor'',
         FanInfo_Name := ''Conveyor Motor'', FanInfo_SupportsSpeed := True,
         FanInfo_SupportsDirection := True, FanInfo_SupportedSpeedCount := 100\<rparr>)),
       Some (ListEntitiesLightResponse (zero_ListEntitiesLightResponse\<lparr>
         LightInfo_Key := StatusLightKey, LightInfo_ObjectId := ''status_light'',
         LightInfo_Name := ''Status Light'', LightInfo_SupportedColorModes := [COLOR_MODE_RGB],
         LightInfo_Effects := [ConveyorEffectNone, ConveyorEffectRainbow, ConveyorEffectTraveling]\<rparr>)),
       Some (ListEntitiesBinarySensorResponse (zero_ListEntitiesBinarySensorResponse\<lparr>
         BinarySensorInfo_Key := BrickEnRouteKey, BinarySensorInfo_ObjectId := ''brick_en_route'',
         BinarySensorInfo_Name := ''Brick En Route''\<rparr>)),
       Some (ListEntitiesSensorResponse (zero_ListEntitiesSensorResponse\<lparr>
         SensorInfo_Key := ExitRedRatioKey, SensorInfo_ObjectId := ''exit_red_ratio'',
         SensorInfo_Name := ''Exit Red Ratio'', SensorInfo_UnitOfMeasurement := ''%'',
         SensorInfo_AccuracyDecimals := 1\<rparr>))],
    sc_States :=
      [Some (FanStateResponse (zero_FanStateResponse\<lparr>
         FanState_Key := ConveyorFanKey, FanState_Direction := FAN_DIRECTION_FORWARD\<rparr>)),
       Some (LightStateResponse (zero_LightStateResponse\<lparr>
         LightState_Key := StatusLightKey, LightState_ColorMode := COLOR_MODE_RGB,
         LightState_Effect := ConveyorEffectNone\<rparr>)),
       Some (BinarySensorStateResponse (zero_BinarySensorStateResponse\<lparr>
         BinarySensorState_Key := BrickEnRouteKey, BinarySensorState_State := False\<rparr>)),
       Some (SensorStateResponse (zero_SensorStateResponse\<lparr>
         SensorState_Key := ExitRedRatioKey, SensorState_State := ExitRedRatioNoReading\<rparr>))],
    sc_Logs := ready_log ''conveyor simulator ready''\<rparr>"

definition EntityFamilyScenario :: Scenario where
  "EntityFamilyScenario = (bare_scenario ''entity-family-simulator'' 0)\<lparr>
    sc_Entities :=
      [Some (ListEntitiesFanResponse (zero_ListEntitiesFanResponse\<lparr>
         FanInfo_Key := ConveyorFanKey, FanInfo_ObjectId := ''example_fan'',
         FanInfo_Name := ''Example Fan'', FanInfo_SupportsSpeed := True,
         FanInfo_SupportsDirection := True, FanInfo_SupportedSpeedCount := 100\<rparr>)),
       Some (ListEntitiesLightResponse (zero_ListEntitiesLightResponse\<lparr>
         LightInfo_Key := StatusLightKey, LightInfo_ObjectId := ''example_light'',
         LightInfo_Name := ''Example Light'', LightInfo_SupportedColorModes := [COLOR_MODE_RGB]\<rparr>)),
       Some (ListEntitiesSwitchResponse (zero_ListEntitiesSwitchResponse\<lparr>
         SwitchInfo_Key := FamilySwitchKey, SwitchInfo_ObjectId := ''example_switch'',
         SwitchInfo_Name := ''Example Switch''\<rparr>)),
       Some (ListEntitiesNumberResponse (zero_ListEntitiesNumberResponse\<lparr>
         NumberInfo_Key := FamilyNumberKey, NumberInfo_ObjectId := ''example_number'',
         NumberInfo_Name := ''Example Number'', NumberInfo_MinValue := 0, NumberInfo_MaxValue := 0x42C80000,
         NumberInfo_Step := 0x3F800000\<rparr>)),
       Some (ListEntitiesButtonResponse (zero_ListEntitiesButtonResponse\<lparr>
         ButtonInfo_Key := FamilyButtonKey, ButtonInfo_ObjectId := ''example_button'',
         ButtonInfo_Name := ''Example Button''\<rparr>)),
       Some (ListEntitiesTextSensorResponse (zero_ListEntitiesTextSensorResponse\<lparr>
         TextSensorInfo_Key := FamilyTextSensorKey, TextSensorInfo_ObjectId := ''example_text'',
         TextSensorInfo_Name := ''Example Text''\<rparr>)),
       Some (ListEntitiesSensorResponse (zero_ListEntitiesSensorResponse\<lparr>
         SensorInfo_Key := FamilySensorKey, SensorInfo_ObjectId := ''example_sensor'',
         SensorInfo_Name := ''Example Sensor''\<rparr>)),
       Some (ListEntitiesBinarySensorResponse (zero_ListEntitiesBinarySensorResponse\<lparr>
         BinarySensorInfo_Key := FamilyBinaryKey, BinarySensorInfo_ObjectId := ''example_binary'',
         BinarySensorInfo_Name := ''Example Binary''\<rparr>))],
    sc_States :=
      [Some (FanStateResponse (zero_FanStateResponse\<lparr>
         FanState_Key := ConveyorFanKey, FanState_Direction := FAN_DIRECTION_FORWARD\<rparr>)),
       Some (BinarySensorStateResponse (zero_BinarySensorStateResponse\<lparr>BinarySensorState_Key := FamilyBinaryKey\<rparr>)),
       Some (SensorStateResponse (zero_SensorStateResponse\<lparr>SensorState_Key := FamilySensorKey\<rparr>)),
       Some (SwitchStateResponse (zero_SwitchStateResponse\<lparr>SwitchState_Key := FamilySwitchKey\<rparr>)),
       Some (NumberStateResponse (zero_NumberStateResponse\<lparr>NumberState_Key := FamilyNumberKey\<rparr>)),
       Some (TextSensorStateResponse (zero_TextSensorStateResponse\<lparr>
         TextSensorState_Key := FamilyTextSensorKey, TextSensorState_State := ''ready''\<rparr>)),
       Some (LightStateResponse (zero_LightStateResponse\<lparr>
         LightState_Key := StatusLightKey, LightState_ColorMode := COLOR_MODE_RGB\<rparr>))],
    sc_Logs := ready_log ''entity family simulator ready''\<rparr>"

definition builtin_scenarios :: "Scenario list" where
  "builtin_scenarios = [BasicIOScenario, BlinkScenario, ConveyorScenario, EntityFamilyScenario]"

section \<open>What a listing of a simulated device returns\<close>

text \<open>The messages a handler sends to its session.\<close>

definition sends :: "task list \<Rightarrow> message list" where
  "sends ts = List.map_filter (\<lambda>t. case t of Send m \<Rightarrow> Some m | _ \<Rightarrow> None) ts"

lemma sends_simps [simp]:
  "sends [] = []" "sends (Send m # ts) = m # sends ts" "sends (a @ b) = sends a @ sends b"
  "sends (map (\<lambda>e. Send (f e)) es) = map f es" "sends (ArmNetwork tr # ts) = sends ts"
  "sends (SendRaw i p # ts) = sends ts" "sends (Return # ts) = sends ts" "sends (Stall # ts) = sends ts"
  by (simp_all add: sends_def map_filter_simps map_filter_append)
    (induction es, simp_all add: map_filter_simps)

lemma entity_is_listed: "entityIdentity m \<noteq> None \<Longrightarrow> isListEntity (the m) \<and> the m \<noteq> ListEntitiesDoneResponse"
proof (cases m)
  case (Some msg)
  then show "entityIdentity m \<noteq> None \<Longrightarrow> ?thesis"
    by (cases msg) (simp_all add: entityIdentity_def isListEntity_def Let_def)
qed (simp add: entityIdentity_def)

lemma handleList_entities:
  assumes "list_all (\<lambda>m. isListEntity m \<and> m \<noteq> ListEntitiesDoneResponse) ms"
    and "cl_list c = Some a" "cl_lists c a = Some l"
  shows "cl_list (fold handleList ms c) = Some a \<and>
    cl_lists (fold handleList ms c) a = Some (l\<lparr>lr_messages := lr_messages l @ ms\<rparr>)"
  using assms by (induction ms arbitrary: c l) (auto simp: handleList_def)

lemma listing_gets_entities:
  assumes "scenario_ok pb (dv_scenario d)"
    and "list_all (\<lambda>f. ft_Trigger f \<noteq> FaultBeforeEntitiesDone) (sc_Faults (dv_scenario d))"
    and "cl_list c = Some a" "cl_lists c a = Some \<lparr>lr_messages = [], lr_done = False\<rparr>"
  shows "list_end a ListDone (fold handleList (sends (handler_tasks d ListEntitiesRequest)) c) =
    Some (Inr (map the (sc_Entities (dv_scenario d))),
      fold handleList (sends (handler_tasks d ListEntitiesRequest)) c)"
proof -
  let ?es = "map the (sc_Entities (dv_scenario d))"
  have "fault_tasks FaultBeforeEntitiesDone fs = []"
    if "list_all (\<lambda>f. ft_Trigger f \<noteq> FaultBeforeEntitiesDone) fs" for fs
    using that by (induction fs) auto
  with assms(2) have s: "sends (handler_tasks d ListEntitiesRequest) = ?es @ [ListEntitiesDoneResponse]"
    by (simp add: handler_tasks_def trigger_tasks_def)
  from assms(1) have "list_all (\<lambda>m. entityIdentity m \<noteq> None) (sc_Entities (dv_scenario d))"
    by (simp add: scenario_ok_def identified_def)
  then have "list_all (\<lambda>m. isListEntity m \<and> m \<noteq> ListEntitiesDoneResponse) ?es"
    using entity_is_listed by (simp add: list_all_iff)
  from handleList_entities[OF this assms(3,4)] show ?thesis
    by (simp add: s handleList_def list_end_def forget_list_def)
qed

lemma builtin_ok:
  assumes "sc \<in> set builtin_scenarios" and "list_all (\<lambda>m. pb_size pb m \<le> 4096) (scenario_messages sc)"
  shows "scenario_ok pb sc"
proof -
  have shape: "length (scenario_messages sc) \<le> 16 \<and> length (sc_Name sc) \<le> 100 \<and>
      list_all (\<lambda>n. n \<le> 100) [length (sc_Entities sc), length (sc_States sc), length (sc_InitialStates sc),
       length (sc_StateTimeline sc), length (sc_Logs sc), length (sc_Commands sc), length (sc_Faults sc),
       length (sc_Network sc)] \<and>
      sc_InitialStates sc = [] \<and> sc_StateTimeline sc = [] \<and> list_all (\<lambda>l. l \<noteq> None) (sc_Logs sc) \<and>
      sc_Commands sc = [] \<and> sc_Network sc = [] \<and>
      identified entityIdentity (sc_Entities sc) \<and> identified stateIdentityOf (sc_States sc)"
    using assms(1)
    by (auto simp: builtin_scenarios_def BasicIOScenario_def BlinkScenario_def ConveyorScenario_def
        EntityFamilyScenario_def bare_scenario_def ready_log_def scenario_messages_def messages_of_logs_def
        identified_def entityIdentity_def stateIdentityOf_def key_defs)
  have "sum_list (map (pb_size pb) ms) \<le> 4096 * length ms" if "list_all (\<lambda>m. pb_size pb m \<le> 4096) ms" for ms
    using that by (induction ms) auto
  from this[OF assms(2)] shape have "sum_list (map (pb_size pb) (scenario_messages sc)) \<le> MaxScenarioEncodedBytes"
    by (simp add: MaxScenarioEncodedBytes_def)
  moreover have "list_all (\<lambda>m. pb_size pb m \<le> MaxScenarioMessageBytes) (scenario_messages sc)"
    using assms(2) by (auto simp: list_all_iff MaxScenarioMessageBytes_def)
  ultimately show ?thesis
    using shape by (simp add: scenario_ok_def fits_budget_def timeline_ok_def identified_def
        MaxScenarioMessageBytes_def MaxScenarioItemsPerField_def)
qed

text \<open>Each built-in scenario is accepted by validation (given that none of its few short messages encodes
  to more than 4 KiB), and a client that lists the entities of a device with that scenario gets exactly the
  scenario's entities, in order, from what the device sends it.\<close>

theorem builtin_scenarios_are_served:
  assumes "sc \<in> set builtin_scenarios" and "list_all (\<lambda>m. pb_size pb m \<le> 4096) (scenario_messages sc)"
    and "d = new_device pb sc options x"
    and "cl_list c = Some a" and "cl_lists c a = Some \<lparr>lr_messages = [], lr_done = False\<rparr>"
  shows "Validate pb sc = None \<and>
    map_option fst (list_end a ListDone (fold handleList (sends (handler_tasks d ListEntitiesRequest)) c)) =
      Some (Inr (map the (sc_Entities sc)))"
proof -
  note ok = builtin_ok[OF assms(1,2)]
  have v: "Validate pb sc = None" using ok by (simp add: Validate_None_iff)
  have named: "sc_Name sc \<noteq> ''''" "sc_Faults sc = []"
    using assms(1) by (auto simp: builtin_scenarios_def BasicIOScenario_def BlinkScenario_def
        ConveyorScenario_def EntityFamilyScenario_def bare_scenario_def)
  with v have d: "dv_scenario d = sc" by (simp add: assms(3) new_device_def Let_def)
  have "list_end a ListDone (fold handleList (sends (handler_tasks d ListEntitiesRequest)) c) =
    Some (Inr (map the (sc_Entities (dv_scenario d))),
      fold handleList (sends (handler_tasks d ListEntitiesRequest)) c)"
    by (rule listing_gets_entities[OF _ _ assms(4,5)]) (use ok named d in simp_all)
  with v d show ?thesis by simp
qed

lemma builtin_scenarios_are_served_witness:
  "\<exists>c :: unit client. map_option fst (list_end 0 ListDone (fold handleList (sends (handler_tasks
      (new_device script_protobuf BlinkScenario [] (\<lambda>_. \<lparr>ds_framer = (), ds_subscribed = False,
        ds_logsSubscribed = False, ds_logLevel = 0\<rparr>)) ListEntitiesRequest)) c)) =
    Some (Inr (map the (sc_Entities BlinkScenario)))"
proof -
  let ?c = "(newClient () 1)\<lparr>cl_list := Some 0, cl_lists := [0 \<mapsto> \<lparr>lr_messages = [], lr_done = False\<rparr>]\<rparr>"
  have b: "BlinkScenario \<in> set builtin_scenarios" by (simp add: builtin_scenarios_def)
  have z: "list_all (\<lambda>m. pb_size script_protobuf m \<le> 4096) (scenario_messages BlinkScenario)"
    by (simp add: list_all_iff script_protobuf_def)
  have c: "cl_list ?c = Some 0" "cl_lists ?c 0 = Some \<lparr>lr_messages = [], lr_done = False\<rparr>" by simp_all
  from builtin_scenarios_are_served[OF b z refl c] show ?thesis by blast
qed

end
