(* ===== verification/Conveyor.thy ===== *)
theory Conveyor
  imports Scenarios
begin

text \<open>
  The conveyor firmware simulator (\<open>cmd/conveyor-sim-server/conveyor_device.go\<close>): the state that the goroutine
  \<open>run\<close> owns, one function per automation, and the steps of the loop.

  The device that the firmware drives is the list of what was pushed to it (\<open>cf_pushed\<close>, oldest first); the
  errors of the pushes are discarded by the code. \<open>time.AfterFunc\<close> is a list of armed timers, each with the tick
  it delivers and the earliest instant at which it may; a timer that has fired stays armed until its tick is taken
  from the channel, which covers every delay of the timer, of its goroutine and of the buffered channel. An
  instant is \<open>cf_now\<close>, in nanoseconds.
\<close>

section \<open>Timings\<close>

definition Millisecond :: int where "Millisecond = 1000000"
definition Second :: int where "Second = 1000 * Millisecond"

definition entryDebounce :: int where "entryDebounce = 400 * Millisecond"
definition exitReleaseDebounce :: int where "exitReleaseDebounce = 300 * Millisecond"
definition captureSettle :: int where "captureSettle = 500 * Millisecond"
definition captureSamples :: int where "captureSamples = 5"
definition captureInterval :: int where "captureInterval = 250 * Millisecond"
definition exitHoldTime :: int where "exitHoldTime = 3 * Second"
definition jamWithdraw :: int where "jamWithdraw = 15 * Second"
definition jamBackstop :: int where "jamBackstop = 5 * Second"
definition entryClearTime :: int where "entryClearTime = 250 * Millisecond"
definition betweenBricks :: int where "betweenBricks = Second"
definition minUsableSamples :: int where "minUsableSamples = 3"

record conveyorTimings =
  ct_entryDebounce :: int
  ct_exitReleaseDebounce :: int
  ct_captureSettle :: int
  ct_captureInterval :: int
  ct_exitHold :: int
  ct_jamWithdraw :: int
  ct_jamBackstop :: int
  ct_entryClear :: int
  ct_betweenBricks :: int

definition firmwareTimings :: conveyorTimings where
  "firmwareTimings =
    \<lparr>ct_entryDebounce = entryDebounce,
      ct_exitReleaseDebounce = exitReleaseDebounce,
      ct_captureSettle = captureSettle,
      ct_captureInterval = captureInterval,
      ct_exitHold = exitHoldTime,
      ct_jamWithdraw = jamWithdraw,
      ct_jamBackstop = jamBackstop,
      ct_entryClear = entryClearTime,
      ct_betweenBricks = betweenBricks\<rparr>"

text \<open>Go's integer division truncates toward zero, and panics on a zero divisor.\<close>

definition go_div :: "int \<Rightarrow> int \<Rightarrow> int option" where
  "go_div a b = (if b = 0 then None else Some (sgn a * sgn b * (\<bar>a\<bar> div \<bar>b\<bar>)))"

definition divided :: "conveyorTimings \<Rightarrow> int \<Rightarrow> conveyorTimings option" where
  "divided t factor =
    (if factor = 0 then None
     else Some
      \<lparr>ct_entryDebounce = the (go_div (ct_entryDebounce t) factor),
        ct_exitReleaseDebounce = the (go_div (ct_exitReleaseDebounce t) factor),
        ct_captureSettle = the (go_div (ct_captureSettle t) factor),
        ct_captureInterval = the (go_div (ct_captureInterval t) factor),
        ct_exitHold = the (go_div (ct_exitHold t) factor),
        ct_jamWithdraw = the (go_div (ct_jamWithdraw t) factor),
        ct_jamBackstop = the (go_div (ct_jamBackstop t) factor),
        ct_entryClear = the (go_div (ct_entryClear t) factor),
        ct_betweenBricks = the (go_div (ct_betweenBricks t) factor)\<rparr>)"

section \<open>Bricks, scripts, ticks\<close>

record brick =
  bk_name :: string
  bk_redRatio :: f32

text \<open>48, 29, 35 and 26 as \<open>float32\<close>.\<close>

definition brickRotation :: "brick list" where
  "brickRotation =
    [\<lparr>bk_name = ''red'', bk_redRatio = 0x42400000\<rparr>,
     \<lparr>bk_name = ''blue'', bk_redRatio = 0x41E80000\<rparr>,
     \<lparr>bk_name = ''yellow'', bk_redRatio = 0x420C0000\<rparr>,
     \<lparr>bk_name = ''green'', bk_redRatio = 0x41D00000\<rparr>]"

definition zero_brick :: brick where
  "zero_brick = \<lparr>bk_name = '''', bk_redRatio = 0\<rparr>"

datatype script =
  scriptRequestRun | scriptTravel | scriptCapture | scriptExitHold | scriptJam | scriptBench

record tick =
  tk_script :: script
  tk_gen :: int
  tk_step :: int

record timer =
  tm_at :: int
  tm_tick :: tick

datatype push = PushedState message | PushedLog SubscribeLogsResponse

section \<open>The firmware's state\<close>

record conveyorFirmware =
  cf_now :: int
  cf_armed :: "timer list"
  cf_pushed :: "push list"
  cf_gen :: "script \<Rightarrow> int"
  cf_entryOccupied :: bool
  cf_exitOccupied :: bool
  cf_motorOn :: bool
  cf_onBelt :: brick
  cf_atExit :: brick
  cf_enRoute :: bool
  cf_enRouteKnown :: bool
  cf_redRatio :: f32
  cf_ratioKnown :: bool
  cf_captureSampled :: int
  cf_cycles :: int
  cf_completed :: int
  cf_travel :: int
  cf_dwell :: int
  cf_timings :: conveyorTimings

definition newConveyorFirmware :: "int \<Rightarrow> int \<Rightarrow> int \<Rightarrow> int \<Rightarrow> conveyorFirmware" where
  "newConveyorFirmware now cycles travel dwell =
    \<lparr>cf_now = now, cf_armed = [], cf_pushed = [], cf_gen = (\<lambda>_. 0),
      cf_entryOccupied = False, cf_exitOccupied = False, cf_motorOn = False,
      cf_onBelt = zero_brick, cf_atExit = zero_brick,
      cf_enRoute = False, cf_enRouteKnown = False,
      cf_redRatio = ExitRedRatioNoReading, cf_ratioKnown = False,
      cf_captureSampled = 0,
      cf_cycles = cycles, cf_completed = 0, cf_travel = travel, cf_dwell = dwell,
      cf_timings = firmwareTimings\<rparr>"

section \<open>Timers\<close>

definition after :: "script \<Rightarrow> int \<Rightarrow> int \<Rightarrow> conveyorFirmware \<Rightarrow> conveyorFirmware" where
  "after s stp delay f =
    f\<lparr>cf_armed := cf_armed f @
      [\<lparr>tm_at = cf_now f + max 0 delay, tm_tick = \<lparr>tk_script = s, tk_gen = cf_gen f s, tk_step = stp\<rparr>\<rparr>]\<rparr>"

definition stop_script :: "script \<Rightarrow> conveyorFirmware \<Rightarrow> conveyorFirmware" where
  "stop_script s f = f\<lparr>cf_gen := (cf_gen f)(s := cf_gen f s + 1)\<rparr>"

definition restart :: "script \<Rightarrow> int \<Rightarrow> int \<Rightarrow> conveyorFirmware \<Rightarrow> conveyorFirmware" where
  "restart s stp delay f = after s stp delay (stop_script s f)"

section \<open>Publishing\<close>

text \<open>Go's \<open>==\<close> on \<open>float32\<close>: a NaN equals nothing, the two zeros are equal.\<close>

definition f32_is_nan :: "f32 \<Rightarrow> bool" where
  "f32_is_nan a \<longleftrightarrow> 0x7F800000 < a AND 0x7FFFFFFF"

definition f32_eq :: "f32 \<Rightarrow> f32 \<Rightarrow> bool" where
  "f32_eq a b \<longleftrightarrow> \<not> f32_is_nan a \<and> \<not> f32_is_nan b \<and> (a = b \<or> (a OR b) AND 0x7FFFFFFF = 0)"

definition PushState :: "message \<Rightarrow> conveyorFirmware \<Rightarrow> conveyorFirmware" where
  "PushState m f = f\<lparr>cf_pushed := cf_pushed f @ [PushedState m]\<rparr>"

definition log :: "i32 \<Rightarrow> string \<Rightarrow> conveyorFirmware \<Rightarrow> conveyorFirmware" where
  "log level line f = f\<lparr>cf_pushed := cf_pushed f @ [PushedLog
    (zero_SubscribeLogsResponse\<lparr>Log_Level := level, Log_Message := string_bytes line @ [10]\<rparr>)]\<rparr>"

definition en_route_state :: "bool \<Rightarrow> message" where
  "en_route_state state = BinarySensorStateResponse
    (zero_BinarySensorStateResponse\<lparr>BinarySensorState_Key := BrickEnRouteKey, BinarySensorState_State := state\<rparr>)"

definition ratio_state :: "f32 \<Rightarrow> message" where
  "ratio_state ratio = SensorStateResponse
    (zero_SensorStateResponse\<lparr>SensorState_Key := ExitRedRatioKey, SensorState_State := ratio\<rparr>)"

definition motor_off_state :: message where
  "motor_off_state = FanStateResponse (zero_FanStateResponse\<lparr>FanState_Key := ConveyorFanKey,
    FanState_State := False, FanState_Direction := FAN_DIRECTION_FORWARD\<rparr>)"

definition publishEnRoute :: "bool \<Rightarrow> conveyorFirmware \<Rightarrow> conveyorFirmware" where
  "publishEnRoute state f =
    (if cf_enRouteKnown f \<and> state = cf_enRoute f then f
     else PushState (en_route_state state) (f\<lparr>cf_enRoute := state, cf_enRouteKnown := True\<rparr>))"

definition publishRatio :: "f32 \<Rightarrow> conveyorFirmware \<Rightarrow> conveyorFirmware" where
  "publishRatio ratio f =
    (if cf_ratioKnown f \<and> f32_eq ratio (cf_redRatio f) then f
     else PushState (ratio_state ratio) (f\<lparr>cf_redRatio := ratio, cf_ratioKnown := True\<rparr>))"

section \<open>Formatting\<close>

text \<open>\<open>%d\<close>, and \<open>%.1f\<close> of a \<open>float32\<close>: the exact value times ten, rounded half to even.\<close>

fun fmt_nat :: "nat \<Rightarrow> string" where
  "fmt_nat n = (if n < 10 then [] else fmt_nat (n div 10)) @ [char_of (48 + n mod 10)]"

definition fmt_d :: "int \<Rightarrow> string" where
  "fmt_d i = (if i < 0 then ''-'' else []) @ fmt_nat (nat \<bar>i\<bar>)"

definition round_half_even :: "nat \<Rightarrow> nat \<Rightarrow> nat" where
  "round_half_even n d =
    (let q = n div d; r = 2 * (n mod d) in if d < r \<or> (r = d \<and> odd q) then q + 1 else q)"

definition fmt_1f :: "f32 \<Rightarrow> string" where
  "fmt_1f a =
    (let minus = (if 0x80000000 \<le> a then ''-'' else []);
         expo = unat (drop_bit 23 a AND 0xFF);
         frac = unat (a AND 0x7FFFFF);
         sig = (if expo = 0 then frac else frac + 2 ^ 23);
         ex = max 1 expo;
         tenths = (if 150 \<le> ex then sig * 10 * 2 ^ (ex - 150) else round_half_even (sig * 10) (2 ^ (150 - ex)))
     in if expo = 255 then (if frac = 0 then (if minus = [] then ''+Inf'' else ''-Inf'') else ''NaN'')
        else minus @ fmt_nat (tenths div 10) @ ''.'' @ fmt_nat (tenths mod 10))"

section \<open>Automations\<close>

definition benchPlace :: int where "benchPlace = 0"
definition benchLift :: int where "benchLift = 1"
definition benchReleased :: int where "benchReleased = 2"
definition travelClearEntry :: int where "travelClearEntry = 0"
definition travelArrive :: int where "travelArrive = 1"

definition LOG_LEVEL_WARN :: i32 where "LOG_LEVEL_WARN = 2"

definition onBench :: "int \<Rightarrow> conveyorFirmware \<Rightarrow> conveyorFirmware" where
  "onBench stp f =
    (if stp = benchPlace then
       let b = brickRotation ! nat (cf_completed f mod int (length brickRotation));
           f1 = f\<lparr>cf_onBelt := b, cf_entryOccupied := True\<rparr>;
           f2 = log LOG_LEVEL_INFO (''operator placed a '' @ bk_name b @ '' brick on the entry'') f1
       in restart scriptRequestRun 0 (ct_entryDebounce (cf_timings f)) f2
     else if stp = benchLift then
       let f1 = log LOG_LEVEL_INFO (''operator lifted the '' @ bk_name (cf_atExit f) @ '' brick off the exit'') f;
           f2 = f1\<lparr>cf_exitOccupied := False\<rparr>;
           f3 = stop_script scriptCapture f2
       in restart scriptBench benchReleased (ct_exitReleaseDebounce (cf_timings f)) f3
     else if stp = benchReleased then
       let f1 = publishRatio ExitRedRatioNoReading f;
           f2 = f1\<lparr>cf_completed := cf_completed f1 + 1\<rparr>
       in if cf_cycles f2 \<le> 0 \<or> cf_completed f2 < cf_cycles f2
          then after scriptBench benchPlace (ct_betweenBricks (cf_timings f)) f2
          else log LOG_LEVEL_INFO (''bench sequence finished after '' @ fmt_d (cf_completed f2) @ '' '' @
            (if cf_completed f2 = 1 then ''brick'' else ''bricks'')) f2
     else f)"

definition onArrival :: "conveyorFirmware \<Rightarrow> conveyorFirmware" where
  "onArrival f =
    (let f1 = f\<lparr>cf_exitOccupied := True, cf_atExit := cf_onBelt f\<rparr>;
         f2 = publishEnRoute False (stop_script scriptJam f1);
         f3 = f2\<lparr>cf_captureSampled := 0\<rparr>;
         f4 = restart scriptCapture 0 (ct_captureSettle (cf_timings f)) f3
     in restart scriptExitHold 0 (ct_exitHold (cf_timings f)) f4)"

definition onTravel :: "int \<Rightarrow> conveyorFirmware \<Rightarrow> conveyorFirmware" where
  "onTravel stp f =
    (if stp = travelClearEntry
     then after scriptTravel travelArrive (cf_travel f) (f\<lparr>cf_entryOccupied := False\<rparr>)
     else if stp = travelArrive then onArrival f
     else f)"

definition onCapture :: "int \<Rightarrow> conveyorFirmware \<Rightarrow> conveyorFirmware" where
  "onCapture stp f =
    (if stp < captureSamples then
       let f1 = (if cf_exitOccupied f then f\<lparr>cf_captureSampled := cf_captureSampled f + 1\<rparr> else f)
       in after scriptCapture (stp + 1) (ct_captureInterval (cf_timings f)) f1
     else if cf_captureSampled f < minUsableSamples then
       publishRatio ExitRedRatioNoReading (log LOG_LEVEL_WARN (''Colour capture rejected: '' @ fmt_d (cf_captureSampled f) @ '' usable samples'') f)
     else
       let f1 = log LOG_LEVEL_INFO (''Exit red ratio '' @ fmt_1f (bk_redRatio (cf_atExit f)) @ ''% from '' @
           fmt_d (cf_captureSampled f) @ '' samples'') f;
           f2 = publishRatio (bk_redRatio (cf_atExit f)) f1
       in after scriptBench benchLift (cf_dwell f) f2)"

definition onJam :: "int \<Rightarrow> conveyorFirmware \<Rightarrow> conveyorFirmware" where
  "onJam stp f =
    (if stp = 0 then
       after scriptJam 1 (ct_jamBackstop (cf_timings f))
         (log LOG_LEVEL_INFO ''No brick reached the exit in 15s; withdrawing the run request''
           (publishEnRoute False f))
     else if stp = 1 then
       if \<not> cf_motorOn f then f
       else PushState motor_off_state
         (log LOG_LEVEL_WARN
           ''Belt stopped by the firmware backstop: mgmt did not react to the withdrawn run request''
           (f\<lparr>cf_motorOn := False\<rparr>))
     else f)"

definition onFanCommand :: "bool \<Rightarrow> conveyorFirmware \<Rightarrow> conveyorFirmware" where
  "onFanCommand state f =
    (if state = cf_motorOn f then f
     else let f1 = f\<lparr>cf_motorOn := state\<rparr>
       in if \<not> state then stop_script scriptTravel (stop_script scriptJam f1)
          else let f2 = restart scriptJam 0 (ct_jamWithdraw (cf_timings f)) f1
            in if cf_entryOccupied f2
               then restart scriptTravel travelClearEntry (ct_entryClear (cf_timings f)) f2
               else f2)"

definition onTick :: "tick \<Rightarrow> conveyorFirmware \<Rightarrow> conveyorFirmware" where
  "onTick t f =
    (case tk_script t of
       scriptBench \<Rightarrow> onBench (tk_step t) f
     | scriptRequestRun \<Rightarrow> if cf_entryOccupied f then publishEnRoute True f else f
     | scriptTravel \<Rightarrow> onTravel (tk_step t) f
     | scriptCapture \<Rightarrow> onCapture (tk_step t) f
     | scriptExitHold \<Rightarrow>
         if cf_entryOccupied f \<and> \<not> cf_enRoute f then restart scriptRequestRun 0 0 f else f
     | scriptJam \<Rightarrow> onJam (tk_step t) f)"

section \<open>The loop\<close>

definition boot :: "conveyorFirmware \<Rightarrow> conveyorFirmware" where
  "boot f = restart scriptBench benchPlace (ct_betweenBricks (cf_timings f))
    (publishRatio ExitRedRatioNoReading (publishEnRoute False f))"

definition on_command :: "message \<Rightarrow> conveyorFirmware \<Rightarrow> conveyorFirmware" where
  "on_command m f =
    (case m of
       FanCommandRequest r \<Rightarrow> if FanCmd_Key r = ConveyorFanKey then onFanCommand (FanCmd_State r) f else f
     | _ \<Rightarrow> f)"

definition on_tick_received :: "tick \<Rightarrow> conveyorFirmware \<Rightarrow> conveyorFirmware" where
  "on_tick_received t f = (if tk_gen t \<noteq> cf_gen f (tk_script t) then f else onTick t f)"

text \<open>What the goroutine may do next: time passes, a command arrives, or a timer that is due delivers its tick. The
  commands channel closing ends the loop.\<close>

datatype event = Elapse int | Command message | Tick nat

definition without_timer :: "nat \<Rightarrow> conveyorFirmware \<Rightarrow> conveyorFirmware" where
  "without_timer i f = f\<lparr>cf_armed := take i (cf_armed f) @ drop (Suc i) (cf_armed f)\<rparr>"

definition step_event :: "event \<Rightarrow> conveyorFirmware \<Rightarrow> conveyorFirmware option" where
  "step_event e f =
    (case e of
       Elapse dt \<Rightarrow> if 0 \<le> dt then Some (f\<lparr>cf_now := cf_now f + dt\<rparr>) else None
     | Command m \<Rightarrow> Some (on_command m f)
     | Tick i \<Rightarrow>
         if i < length (cf_armed f) \<and> tm_at (cf_armed f ! i) \<le> cf_now f
         then Some (on_tick_received (tm_tick (cf_armed f ! i)) (without_timer i f))
         else None)"

fun run :: "event list \<Rightarrow> conveyorFirmware \<Rightarrow> conveyorFirmware option" where
  "run [] f = Some f"
| "run (e # es) f = (case step_event e f of None \<Rightarrow> None | Some f' \<Rightarrow> run es f')"

inductive reached :: "conveyorFirmware \<Rightarrow> bool" where
  booted: "reached (boot (newConveyorFirmware now cycles travel dwell))"
| stepped: "reached f \<Longrightarrow> step_event e f = Some f' \<Longrightarrow> reached f'"


declare fmt_nat.simps [simp del]

lemma formats_the_rotation:
  "map (fmt_1f \<circ> bk_redRatio) brickRotation = [''48.0'', ''29.0'', ''35.0'', ''26.0'']"
  by (simp add: brickRotation_def fmt_1f_def round_half_even_def fmt_nat.simps Let_def char_of_def bit_0)

section \<open>Live timers\<close>

text \<open>The steps of the armed timers of a script's current generation, oldest first. Every other timer is stale.\<close>

definition live_steps :: "timer list \<Rightarrow> (script \<Rightarrow> int) \<Rightarrow> script \<Rightarrow> int list" where
  "live_steps ts gen s = map (tk_step \<circ> tm_tick)
    (filter (\<lambda>t. tk_script (tm_tick t) = s \<and> tk_gen (tm_tick t) = gen s) ts)"

definition live :: "conveyorFirmware \<Rightarrow> script \<Rightarrow> int list" where
  "live f = live_steps (cf_armed f) (cf_gen f)"

definition gens_ok :: "conveyorFirmware \<Rightarrow> bool" where
  "gens_ok f \<longleftrightarrow> list_all (\<lambda>t. tk_gen (tm_tick t) \<le> cf_gen f (tk_script (tm_tick t))) (cf_armed f)"

lemma live_after [simp]:
  "live (after s stp delay f) s' = (if s' = s then live f s @ [stp] else live f s')"
  by (auto simp: after_def live_def live_steps_def)

lemma live_stop [simp]:
  assumes "gens_ok f"
  shows "live (stop_script s f) s' = (if s' = s then [] else live f s')"
proof -
  from assms have "filter (\<lambda>t. tk_script (tm_tick t) = s \<and> tk_gen (tm_tick t) = cf_gen f s + 1) (cf_armed f) = []"
    by (auto simp: gens_ok_def list_all_iff filter_empty_conv)
  then show ?thesis by (simp add: stop_script_def live_def live_steps_def)
qed

lemma gens_ok_after [simp]: "gens_ok (after s stp delay f) = gens_ok f"
  by (simp add: gens_ok_def after_def)

lemma gens_ok_stop [simp]: "gens_ok f \<Longrightarrow> gens_ok (stop_script s f)"
  by (auto simp: gens_ok_def stop_script_def list_all_iff intro: order.trans)

lemma live_restart [simp]:
  "gens_ok f \<Longrightarrow> live (restart s stp delay f) s' = (if s' = s then [stp] else live f s')"
  by (simp add: restart_def)

lemma gens_ok_restart [simp]: "gens_ok f \<Longrightarrow> gens_ok (restart s stp delay f)"
  by (simp add: restart_def)

text \<open>The fields that the helpers leave alone.\<close>

lemma timer_frame [simp]:
  "cf_now (after s stp delay f) = cf_now f" "cf_pushed (after s stp delay f) = cf_pushed f"
  "cf_entryOccupied (after s stp delay f) = cf_entryOccupied f" "cf_exitOccupied (after s stp delay f) = cf_exitOccupied f"
  "cf_motorOn (after s stp delay f) = cf_motorOn f" "cf_onBelt (after s stp delay f) = cf_onBelt f"
  "cf_atExit (after s stp delay f) = cf_atExit f" "cf_enRoute (after s stp delay f) = cf_enRoute f"
  "cf_enRouteKnown (after s stp delay f) = cf_enRouteKnown f" "cf_redRatio (after s stp delay f) = cf_redRatio f"
  "cf_ratioKnown (after s stp delay f) = cf_ratioKnown f" "cf_captureSampled (after s stp delay f) = cf_captureSampled f"
  "cf_cycles (after s stp delay f) = cf_cycles f" "cf_completed (after s stp delay f) = cf_completed f"
  "cf_timings (after s stp delay f) = cf_timings f" "cf_gen (after s stp delay f) = cf_gen f"
  by (simp_all add: after_def)

lemma stop_frame [simp]:
  "cf_now (stop_script s f) = cf_now f" "cf_pushed (stop_script s f) = cf_pushed f"
  "cf_entryOccupied (stop_script s f) = cf_entryOccupied f" "cf_exitOccupied (stop_script s f) = cf_exitOccupied f"
  "cf_motorOn (stop_script s f) = cf_motorOn f" "cf_onBelt (stop_script s f) = cf_onBelt f"
  "cf_atExit (stop_script s f) = cf_atExit f" "cf_enRoute (stop_script s f) = cf_enRoute f"
  "cf_enRouteKnown (stop_script s f) = cf_enRouteKnown f" "cf_redRatio (stop_script s f) = cf_redRatio f"
  "cf_ratioKnown (stop_script s f) = cf_ratioKnown f" "cf_captureSampled (stop_script s f) = cf_captureSampled f"
  "cf_cycles (stop_script s f) = cf_cycles f" "cf_completed (stop_script s f) = cf_completed f"
  "cf_timings (stop_script s f) = cf_timings f" "cf_armed (stop_script s f) = cf_armed f"
  by (simp_all add: stop_script_def)

lemma restart_frame [simp]:
  "cf_now (restart s stp delay f) = cf_now f" "cf_pushed (restart s stp delay f) = cf_pushed f"
  "cf_entryOccupied (restart s stp delay f) = cf_entryOccupied f"
  "cf_exitOccupied (restart s stp delay f) = cf_exitOccupied f"
  "cf_motorOn (restart s stp delay f) = cf_motorOn f" "cf_onBelt (restart s stp delay f) = cf_onBelt f"
  "cf_atExit (restart s stp delay f) = cf_atExit f" "cf_enRoute (restart s stp delay f) = cf_enRoute f"
  "cf_enRouteKnown (restart s stp delay f) = cf_enRouteKnown f" "cf_redRatio (restart s stp delay f) = cf_redRatio f"
  "cf_ratioKnown (restart s stp delay f) = cf_ratioKnown f"
  "cf_captureSampled (restart s stp delay f) = cf_captureSampled f"
  "cf_cycles (restart s stp delay f) = cf_cycles f" "cf_completed (restart s stp delay f) = cf_completed f"
  "cf_timings (restart s stp delay f) = cf_timings f"
  by (simp_all add: restart_def)

lemma publish_frame [simp]:
  "cf_now (publishEnRoute b f) = cf_now f" "cf_armed (publishEnRoute b f) = cf_armed f"
  "cf_gen (publishEnRoute b f) = cf_gen f" "cf_entryOccupied (publishEnRoute b f) = cf_entryOccupied f"
  "cf_exitOccupied (publishEnRoute b f) = cf_exitOccupied f" "cf_motorOn (publishEnRoute b f) = cf_motorOn f"
  "cf_onBelt (publishEnRoute b f) = cf_onBelt f" "cf_atExit (publishEnRoute b f) = cf_atExit f"
  "cf_redRatio (publishEnRoute b f) = cf_redRatio f" "cf_ratioKnown (publishEnRoute b f) = cf_ratioKnown f"
  "cf_captureSampled (publishEnRoute b f) = cf_captureSampled f" "cf_cycles (publishEnRoute b f) = cf_cycles f"
  "cf_completed (publishEnRoute b f) = cf_completed f" "cf_timings (publishEnRoute b f) = cf_timings f"
  "cf_now (publishRatio r f) = cf_now f" "cf_armed (publishRatio r f) = cf_armed f"
  "cf_gen (publishRatio r f) = cf_gen f" "cf_entryOccupied (publishRatio r f) = cf_entryOccupied f"
  "cf_exitOccupied (publishRatio r f) = cf_exitOccupied f" "cf_motorOn (publishRatio r f) = cf_motorOn f"
  "cf_onBelt (publishRatio r f) = cf_onBelt f" "cf_atExit (publishRatio r f) = cf_atExit f"
  "cf_enRoute (publishRatio r f) = cf_enRoute f" "cf_enRouteKnown (publishRatio r f) = cf_enRouteKnown f"
  "cf_captureSampled (publishRatio r f) = cf_captureSampled f" "cf_cycles (publishRatio r f) = cf_cycles f"
  "cf_completed (publishRatio r f) = cf_completed f" "cf_timings (publishRatio r f) = cf_timings f"
  by (simp_all add: publishEnRoute_def publishRatio_def PushState_def)

lemma log_frame [simp]:
  "cf_now (log v l f) = cf_now f" "cf_armed (log v l f) = cf_armed f" "cf_gen (log v l f) = cf_gen f"
  "cf_entryOccupied (log v l f) = cf_entryOccupied f" "cf_exitOccupied (log v l f) = cf_exitOccupied f"
  "cf_motorOn (log v l f) = cf_motorOn f" "cf_onBelt (log v l f) = cf_onBelt f" "cf_atExit (log v l f) = cf_atExit f"
  "cf_enRoute (log v l f) = cf_enRoute f" "cf_enRouteKnown (log v l f) = cf_enRouteKnown f"
  "cf_redRatio (log v l f) = cf_redRatio f" "cf_ratioKnown (log v l f) = cf_ratioKnown f"
  "cf_captureSampled (log v l f) = cf_captureSampled f" "cf_cycles (log v l f) = cf_cycles f"
  "cf_completed (log v l f) = cf_completed f" "cf_timings (log v l f) = cf_timings f"
  by (simp_all add: log_def)

lemma push_frame [simp]:
  "cf_now (PushState m f) = cf_now f" "cf_armed (PushState m f) = cf_armed f" "cf_gen (PushState m f) = cf_gen f"
  "cf_entryOccupied (PushState m f) = cf_entryOccupied f" "cf_exitOccupied (PushState m f) = cf_exitOccupied f"
  "cf_motorOn (PushState m f) = cf_motorOn f" "cf_onBelt (PushState m f) = cf_onBelt f"
  "cf_atExit (PushState m f) = cf_atExit f"
  "cf_enRoute (PushState m f) = cf_enRoute f" "cf_enRouteKnown (PushState m f) = cf_enRouteKnown f"
  "cf_redRatio (PushState m f) = cf_redRatio f" "cf_ratioKnown (PushState m f) = cf_ratioKnown f"
  "cf_captureSampled (PushState m f) = cf_captureSampled f" "cf_cycles (PushState m f) = cf_cycles f"
  "cf_completed (PushState m f) = cf_completed f" "cf_timings (PushState m f) = cf_timings f"
  by (simp_all add: PushState_def)

lemma live_frame [simp]:
  "live (publishEnRoute b f) = live f" "live (publishRatio r f) = live f"
  "live (log v l f) = live f" "live (PushState m f) = live f"
  "live (f\<lparr>cf_entryOccupied := b\<rparr>) = live f" "live (f\<lparr>cf_exitOccupied := b\<rparr>) = live f"
  "live (f\<lparr>cf_motorOn := b\<rparr>) = live f" "live (f\<lparr>cf_onBelt := k\<rparr>) = live f"
  "live (f\<lparr>cf_atExit := k\<rparr>) = live f" "live (f\<lparr>cf_captureSampled := c\<rparr>) = live f"
  "live (f\<lparr>cf_completed := c\<rparr>) = live f" "live (f\<lparr>cf_now := c\<rparr>) = live f"
  by (simp_all add: live_def)

lemma gens_ok_frame [simp]:
  "gens_ok (publishEnRoute b f) = gens_ok f" "gens_ok (publishRatio r f) = gens_ok f"
  "gens_ok (log v l f) = gens_ok f" "gens_ok (PushState m f) = gens_ok f"
  by (simp_all add: gens_ok_def)

section \<open>The bench as a state machine\<close>

text \<open>Where the bench sequence stands, read off the sensors and the live timers.\<close>

datatype phase = Placing | AtEntry | Moving | Measuring int | Dwelling | Releasing | Idle

definition phase :: "conveyorFirmware \<Rightarrow> phase" where
  "phase f =
    (case live f scriptBench of
       s # _ \<Rightarrow> if s = benchPlace then Placing else if s = benchLift then Dwelling else Releasing
     | [] \<Rightarrow>
         if cf_entryOccupied f then AtEntry
         else if live f scriptTravel \<noteq> [] then Moving
         else (case live f scriptCapture of j # _ \<Rightarrow> Measuring j | [] \<Rightarrow> Idle))"

text \<open>The state that belongs to each phase: at most one brick is under way, and it is in one place.\<close>

fun shape :: "phase \<Rightarrow> int list \<Rightarrow> int list \<Rightarrow> int list \<Rightarrow> bool \<Rightarrow> bool \<Rightarrow> int \<Rightarrow> bool" where
  "shape Placing b t c en ex k \<longleftrightarrow> b = [benchPlace] \<and> t = [] \<and> c = [] \<and> \<not> en \<and> \<not> ex"
| "shape AtEntry b t c en ex k \<longleftrightarrow> b = [] \<and> (t = [] \<or> t = [travelClearEntry]) \<and> c = [] \<and> en \<and> \<not> ex"
| "shape Moving b t c en ex k \<longleftrightarrow> b = [] \<and> t = [travelArrive] \<and> c = [] \<and> \<not> en \<and> \<not> ex"
| "shape (Measuring j) b t c en ex k \<longleftrightarrow>
     b = [] \<and> t = [] \<and> c = [j] \<and> 0 \<le> j \<and> j \<le> captureSamples \<and> k = j \<and> \<not> en \<and> ex"
| "shape Dwelling b t c en ex k \<longleftrightarrow> b = [benchLift] \<and> t = [] \<and> c = [] \<and> \<not> en \<and> ex"
| "shape Releasing b t c en ex k \<longleftrightarrow> b = [benchReleased] \<and> t = [] \<and> c = [] \<and> \<not> en \<and> \<not> ex"
| "shape Idle b t c en ex k \<longleftrightarrow> b = [] \<and> t = [] \<and> c = [] \<and> \<not> en \<and> \<not> ex"

definition bench_shape :: "phase \<Rightarrow> conveyorFirmware \<Rightarrow> bool" where
  "bench_shape p f \<longleftrightarrow> shape p (live f scriptBench) (live f scriptTravel) (live f scriptCapture)
    (cf_entryOccupied f) (cf_exitOccupied f) (cf_captureSampled f)"

lemma bench_shape_phase: "bench_shape p f \<Longrightarrow> phase f = p"
  by (cases p) (auto simp: bench_shape_def phase_def benchPlace_def benchLift_def benchReleased_def)

text \<open>The moves of the bench. Stopping the belt while the brick is between the sensors loses it.\<close>

inductive bench_move :: "phase \<Rightarrow> phase \<Rightarrow> bool" where
  "bench_move Placing AtEntry"
| "bench_move AtEntry Moving"
| "bench_move Moving (Measuring 0)"
| "j < captureSamples \<Longrightarrow> bench_move (Measuring j) (Measuring (j + 1))"
| "bench_move (Measuring captureSamples) Dwelling"
| "bench_move Dwelling Releasing"
| "bench_move Releasing Placing"
| "bench_move Releasing Idle"
| "bench_move Moving Idle"

section \<open>Live timers of a received tick\<close>

lemma without_frame [simp]:
  "cf_now (without_timer i f) = cf_now f" "cf_pushed (without_timer i f) = cf_pushed f"
  "cf_gen (without_timer i f) = cf_gen f"
  "cf_entryOccupied (without_timer i f) = cf_entryOccupied f" "cf_exitOccupied (without_timer i f) = cf_exitOccupied f"
  "cf_motorOn (without_timer i f) = cf_motorOn f" "cf_onBelt (without_timer i f) = cf_onBelt f"
  "cf_atExit (without_timer i f) = cf_atExit f" "cf_enRoute (without_timer i f) = cf_enRoute f"
  "cf_enRouteKnown (without_timer i f) = cf_enRouteKnown f" "cf_redRatio (without_timer i f) = cf_redRatio f"
  "cf_ratioKnown (without_timer i f) = cf_ratioKnown f" "cf_captureSampled (without_timer i f) = cf_captureSampled f"
  "cf_cycles (without_timer i f) = cf_cycles f" "cf_completed (without_timer i f) = cf_completed f"
  "cf_timings (without_timer i f) = cf_timings f"
  by (simp_all add: without_timer_def)

lemma live_split:
  assumes "i < length (cf_armed f)" and "t = tm_tick (cf_armed f ! i)"
  shows "\<exists>l r. live f s = l @ (if s = tk_script t \<and> tk_gen t = cf_gen f s then [tk_step t] else []) @ r \<and>
    live (without_timer i f) s = l @ r"
proof -
  let ?a = "take i (cf_armed f)" and ?b = "drop (Suc i) (cf_armed f)" and ?g = "cf_gen f"
  have "cf_armed f = ?a @ cf_armed f ! i # ?b" using assms(1) by (simp add: id_take_nth_drop)
  then have "live f s = live_steps (?a @ cf_armed f ! i # ?b) ?g s" by (simp add: live_def)
  also have "\<dots> = live_steps ?a ?g s @
      (if s = tk_script t \<and> tk_gen t = ?g s then [tk_step t] else []) @ live_steps ?b ?g s"
    using assms(2) by (auto simp: live_steps_def)
  finally show ?thesis by (auto simp: live_def without_timer_def live_steps_def)
qed

text \<open>A stale tick and a tick of another script leave a script's live timers as they are.\<close>

lemma live_unaffected:
  assumes "i < length (cf_armed f)" and "t = tm_tick (cf_armed f ! i)"
    and "s \<noteq> tk_script t \<or> tk_gen t \<noteq> cf_gen f (tk_script t)"
  shows "live (without_timer i f) s = live f s"
  using live_split[OF assms(1,2), of s] assms(3) by auto

text \<open>A single live timer of a script is consumed by the tick it delivers.\<close>

lemma live_consumed:
  assumes "i < length (cf_armed f)" and "t = tm_tick (cf_armed f ! i)" and "tk_gen t = cf_gen f (tk_script t)"
    and "length (live f (tk_script t)) \<le> 1"
  shows "live f (tk_script t) = [tk_step t]" and "live (without_timer i f) (tk_script t) = []"
  using live_split[OF assms(1,2), of "tk_script t"] assms(3,4) by auto

lemma gens_ok_without [simp]: "gens_ok f \<Longrightarrow> gens_ok (without_timer i f)"
  by (auto simp: gens_ok_def without_timer_def list_all_iff dest: in_set_takeD in_set_dropD)

lemma gens_ok_update [simp]:
  "gens_ok (f\<lparr>cf_entryOccupied := b\<rparr>) = gens_ok f" "gens_ok (f\<lparr>cf_exitOccupied := b\<rparr>) = gens_ok f"
  "gens_ok (f\<lparr>cf_motorOn := b\<rparr>) = gens_ok f" "gens_ok (f\<lparr>cf_onBelt := k\<rparr>) = gens_ok f"
  "gens_ok (f\<lparr>cf_atExit := k\<rparr>) = gens_ok f" "gens_ok (f\<lparr>cf_captureSampled := c\<rparr>) = gens_ok f"
  "gens_ok (f\<lparr>cf_completed := c\<rparr>) = gens_ok f" "gens_ok (f\<lparr>cf_now := c\<rparr>) = gens_ok f"
  by (simp_all add: gens_ok_def)

lemmas tick_defs = onTick_def onBench_def onTravel_def onCapture_def onJam_def onArrival_def Let_def

lemmas step_numbers = benchPlace_def benchLift_def benchReleased_def travelClearEntry_def travelArrive_def
  captureSamples_def minUsableSamples_def

section \<open>Every step keeps the bench in one of its phases\<close>

lemma gens_ok_onTick: "gens_ok f \<Longrightarrow> gens_ok (onTick t f)"
  by (cases "tk_script t") (simp_all add: tick_defs)

lemma gens_ok_command: "gens_ok f \<Longrightarrow> gens_ok (on_command m f)"
  by (cases m) (simp_all add: on_command_def onFanCommand_def Let_def)

text \<open>The tick of a live timer, by phase: either it is the one live timer of the bench, the travel and the capture
  scripts and does that phase's work, or it belongs to one of the other scripts.\<close>

lemma tick_elim:
  assumes g: "gens_ok f" and sh: "bench_shape p f" and i: "i < length (cf_armed f)" "t = tm_tick (cf_armed f ! i)"
    and cur: "tk_gen t = cf_gen f (tk_script t)"
  obtains (bench) "p = Placing \<and> tk_step t = benchPlace \<or> p = Dwelling \<and> tk_step t = benchLift \<or>
      p = Releasing \<and> tk_step t = benchReleased" "onTick t (without_timer i f) = onBench (tk_step t) (without_timer i f)"
      "\<And>s. s = scriptBench \<or> s = scriptTravel \<or> s = scriptCapture \<Longrightarrow> live (without_timer i f) s = []"
  | (travel) "p = AtEntry \<and> tk_step t = travelClearEntry \<or> p = Moving \<and> tk_step t = travelArrive"
      "onTick t (without_timer i f) = onTravel (tk_step t) (without_timer i f)"
      "\<And>s. s = scriptBench \<or> s = scriptTravel \<or> s = scriptCapture \<Longrightarrow> live (without_timer i f) s = []"
  | (capture) j where "p = Measuring j" "0 \<le> j" "j \<le> captureSamples" "cf_captureSampled f = j"
      "onTick t (without_timer i f) = onCapture j (without_timer i f)"
      "\<And>s. s = scriptBench \<or> s = scriptTravel \<or> s = scriptCapture \<Longrightarrow> live (without_timer i f) s = []"
  | (side) "tk_script t = scriptRequestRun \<or> tk_script t = scriptExitHold \<or> tk_script t = scriptJam"
      "\<And>s. s = scriptBench \<or> s = scriptTravel \<or> s = scriptCapture \<Longrightarrow> live (without_timer i f) s = live f s"
proof -
  let ?f0 = "without_timer i f"
  have other: "live ?f0 s = live f s" if "s \<noteq> tk_script t" for s
    using live_unaffected[OF i] that by blast
  note sh' = sh[unfolded bench_shape_def]
  have one: "length (live f s) \<le> 1" if "s = scriptBench \<or> s = scriptTravel \<or> s = scriptCapture" for s
    using that sh' by (cases p) auto
  consider "tk_script t = scriptBench" | "tk_script t = scriptTravel" | "tk_script t = scriptCapture"
    | "tk_script t = scriptRequestRun \<or> tk_script t = scriptExitHold \<or> tk_script t = scriptJam"
    by (cases "tk_script t") auto
  then show ?thesis
  proof cases
    case 1
    with live_consumed[OF i cur] one have l: "live f scriptBench = [tk_step t]" "live ?f0 scriptBench = []" by simp_all
    have "live ?f0 scriptTravel = []" "live ?f0 scriptCapture = []"
      using 1 other sh' l by (cases p; simp)+
    moreover have "p = Placing \<and> tk_step t = benchPlace \<or> p = Dwelling \<and> tk_step t = benchLift \<or>
        p = Releasing \<and> tk_step t = benchReleased"
      using sh' l by (cases p) simp_all
    ultimately show ?thesis using 1 l by (intro bench) (auto simp: onTick_def)
  next
    case 2
    with live_consumed[OF i cur] one have l: "live f scriptTravel = [tk_step t]" "live ?f0 scriptTravel = []"
      by simp_all
    have "live ?f0 scriptBench = []" "live ?f0 scriptCapture = []"
      using 2 other sh' l by (cases p; simp)+
    moreover have "p = AtEntry \<and> tk_step t = travelClearEntry \<or> p = Moving \<and> tk_step t = travelArrive"
      using sh' l by (cases p) simp_all
    ultimately show ?thesis using 2 l by (intro travel) (auto simp: onTick_def)
  next
    case 3
    with live_consumed[OF i cur] one have l: "live f scriptCapture = [tk_step t]" "live ?f0 scriptCapture = []"
      by simp_all
    have e: "live ?f0 scriptBench = []" "live ?f0 scriptTravel = []"
      using 3 other sh' l by (cases p; simp)+
    have "\<exists>j. p = Measuring j" using sh' l by (cases p) simp_all
    then obtain j where j: "p = Measuring j" ..
    with sh' l have "tk_step t = j" "0 \<le> j" "j \<le> captureSamples" "cf_captureSampled f = j" by simp_all
    with 3 l e show ?thesis by (intro capture[OF j]) (auto simp: onTick_def)
  next
    case 4
    with other show ?thesis by (intro side) auto
  qed
qed

lemma tick_moves:
  assumes g: "gens_ok f" and sh: "bench_shape p f" and i: "i < length (cf_armed f)" "t = tm_tick (cf_armed f ! i)"
    and cur: "tk_gen t = cf_gen f (tk_script t)"
  obtains (place) "p = Placing" "onTick t (without_timer i f) = onBench benchPlace (without_timer i f)"
      "bench_shape AtEntry (onTick t (without_timer i f))"
  | (lift) "p = Dwelling" "onTick t (without_timer i f) = onBench benchLift (without_timer i f)"
      "bench_shape Releasing (onTick t (without_timer i f))"
  | (released) q where "p = Releasing" "onTick t (without_timer i f) = onBench benchReleased (without_timer i f)"
      "q = Placing \<or> q = Idle" "bench_shape q (onTick t (without_timer i f))"
  | (clear) "p = AtEntry" "onTick t (without_timer i f) = onTravel travelClearEntry (without_timer i f)"
      "bench_shape Moving (onTick t (without_timer i f))"
  | (arrive) "p = Moving" "onTick t (without_timer i f) = onTravel travelArrive (without_timer i f)"
      "bench_shape (Measuring 0) (onTick t (without_timer i f))"
  | (sample) j where "p = Measuring j" "j < captureSamples"
      "onTick t (without_timer i f) = onCapture j (without_timer i f)"
      "bench_shape (Measuring (j + 1)) (onTick t (without_timer i f))"
  | (captured) "p = Measuring captureSamples" "cf_captureSampled f = captureSamples"
      "onTick t (without_timer i f) = onCapture captureSamples (without_timer i f)"
      "bench_shape Dwelling (onTick t (without_timer i f))"
  | (side) "tk_script t = scriptRequestRun \<or> tk_script t = scriptExitHold \<or> tk_script t = scriptJam"
      "bench_shape p (onTick t (without_timer i f))"
  using g sh i cur
proof (cases rule: tick_elim)
  case bench
  note l = bench(3)[of scriptBench] bench(3)[of scriptTravel] bench(3)[of scriptCapture]
  from bench(1) show ?thesis
  proof (elim disjE conjE)
    assume p: "p = Placing" "tk_step t = benchPlace"
    with l g sh bench(2) have "bench_shape AtEntry (onTick t (without_timer i f))"
      by (simp add: bench_shape_def onBench_def Let_def step_numbers)
    with p bench(2) show ?thesis by (intro place) simp_all
  next
    assume p: "p = Dwelling" "tk_step t = benchLift"
    with l g sh bench(2) have "bench_shape Releasing (onTick t (without_timer i f))"
      by (simp add: bench_shape_def onBench_def Let_def step_numbers)
    with p bench(2) show ?thesis by (intro lift) simp_all
  next
    assume p: "p = Releasing" "tk_step t = benchReleased"
    with l g sh bench(2) have "bench_shape Placing (onTick t (without_timer i f)) \<or>
        bench_shape Idle (onTick t (without_timer i f))"
      by (simp add: bench_shape_def onBench_def Let_def step_numbers)
    with p bench(2) show ?thesis using released by metis
  qed
next
  case travel
  note l = travel(3)[of scriptBench] travel(3)[of scriptTravel] travel(3)[of scriptCapture]
  from travel(1) show ?thesis
  proof (elim disjE conjE)
    assume p: "p = AtEntry" "tk_step t = travelClearEntry"
    with l g sh travel(2) have "bench_shape Moving (onTick t (without_timer i f))"
      by (simp add: bench_shape_def onTravel_def step_numbers)
    with p travel(2) show ?thesis by (intro clear) simp_all
  next
    assume p: "p = Moving" "tk_step t = travelArrive"
    with l g sh travel(2) have "bench_shape (Measuring 0) (onTick t (without_timer i f))"
      by (simp add: bench_shape_def onTravel_def onArrival_def Let_def step_numbers)
    with p travel(2) show ?thesis by (intro arrive) simp_all
  qed
next
  case (capture j)
  note l = capture(6)[of scriptBench] capture(6)[of scriptTravel] capture(6)[of scriptCapture]
  show ?thesis
  proof (cases "j = captureSamples")
    case True
    with capture(1-5) sh l g have "bench_shape Dwelling (onTick t (without_timer i f))"
      by (simp add: bench_shape_def onCapture_def Let_def step_numbers)
    with capture(1-5) True show ?thesis by (intro captured) simp_all
  next
    case False
    with capture(1-5) sh l g have "bench_shape (Measuring (j + 1)) (onTick t (without_timer i f))"
      by (simp add: bench_shape_def onCapture_def Let_def step_numbers)
    with capture(1-5) False show ?thesis by (intro sample[of j]) simp_all
  qed
next
  case side
  note l = side(2)[of scriptBench] side(2)[of scriptTravel] side(2)[of scriptCapture]
  from side(1) have "bench_shape p (onTick t (without_timer i f))"
  proof (elim disjE)
    assume "tk_script t = scriptRequestRun"
    with sh l show ?thesis by (cases "cf_entryOccupied f") (simp_all add: bench_shape_def tick_defs)
  next
    assume "tk_script t = scriptExitHold"
    with sh l g show ?thesis by (cases "cf_entryOccupied f") (simp_all add: bench_shape_def tick_defs)
  next
    assume "tk_script t = scriptJam"
    with sh l show ?thesis by (cases "cf_motorOn f") (simp_all add: bench_shape_def tick_defs)
  qed
  with side(1) show ?thesis by (rule that(8))
qed

lemma shape_tick:
  assumes "gens_ok f" "bench_shape p f" "i < length (cf_armed f)" "t = tm_tick (cf_armed f ! i)"
    and "tk_gen t = cf_gen f (tk_script t)"
  shows "\<exists>q. (q = p \<or> bench_move p q) \<and> bench_shape q (onTick t (without_timer i f))"
  using assms by (cases rule: tick_moves) (use bench_move.intros in blast)+

lemma shape_command:
  assumes g: "gens_ok f" and sh: "bench_shape p f"
  shows "\<exists>q. (q = p \<or> p = Moving \<and> q = Idle \<and> \<not> cf_motorOn (on_command m f)) \<and>
    bench_shape q (on_command m f)"
proof -
  have "\<exists>q. (q = p \<or> p = Moving \<and> q = Idle \<and> \<not> cf_motorOn (onFanCommand state f)) \<and>
    bench_shape q (onFanCommand state f)" for state
  proof (cases "state = cf_motorOn f")
    case True
    with sh show ?thesis by (auto simp: onFanCommand_def)
  next
    case False
    show ?thesis
    proof (cases state)
      case True
      with False g sh have "bench_shape p (onFanCommand state f)"
        by (cases p) (simp_all add: onFanCommand_def bench_shape_def Let_def)
      then show ?thesis by blast
    next
      case off: False
      show ?thesis
      proof (cases "p = Moving")
        case True
        with off False g sh have "bench_shape Idle (onFanCommand state f)"
          by (simp add: onFanCommand_def bench_shape_def Let_def)
        with True off False show ?thesis by (auto simp: onFanCommand_def Let_def)
      next
        case m: False
        with off False g sh have "bench_shape p (onFanCommand state f)"
          by (cases p) (simp_all add: onFanCommand_def bench_shape_def Let_def)
        then show ?thesis by blast
      qed
    qed
  qed
  with sh show ?thesis by (cases m) (auto simp: on_command_def)
qed

lemma step_event_cases:
  assumes "step_event e f = Some f'"
  obtains (elapse) dt where "e = Elapse dt" "0 \<le> dt" "f' = f\<lparr>cf_now := cf_now f + dt\<rparr>"
  | (command) m where "e = Command m" "f' = on_command m f"
  | (stale) i where "e = Tick i" "i < length (cf_armed f)" "tm_at (cf_armed f ! i) \<le> cf_now f"
      "tk_gen (tm_tick (cf_armed f ! i)) \<noteq> cf_gen f (tk_script (tm_tick (cf_armed f ! i)))"
      "f' = without_timer i f"
  | (fires) i where "e = Tick i" "i < length (cf_armed f)" "tm_at (cf_armed f ! i) \<le> cf_now f"
      "tk_gen (tm_tick (cf_armed f ! i)) = cf_gen f (tk_script (tm_tick (cf_armed f ! i)))"
      "f' = onTick (tm_tick (cf_armed f ! i)) (without_timer i f)"
  using assms
  by (cases e) (auto simp: step_event_def on_tick_received_def split: if_splits)

lemma shape_step:
  assumes "gens_ok f" "bench_shape p f" "step_event e f = Some f'"
  shows "gens_ok f' \<and> (\<exists>q. (q = p \<or> bench_move p q) \<and> bench_shape q f')"
  using assms(3)
proof (cases rule: step_event_cases)
  case (stale i)
  then have "live (without_timer i f) = live f" using live_unaffected by blast
  with stale assms show ?thesis by (auto simp: bench_shape_def)
next
  case (fires i)
  with assms shape_tick[OF assms(1,2) _ refl] show ?thesis by (simp add: gens_ok_onTick)
next
  case (command m)
  obtain q where "q = p \<or> p = Moving \<and> q = Idle" "bench_shape q (on_command m f)"
    using shape_command[OF assms(1,2)] by blast
  with bench_move.intros(9) command assms(1) show ?thesis by (metis gens_ok_command)
qed (use assms in \<open>auto simp: bench_shape_def\<close>)

lemma boot_ok: "gens_ok (boot (newConveyorFirmware now cycles travel dwell)) \<and>
    bench_shape Placing (boot (newConveyorFirmware now cycles travel dwell))"
proof -
  have "gens_ok (newConveyorFirmware now cycles travel dwell)"
    by (simp add: gens_ok_def newConveyorFirmware_def)
  moreover have "live (newConveyorFirmware now cycles travel dwell) s = []" for s
    by (simp add: live_def live_steps_def newConveyorFirmware_def)
  ultimately show ?thesis
    by (simp add: boot_def bench_shape_def) (simp add: newConveyorFirmware_def)
qed

lemma reached_shape: "reached f \<Longrightarrow> gens_ok f \<and> (\<exists>p. bench_shape p f)"
proof (induction rule: reached.induct)
  case (booted now cycles travel dwell)
  then show ?case using boot_ok by blast
next
  case (stepped f e f')
  then show ?case using shape_step by blast
qed

lemma reached_phase:
  assumes "reached f"
  shows "bench_shape (phase f) f"
  using reached_shape[OF assms] bench_shape_phase by blast

lemma run_reached: "reached f \<Longrightarrow> run es f = Some f' \<Longrightarrow> reached f'"
  by (induction es f rule: run.induct) (auto split: option.splits intro: reached.stepped)

section \<open>What the loop promises\<close>

text \<open>C15. The loop of the conveyor firmware refines a state machine with seven phases: whatever timers fire, in
  whatever order and however late, and whatever commands arrive, each step either leaves the phase of the bench
  alone or makes one move of the machine. In particular stale timers never act, a brick is at one place at a time,
  and a colour capture takes its samples one after the other.\<close>

theorem bench_refines_phases:
  assumes "reached f" and "step_event e f = Some f'"
  shows "bench_shape (phase f') f' \<and> (phase f' = phase f \<or> bench_move (phase f) (phase f'))"
proof -
  have r: "reached f'" using assms by (rule reached.stepped)
  obtain q where "q = phase f \<or> bench_move (phase f) q" "bench_shape q f'"
    using shape_step[OF _ reached_phase[OF assms(1)] assms(2)] reached_shape[OF assms(1)] by blast
  moreover from this(2) have "phase f' = q" by (rule bench_shape_phase)
  ultimately show ?thesis by auto
qed
end
