(* ===== verification/Conveyor_Properties.thy ===== *)
theory Conveyor_Properties
  imports Conveyor
begin

text \<open>
  What the conveyor firmware publishes and when: its readings, its run requests and the motor. The invariants are
  kept per phase of the bench and follow the moves proved in \<open>Conveyor\<close>.
\<close>

section \<open>Invariants by phase\<close>

text \<open>An invariant of the loop that depends on the phase need only be kept by the ticks of live timers, by what
  commands change, and when a stopped belt strands its brick.\<close>

locale bench_invariant =
  fixes I :: "phase \<Rightarrow> conveyorFirmware \<Rightarrow> bool"
  assumes boots: "I Placing (boot (newConveyorFirmware now cycles travel dwell))"
    and elapses: "I p f \<Longrightarrow> I p (f\<lparr>cf_now := n\<rparr>)"
    and drops: "I p f \<Longrightarrow> I p (without_timer i f)"
    and commands: "I p f \<Longrightarrow> I p (on_command m f)"
    and strands: "I Moving f \<Longrightarrow> I Idle f"
    and ticks: "I p f \<Longrightarrow> gens_ok f \<Longrightarrow> bench_shape p f \<Longrightarrow> i < length (cf_armed f) \<Longrightarrow>
      t = tm_tick (cf_armed f ! i) \<Longrightarrow> tk_gen t = cf_gen f (tk_script t) \<Longrightarrow>
      \<exists>q. bench_shape q (onTick t (without_timer i f)) \<and> I q (onTick t (without_timer i f))"
begin

lemma step:
  assumes "I p f" "gens_ok f" "bench_shape p f" "step_event e f = Some f'"
  shows "\<exists>q. bench_shape q f' \<and> I q f'"
  using assms(4)
proof (cases rule: step_event_cases)
  case (command m)
  obtain q where q: "q = p \<or> p = Moving \<and> q = Idle" "bench_shape q f'"
    using shape_command[OF assms(2,3)] command by blast
  moreover from q(1) commands[OF assms(1), of m] strands command(2) have "I q f'" by blast
  ultimately show ?thesis by blast
next
  case (stale i)
  then have "live f' = live f" using live_unaffected by blast
  with assms(3) stale(5) have "bench_shape p f'" by (simp add: bench_shape_def)
  with drops[OF assms(1)] stale(5) show ?thesis by blast
next
  case (fires i)
  with ticks[OF assms(1-3) _ refl] show ?thesis by simp
next
  case (elapse dt)
  with assms(3) have "bench_shape p f'" by (simp add: bench_shape_def)
  with elapses[OF assms(1)] elapse(3) show ?thesis by blast
qed

lemma always: "reached f \<Longrightarrow> I (phase f) f"
proof (induction rule: reached.induct)
  case (booted now cycles travel dwell)
  show ?case using boots boot_ok bench_shape_phase by metis
next
  case (stepped f e f')
  obtain q where "bench_shape q f'" "I q f'"
    using step[OF stepped(3) _ reached_phase[OF stepped(1)] stepped(2)] reached_shape[OF stepped(1)] by blast
  with bench_shape_phase show ?case by metis
qed

end

section \<open>What was published\<close>

definition published :: "(message \<Rightarrow> 'a option) \<Rightarrow> push list \<Rightarrow> 'a list" where
  "published g ps = List.map_filter (\<lambda>p. case p of PushedState m \<Rightarrow> g m | PushedLog l \<Rightarrow> None) ps"

definition ratio_of :: "message \<Rightarrow> f32 option" where
  "ratio_of m = (case m of SensorStateResponse r \<Rightarrow> Some (SensorState_State r) | _ \<Rightarrow> None)"

definition en_route_of :: "message \<Rightarrow> bool option" where
  "en_route_of m = (case m of BinarySensorStateResponse r \<Rightarrow> Some (BinarySensorState_State r) | _ \<Rightarrow> None)"

definition motor_of :: "message \<Rightarrow> bool option" where
  "motor_of m = (case m of FanStateResponse r \<Rightarrow> Some (FanState_State r) | _ \<Rightarrow> None)"

abbreviation seen :: "(message \<Rightarrow> 'a option) \<Rightarrow> conveyorFirmware \<Rightarrow> 'a list" where
  "seen g f \<equiv> published g (cf_pushed f)"

lemma seen_push [simp]:
  "seen g (PushState m f) = seen g f @ (case g m of None \<Rightarrow> [] | Some x \<Rightarrow> [x])"
  "seen g (log v l f) = seen g f"
  by (simp_all add: published_def PushState_def log_def map_filter_append map_filter_simps split: option.split)

lemma readers [simp]:
  "ratio_of (ratio_state r) = Some r" "ratio_of (en_route_state b) = None" "ratio_of motor_off_state = None"
  "en_route_of (en_route_state b) = Some b" "en_route_of (ratio_state r) = None" "en_route_of motor_off_state = None"
  "motor_of motor_off_state = Some False" "motor_of (ratio_state r) = None" "motor_of (en_route_state b) = None"
  by (simp_all add: ratio_of_def en_route_of_def motor_of_def ratio_state_def en_route_state_def motor_off_state_def)

lemma seen_publish [simp]:
  "seen g (publishRatio r f) = (if cf_ratioKnown f \<and> f32_eq r (cf_redRatio f) then seen g f
     else seen g f @ (case g (ratio_state r) of None \<Rightarrow> [] | Some x \<Rightarrow> [x]))"
  "seen g (publishEnRoute b f) = (if cf_enRouteKnown f \<and> b = cf_enRoute f then seen g f
     else seen g f @ (case g (en_route_state b) of None \<Rightarrow> [] | Some x \<Rightarrow> [x]))"
  by (simp_all add: publishRatio_def publishEnRoute_def)

lemma publish_fields [simp]:
  "cf_ratioKnown (publishRatio r f)"
  "cf_redRatio (publishRatio r f) = (if cf_ratioKnown f \<and> f32_eq r (cf_redRatio f) then cf_redRatio f else r)"
  "cf_enRouteKnown (publishEnRoute b f)" "cf_enRoute (publishEnRoute b f) = b"
  by (auto simp: publishRatio_def publishEnRoute_def PushState_def)

section \<open>Readings\<close>

definition brick_at :: "int \<Rightarrow> brick" where
  "brick_at n = brickRotation ! nat (n mod int (length brickRotation))"

text \<open>The readings published once \<open>n\<close> bricks are done: none at first, then each brick's and none again.\<close>

definition readings :: "int \<Rightarrow> f32 list" where
  "readings n = ExitRedRatioNoReading #
    concat (map (\<lambda>k. [bk_redRatio (brick_at (int k)), ExitRedRatioNoReading]) [0..<nat n])"

lemma readings_0: "readings 0 = [ExitRedRatioNoReading]"
  by (simp add: readings_def)

lemma readings_add_1:
  "0 \<le> n \<Longrightarrow> readings (n + 1) = readings n @ [bk_redRatio (brick_at n), ExitRedRatioNoReading]"
  by (simp add: readings_def nat_add_distrib)

lemma brick_cases:
  "brick_at n \<in> set brickRotation"
  by (simp add: brick_at_def brickRotation_def nth_Cons' nat_less_iff)

lemma ratio_differs:
  "\<not> f32_eq (bk_redRatio (brick_at n)) ExitRedRatioNoReading"
  "\<not> f32_eq ExitRedRatioNoReading (bk_redRatio (brick_at n))"
  using brick_cases[of n]
  by (auto simp: brickRotation_def f32_eq_def f32_is_nan_def ExitRedRatioNoReading_def)

definition book :: "phase \<Rightarrow> conveyorFirmware \<Rightarrow> bool" where
  "book p f \<longleftrightarrow> 0 \<le> cf_completed f \<and> cf_ratioKnown f \<and>
    (case p of
       AtEntry \<Rightarrow> cf_onBelt f = brick_at (cf_completed f)
     | Moving \<Rightarrow> cf_onBelt f = brick_at (cf_completed f)
     | Measuring j \<Rightarrow> cf_atExit f = brick_at (cf_completed f)
     | _ \<Rightarrow> True) \<and>
    (if p = Dwelling \<or> p = Releasing
     then seen ratio_of f = readings (cf_completed f) @ [bk_redRatio (brick_at (cf_completed f))] \<and>
       cf_redRatio f = bk_redRatio (brick_at (cf_completed f))
     else seen ratio_of f = readings (cf_completed f) \<and> cf_redRatio f = ExitRedRatioNoReading)"

lemma book_boot: "book Placing (boot (newConveyorFirmware now cycles travel dwell))"
  by (simp add: book_def boot_def readings_0) (simp add: newConveyorFirmware_def published_def map_filter_simps readings_0)

lemma command_frame [simp]:
  "cf_completed (on_command m f) = cf_completed f" "cf_ratioKnown (on_command m f) = cf_ratioKnown f"
  "cf_onBelt (on_command m f) = cf_onBelt f" "cf_atExit (on_command m f) = cf_atExit f"
  "cf_redRatio (on_command m f) = cf_redRatio f" "cf_pushed (on_command m f) = cf_pushed f"
  "cf_timings (on_command m f) = cf_timings f" "cf_enRoute (on_command m f) = cf_enRoute f"
  "cf_enRouteKnown (on_command m f) = cf_enRouteKnown f" "cf_now (on_command m f) = cf_now f"
  by (cases m; simp add: on_command_def onFanCommand_def Let_def)+

lemma book_tick:
  assumes b: "book p f" and g: "gens_ok f" "bench_shape p f" "i < length (cf_armed f)" "t = tm_tick (cf_armed f ! i)"
    and "tk_gen t = cf_gen f (tk_script t)"
  shows "\<exists>q. bench_shape q (onTick t (without_timer i f)) \<and> book q (onTick t (without_timer i f))"
  using g assms(6)
proof (cases rule: tick_moves)
  case place
  from b place have "book AtEntry (onTick t (without_timer i f))"
    by (simp add: book_def onBench_def Let_def step_numbers brick_at_def)
  with place show ?thesis by blast
next
  case lift
  from b lift have "book Releasing (onTick t (without_timer i f))"
    by (simp add: book_def onBench_def Let_def step_numbers)
  with lift show ?thesis by blast
next
  case (released q)
  from b released(1,2) have "book Placing (onTick t (without_timer i f)) \<and> book Idle (onTick t (without_timer i f))"
    by (simp add: book_def onBench_def Let_def step_numbers ratio_differs readings_add_1)
  with released show ?thesis by blast
next
  case clear
  from b clear have "book Moving (onTick t (without_timer i f))"
    by (simp add: book_def onTravel_def step_numbers)
  with clear show ?thesis by blast
next
  case arrive
  from b arrive have "book (Measuring 0) (onTick t (without_timer i f))"
    by (simp add: book_def onTravel_def onArrival_def Let_def step_numbers)
  with arrive show ?thesis by blast
next
  case (sample j)
  from b sample(1-3) have "book (Measuring (j + 1)) (onTick t (without_timer i f))"
    by (simp add: book_def onCapture_def Let_def)
  with sample show ?thesis by blast
next
  case captured
  from b captured(1-3) have "book Dwelling (onTick t (without_timer i f))"
    by (simp add: book_def onCapture_def Let_def step_numbers ratio_differs)
  with captured show ?thesis by blast
next
  case side
  from side(1) b have "book p (onTick t (without_timer i f))"
    by (elim disjE; cases p) (auto simp: book_def onTick_def onJam_def)
  with side show ?thesis by blast
qed

interpretation book: bench_invariant book
proof unfold_locales
  fix p f n m i
  show "book p f \<Longrightarrow> book p (f\<lparr>cf_now := n\<rparr>)" by (cases p) (simp_all add: book_def)
  show "book p f \<Longrightarrow> book p (without_timer i f)" by (cases p) (simp_all add: book_def)
  show "book p f \<Longrightarrow> book p (on_command m f)" by (cases p) (simp_all add: book_def)
  show "book Moving f \<Longrightarrow> book Idle f" by (simp add: book_def)
qed (rule book_boot, rule book_tick)

text \<open>C6. Every brick is measured exactly once and in order, whatever timers fire late and whatever a controller
  commands: the readings that were published are the reading of each completed brick, taken from the
  rotation in turn, each followed by the withdrawal of the reading; the brick being lifted off has its reading out,
  and no other phase shows one.\<close>

theorem every_brick_is_measured_once:
  assumes "reached f"
  shows "seen ratio_of f = readings (cf_completed f) @
    (if phase f = Dwelling \<or> phase f = Releasing then [bk_redRatio (brick_at (cf_completed f))] else [])"
  using book.always[OF assms] by (auto simp: book_def split: if_splits)

section \<open>Run requests\<close>

definition route :: "phase \<Rightarrow> conveyorFirmware \<Rightarrow> bool" where
  "route p f \<longleftrightarrow> cf_enRouteKnown f \<and> seen en_route_of f \<noteq> [] \<and> distinct_adj (seen en_route_of f) \<and>
    last (seen en_route_of f) = cf_enRoute f \<and>
    (cf_enRoute f \<longrightarrow> (case p of AtEntry \<Rightarrow> True | Moving \<Rightarrow> True | Idle \<Rightarrow> True | _ \<Rightarrow> False))"

lemma distinct_adj_snoc: "distinct_adj (xs @ [x]) \<longleftrightarrow> distinct_adj xs \<and> (xs \<noteq> [] \<longrightarrow> last xs \<noteq> x)"
  by (induction xs rule: induct_list012) auto

lemma route_boot: "route Placing (boot (newConveyorFirmware now cycles travel dwell))"
  by (simp add: route_def boot_def) (simp add: newConveyorFirmware_def published_def map_filter_simps)

lemma route_tick:
  assumes b: "route p f" and g: "gens_ok f" "bench_shape p f" "i < length (cf_armed f)" "t = tm_tick (cf_armed f ! i)"
    and "tk_gen t = cf_gen f (tk_script t)"
  shows "\<exists>q. bench_shape q (onTick t (without_timer i f)) \<and> route q (onTick t (without_timer i f))"
  using g assms(6)
proof (cases rule: tick_moves)
  case place
  from b place(1,2) have "route AtEntry (onTick t (without_timer i f))"
    by (simp add: route_def onBench_def Let_def step_numbers)
  with place show ?thesis by blast
next
  case lift
  from b lift(1,2) have "route Releasing (onTick t (without_timer i f))"
    by (simp add: route_def onBench_def Let_def step_numbers)
  with lift show ?thesis by blast
next
  case (released q)
  from b released(1,2) have "route Placing (onTick t (without_timer i f)) \<and> route Idle (onTick t (without_timer i f))"
    by (simp add: route_def onBench_def Let_def step_numbers)
  with released show ?thesis by blast
next
  case clear
  from b clear(1,2) have "route Moving (onTick t (without_timer i f))"
    by (simp add: route_def onTravel_def step_numbers)
  with clear show ?thesis by blast
next
  case arrive
  from b arrive(1,2) have "route (Measuring 0) (onTick t (without_timer i f))"
    by (simp add: route_def onTravel_def onArrival_def Let_def step_numbers distinct_adj_snoc)
  with arrive show ?thesis by blast
next
  case (sample j)
  from b sample(1-3) have "route (Measuring (j + 1)) (onTick t (without_timer i f))"
    by (simp add: route_def onCapture_def Let_def)
  with sample show ?thesis by blast
next
  case captured
  from b captured(1-3) have "route Dwelling (onTick t (without_timer i f))"
    by (simp add: route_def onCapture_def Let_def step_numbers)
  with captured show ?thesis by blast
next
  case side
  have "cf_entryOccupied f \<longleftrightarrow> p = AtEntry" using assms(3) by (cases p) (simp_all add: bench_shape_def)
  with side(1) b have "route p (onTick t (without_timer i f))"
    by (elim disjE; cases p) (auto simp: route_def onTick_def onJam_def distinct_adj_snoc)
  with side show ?thesis by blast
qed

interpretation route: bench_invariant route
proof unfold_locales
  fix p f n m i
  show "route p f \<Longrightarrow> route p (f\<lparr>cf_now := n\<rparr>)" by (cases p) (simp_all add: route_def)
  show "route p f \<Longrightarrow> route p (without_timer i f)" by (cases p) (simp_all add: route_def)
  show "route p f \<Longrightarrow> route p (on_command m f)" by (cases p) (simp_all add: route_def)
  show "route Moving f \<Longrightarrow> route Idle f" by (simp add: route_def)
qed (rule route_boot, rule route_tick)

text \<open>The run requests: the published values alternate, so an unchanged value is never published again, the last
  one is the firmware's belief, and no run is requested while a brick is measured, waits at the exit or is lifted
  off, or before the next brick is placed.\<close>

theorem run_requests_alternate:
  assumes "reached f"
  shows "distinct_adj (seen en_route_of f) \<and> last (seen en_route_of f) = cf_enRoute f \<and>
    (cf_enRoute f \<longrightarrow> phase f = AtEntry \<or> phase f = Moving \<or> phase f = Idle)"
  using route.always[OF assms] by (cases "phase f") (auto simp: route_def)

section \<open>The motor\<close>

definition turns_motor :: "bool \<Rightarrow> event \<Rightarrow> bool" where
  "turns_motor state e = (case e of
     Command (FanCommandRequest r) \<Rightarrow> FanCmd_Key r = ConveyorFanKey \<and> FanCmd_State r = state
   | _ \<Rightarrow> False)"

lemma motor_ops [simp]:
  "cf_motorOn (onBench stp f) = cf_motorOn f" "cf_motorOn (onTravel stp f) = cf_motorOn f"
  "cf_motorOn (onCapture stp f) = cf_motorOn f"
  "cf_motorOn (onJam stp f) = (cf_motorOn f \<and> stp \<noteq> 1)"
  by (simp_all add: tick_defs)

lemma motor_command: "cf_motorOn (on_command m f) =
    (if turns_motor True (Command m) then True else if turns_motor False (Command m) then False else cf_motorOn f)"
  by (cases m) (auto simp: turns_motor_def on_command_def onFanCommand_def Let_def)

text \<open>No live jam timer may fire before the withdrawal or the backstop is due, counted from \<open>t0\<close>.\<close>

definition patient :: "int \<Rightarrow> conveyorFirmware \<Rightarrow> bool" where
  "patient t0 f \<longleftrightarrow> list_all (\<lambda>t. tk_script (tm_tick t) = scriptJam \<and> tk_gen (tm_tick t) = cf_gen f scriptJam \<longrightarrow>
    t0 + (if tk_step (tm_tick t) = 0 then jamWithdraw else jamWithdraw + jamBackstop) \<le> tm_at t) (cf_armed f)"

lemma patient_after [simp]:
  "patient t0 (after s stp delay f) \<longleftrightarrow> patient t0 f \<and>
    (s = scriptJam \<longrightarrow> t0 + (if stp = 0 then jamWithdraw else jamWithdraw + jamBackstop) \<le> cf_now f + max 0 delay)"
  by (auto simp: patient_def after_def)

lemma patient_stop [simp]:
  "gens_ok f \<Longrightarrow> patient t0 f \<Longrightarrow> patient t0 (stop_script s f)"
  "gens_ok f \<Longrightarrow> patient t0 (stop_script scriptJam f)"
  by (auto simp: patient_def gens_ok_def stop_script_def list_all_iff)

lemma patient_frame [simp]:
  "patient t0 (publishEnRoute b f) = patient t0 f" "patient t0 (publishRatio r f) = patient t0 f"
  "patient t0 (log v l f) = patient t0 f" "patient t0 (PushState m f) = patient t0 f"
  "patient t0 (f\<lparr>cf_entryOccupied := b\<rparr>) = patient t0 f" "patient t0 (f\<lparr>cf_exitOccupied := b\<rparr>) = patient t0 f"
  "patient t0 (f\<lparr>cf_motorOn := b\<rparr>) = patient t0 f" "patient t0 (f\<lparr>cf_onBelt := k\<rparr>) = patient t0 f"
  "patient t0 (f\<lparr>cf_atExit := k\<rparr>) = patient t0 f" "patient t0 (f\<lparr>cf_captureSampled := c\<rparr>) = patient t0 f"
  "patient t0 (f\<lparr>cf_completed := c\<rparr>) = patient t0 f" "patient t0 (f\<lparr>cf_now := c\<rparr>) = patient t0 f"
  by (simp_all add: patient_def)

lemma patient_without [simp]: "patient t0 f \<Longrightarrow> patient t0 (without_timer i f)"
  by (auto simp: patient_def without_timer_def list_all_iff dest: in_set_takeD in_set_dropD)

lemma patient_restart [simp]:
  "gens_ok f \<Longrightarrow> patient t0 f \<Longrightarrow> s \<noteq> scriptJam \<Longrightarrow> patient t0 (restart s stp delay f)"
  "gens_ok f \<Longrightarrow> patient t0 (restart scriptJam stp delay f) \<longleftrightarrow>
    t0 + (if stp = 0 then jamWithdraw else jamWithdraw + jamBackstop) \<le> cf_now f + max 0 delay"
  by (simp_all add: restart_def)

lemma timings_tick [simp]: "cf_timings (onTick t f) = cf_timings f" "cf_now (onTick t f) = cf_now f"
  by (cases "tk_script t"; simp add: tick_defs)+

lemma reached_timings: "reached f \<Longrightarrow> cf_timings f = firmwareTimings"
proof (induction rule: reached.induct)
  case (booted now cycles travel dwell)
  show ?case by (simp add: boot_def) (simp add: newConveyorFirmware_def)
next
  case (stepped f e f')
  from stepped(2) show ?case by (cases rule: step_event_cases) (simp_all add: stepped(3))
qed

text \<open>Since the belt was switched on at \<open>t0\<close>.\<close>

definition held :: "int \<Rightarrow> conveyorFirmware \<Rightarrow> bool" where
  "held t0 f \<longleftrightarrow> gens_ok f \<and> cf_timings f = firmwareTimings \<and> patient t0 f \<and> t0 \<le> cf_now f \<and>
    (cf_motorOn f \<or> t0 + jamWithdraw + jamBackstop \<le> cf_now f)"

lemmas delays = Millisecond_def Second_def jamWithdraw_def jamBackstop_def

lemma patient_command:
  assumes "held t0 f" "\<not> turns_motor False (Command m)"
  shows "patient t0 (on_command m f)"
proof -
  have "patient t0 (onFanCommand True f)"
    using assms(1) by (simp add: held_def onFanCommand_def Let_def firmwareTimings_def delays)
  with assms show ?thesis
    by (cases m) (auto simp: held_def on_command_def turns_motor_def)
qed

lemma patient_tick:
  assumes "held t0 f" "i < length (cf_armed f)" "tm_at (cf_armed f ! i) \<le> cf_now f"
    and "t = tm_tick (cf_armed f ! i)" "tk_gen t = cf_gen f (tk_script t)"
  shows "patient t0 (onTick t (without_timer i f)) \<and>
    (tk_script t = scriptJam \<and> tk_step t = 1 \<longrightarrow> t0 + jamWithdraw + jamBackstop \<le> cf_now f)"
proof (cases "tk_script t = scriptJam")
  case True
  have "cf_armed f ! i \<in> set (cf_armed f)" using assms(2) by simp
  with assms True have "t0 + (if tk_step t = 0 then jamWithdraw else jamWithdraw + jamBackstop) \<le> cf_now f"
    unfolding held_def patient_def list_all_iff by fastforce
  with True assms(1) show ?thesis
    by (cases "tk_step t = 0"; cases "tk_step t = 1") (simp_all add: held_def onTick_def onJam_def firmwareTimings_def delays)
next
  case False
  with assms(1) show ?thesis
    by (cases "tk_script t") (simp_all add: held_def tick_defs)
qed

lemma motor_tick: "cf_motorOn (onTick t f) = (cf_motorOn f \<and> \<not> (tk_script t = scriptJam \<and> tk_step t = 1))"
  by (cases "tk_script t") (simp_all add: onTick_def)

lemma held_step:
  assumes "held t0 f" "step_event e f = Some f'" "\<not> turns_motor False e"
  shows "held t0 f'"
  using assms(2)
proof (cases rule: step_event_cases)
  case (elapse dt)
  with assms(1) show ?thesis by (auto simp: held_def)
next
  case (command m)
  with assms(1,3) patient_command[OF assms(1)] show ?thesis
    by (auto simp: held_def motor_command gens_ok_command)
next
  case (stale i)
  with assms(1) show ?thesis by (simp add: held_def)
next
  case (fires i)
  with assms(1) patient_tick[OF assms(1) fires(2,3) refl fires(4)] show ?thesis
    by (auto simp: held_def motor_tick gens_ok_onTick)
qed

lemma held_run: "held t0 f \<Longrightarrow> run es f = Some f' \<Longrightarrow> list_all (\<lambda>e. \<not> turns_motor False e) es \<Longrightarrow> held t0 f'"
  by (induction es f rule: run.induct) (auto split: option.splits dest: held_step)

definition fan_switch :: "bool \<Rightarrow> message" where
  "fan_switch state = FanCommandRequest (zero_FanCommandRequest\<lparr>FanCmd_Key := ConveyorFanKey,
    FanCmd_HasState := True, FanCmd_State := state\<rparr>)"

lemma held_on:
  assumes "reached f" "\<not> cf_motorOn f" "turns_motor True (Command m)"
  shows "held (cf_now f) (on_command m f)"
proof -
  have g: "gens_ok f" using reached_shape[OF assms(1)] by blast
  have "on_command m f = onFanCommand True f"
    using assms(3) by (cases m) (auto simp: turns_motor_def on_command_def)
  then have "patient (cf_now f) (on_command m f)"
    using assms(2) g by (simp add: onFanCommand_def Let_def reached_timings[OF assms(1)] firmwareTimings_def delays)
  then show ?thesis
    using g assms reached_timings[OF assms(1)] by (simp add: held_def gens_ok_command motor_command)
qed

text \<open>The firmware never takes the motor from a controller early: once a command has switched the belt on, and
  as long as no command switches it off, the belt is stopped only by the backstop, and then at least twenty seconds
  have passed, the time to withdraw the run and the grace after it.\<close>

theorem backstop_is_patient:
  assumes "reached f" and "\<not> cf_motorOn f" and "turns_motor True (Command m)"
    and "run es (on_command m f) = Some f'" and "list_all (\<lambda>e. \<not> turns_motor False e) es" and "\<not> cf_motorOn f'"
  shows "cf_now f + 20 * Second \<le> cf_now f'"
  using held_run[OF held_on[OF assms(1-3)] assms(4,5)] assms(6) by (simp add: held_def delays)

section \<open>A belt stopped half way\<close>

lemma idle_step:
  assumes "gens_ok f" "bench_shape Idle f" "step_event e f = Some f'"
  shows "gens_ok f' \<and> bench_shape Idle f' \<and> cf_completed f' = cf_completed f"
proof -
  obtain q where q: "gens_ok f'" "q = Idle \<or> bench_move Idle q" "bench_shape q f'"
    using shape_step[OF assms] by blast
  from q(2) have "q = Idle" by (auto elim: bench_move.cases)
  moreover from assms(3) have "cf_completed f' = cf_completed f"
  proof (cases rule: step_event_cases)
    case (fires i)
    show ?thesis
      using assms(1,2) fires(2) refl fires(4)
      by (cases rule: tick_moves) (auto simp: fires(5) tick_defs)
  qed simp_all
  ultimately show ?thesis using q by simp
qed

lemma idle_run:
  "gens_ok f \<Longrightarrow> bench_shape Idle f \<Longrightarrow> run es f = Some f' \<Longrightarrow>
    bench_shape Idle f' \<and> cf_completed f' = cf_completed f"
  by (induction es f rule: run.induct) (auto split: option.splits dest: idle_step)

text \<open>C38. A brick is lost when the belt stops half way: if a command switches the belt off while the brick is between
  the sensors, then no continuation, whatever is commanded and whatever fires, ever carries it to the exit, completes
  it, publishes a reading again or places another brick. (The comment of the handler expects the controller to
  start the belt again and the travel to restart from the entry; but the entry no longer sees the brick.)\<close>

theorem stopped_belt_strands_the_brick:
  assumes "reached f" and "phase f = Moving" and "cf_motorOn f" and "turns_motor False (Command m)"
    and "run es (on_command m f) = Some f'"
  shows "phase f' = Idle \<and> cf_completed f' = cf_completed f \<and> seen ratio_of f' = seen ratio_of f"
proof -
  have g: "gens_ok f" "bench_shape Moving f"
    using reached_shape[OF assms(1)] reached_phase[OF assms(1)] assms(2) by simp_all
  have "on_command m f = onFanCommand False f"
    using assms(4) by (cases m) (auto simp: turns_motor_def on_command_def)
  with g assms(3) have "bench_shape Idle (on_command m f)"
    by (simp add: bench_shape_def onFanCommand_def Let_def)
  from idle_run[OF gens_ok_command[OF g(1)] this assms(5)]
  have i: "bench_shape Idle f'" "cf_completed f' = cf_completed f" by simp_all
  have r: "reached (on_command m f)" by (rule reached.stepped[OF assms(1), of "Command m"]) (simp add: step_event_def)
  from book.always[OF assms(1)] book.always[OF run_reached[OF r assms(5)]] i assms(2) bench_shape_phase[OF i(1)]
  show ?thesis by (simp add: book_def)
qed

section \<open>A run of the bench\<close>

definition fresh_bench :: conveyorFirmware where
  "fresh_bench = boot (newConveyorFirmware 0 1 (1200 * Millisecond) (1500 * Millisecond))"

text \<open>A brick is placed, a run is requested, the belt starts and carries the brick away from the entry.\<close>

definition to_the_entry :: "event list" where
  "to_the_entry = [Elapse Second, Tick 0, Elapse (400 * Millisecond), Tick 0]"

definition half_way :: "event list" where
  "half_way = [Command (fan_switch True), Elapse (250 * Millisecond), Tick 1]"

lemma fresh_reached: "reached fresh_bench"
  unfolding fresh_bench_def by (rule reached.booted)

lemma bench_demo:
  "(case run to_the_entry fresh_bench of
     None \<Rightarrow> False
   | Some f \<Rightarrow> phase f = AtEntry \<and> cf_enRoute f \<and> \<not> cf_motorOn f \<and>
      (case run half_way f of None \<Rightarrow> False | Some f' \<Rightarrow> phase f' = Moving \<and> cf_motorOn f'))"
  by code_simp

definition jammed :: "event list" where
  "jammed = [Elapse (15 * Second), Tick 0, Elapse (5 * Second), Tick 1]"

definition stopped_half_way :: "event list" where
  "stopped_half_way = [Command (fan_switch True), Elapse (15 * Second), Tick 0, Tick 0, Tick 0]"

lemma jam_demo:
  "(case run to_the_entry fresh_bench of
     None \<Rightarrow> False
   | Some f \<Rightarrow> (case run jammed (on_command (fan_switch True) f) of
        None \<Rightarrow> False | Some f' \<Rightarrow> \<not> cf_motorOn f' \<and> seen motor_of f' = [False]))"
  by code_simp

lemma strand_demo:
  "(case run (to_the_entry @ half_way) fresh_bench of
     None \<Rightarrow> False
   | Some f \<Rightarrow> phase f = Moving \<and> cf_motorOn f \<and>
      (case run stopped_half_way (on_command (fan_switch False) f) of None \<Rightarrow> False | Some f' \<Rightarrow> cf_motorOn f'))"
  by code_simp

lemma at_entry: "\<exists>f. reached f \<and> run to_the_entry fresh_bench = Some f \<and> phase f = AtEntry \<and> cf_enRoute f \<and> \<not> cf_motorOn f"
  using bench_demo run_reached[OF fresh_reached] by (auto split: option.splits)

lemma fan_commands [simp]: "turns_motor state (Command (fan_switch state')) = (state = state')"
  by (auto simp: turns_motor_def fan_switch_def)

lemma every_brick_is_measured_once_witness:
  "\<exists>f. reached f \<and> phase f = AtEntry \<and> seen ratio_of f = readings (cf_completed f)"
proof -
  obtain f where f: "reached f" "phase f = AtEntry" using at_entry by blast
  from every_brick_is_measured_once[OF f(1)] f show ?thesis by (intro exI[of _ f]) simp
qed

lemma run_requests_alternate_witness:
  "\<exists>f. reached f \<and> phase f = AtEntry \<and> last (seen en_route_of f)"
proof -
  obtain f where f: "reached f" "phase f = AtEntry" "cf_enRoute f" using at_entry by blast
  from run_requests_alternate[OF f(1)] f show ?thesis by (intro exI[of _ f]) simp
qed

lemma bench_refines_phases_witness:
  "\<exists>f f'. reached f \<and> step_event (Command (fan_switch True)) f = Some f' \<and> phase f = AtEntry \<and>
    bench_shape (phase f') f'"
proof -
  obtain f where f: "reached f" "phase f = AtEntry" using at_entry by blast
  have s: "step_event (Command (fan_switch True)) f = Some (on_command (fan_switch True) f)"
    by (simp add: step_event_def)
  from bench_refines_phases[OF f(1) s] f s show ?thesis by blast
qed

lemma backstop_is_patient_witness:
  "\<exists>f f'. reached f \<and> run jammed (on_command (fan_switch True) f) = Some f' \<and> \<not> cf_motorOn f' \<and>
    cf_now f + 20 * Second \<le> cf_now f'"
proof -
  obtain f where f: "reached f" "run to_the_entry fresh_bench = Some f" "\<not> cf_motorOn f" using at_entry by blast
  with jam_demo obtain f' where f': "run jammed (on_command (fan_switch True) f) = Some f'" "\<not> cf_motorOn f'"
    by (auto split: option.splits)
  have "list_all (\<lambda>e. \<not> turns_motor False e) jammed" by (simp add: jammed_def turns_motor_def)
  from backstop_is_patient[OF f(1,3) _ f'(1) this f'(2)] f f' show ?thesis by auto
qed

lemma stopped_belt_strands_the_brick_witness:
  "\<exists>f f'. reached f \<and> phase f = Moving \<and>
    run stopped_half_way (on_command (fan_switch False) f) = Some f' \<and> cf_motorOn f' \<and> phase f' = Idle"
proof -
  from strand_demo obtain f f' where f: "run (to_the_entry @ half_way) fresh_bench = Some f" "phase f = Moving"
    "cf_motorOn f" "run stopped_half_way (on_command (fan_switch False) f) = Some f'" "cf_motorOn f'"
    by (auto split: option.splits)
  have r: "reached f" using run_reached[OF fresh_reached f(1)] .
  from stopped_belt_strands_the_brick[OF r f(2,3) _ f(4)] r f show ?thesis by auto
qed

end
