(* ===== verification/Blink.thy ===== *)
theory Blink
  imports Conveyor_Properties Go_Net
begin

text \<open>
  The blink firmware simulator (\<open>cmd/mgmt-compat-sim-server/blink_device.go\<close>) and the checks with which that
  program admits a scenario and a forwarding address (\<open>main.go\<close>).

  The firmware's goroutine owns its belief about the LED and one timer. The timer is the instant at which it fires,
  its channel is whether the loop still listens to it: \<open>stopTimer\<close> stops the timer, or drains the channel of one
  that has fired, so nothing stale is left to receive. What was pushed is a list, oldest first.
\<close>

section \<open>The blink loop\<close>

definition blinkRelightDelay :: int where "blinkRelightDelay = 3 * Second"

record blinkFirmware =
  bf_now :: int
  bf_pushed :: "push list"
  bf_relight :: int
  bf_ledOn :: bool
  bf_timer :: "int option"

text \<open>\<open>bf_timer\<close> is the firing time of the timer while its channel is listened to.\<close>

definition start_blink :: "int \<Rightarrow> int \<Rightarrow> blinkFirmware" where
  "start_blink now relight = \<lparr>bf_now = now, bf_pushed = [], bf_relight = relight, bf_ledOn = True, bf_timer = None\<rparr>"

definition blink_push :: "message \<Rightarrow> blinkFirmware \<Rightarrow> blinkFirmware" where
  "blink_push m f = f\<lparr>bf_pushed := bf_pushed f @ [PushedState m]\<rparr>"

definition led_switch :: "u32 \<Rightarrow> bool \<Rightarrow> message" where
  "led_switch key state = SwitchStateResponse
    (zero_SwitchStateResponse\<lparr>SwitchState_Key := key, SwitchState_State := state\<rparr>)"

definition led_mirror :: "bool \<Rightarrow> message" where
  "led_mirror state = BinarySensorStateResponse
    (zero_BinarySensorStateResponse\<lparr>BinarySensorState_Key := BlinkSensorKey, BinarySensorState_State := state\<rparr>)"

definition mirror :: "bool \<Rightarrow> blinkFirmware \<Rightarrow> blinkFirmware" where
  "mirror state = blink_push (led_mirror state)"

definition blink_log :: "string \<Rightarrow> blinkFirmware \<Rightarrow> blinkFirmware" where
  "blink_log line f = f\<lparr>bf_pushed := bf_pushed f @ [PushedLog
    (zero_SubscribeLogsResponse\<lparr>Log_Level := LOG_LEVEL_INFO, Log_Message := string_bytes line @ [10]\<rparr>)]\<rparr>"

definition stopTimer :: "blinkFirmware \<Rightarrow> blinkFirmware" where
  "stopTimer f = f\<lparr>bf_timer := None\<rparr>"

definition resetTimer :: "blinkFirmware \<Rightarrow> blinkFirmware" where
  "resetTimer f = f\<lparr>bf_timer := Some (bf_now f + max 0 (bf_relight f))\<rparr>"

definition blink_command :: "message \<Rightarrow> blinkFirmware \<Rightarrow> blinkFirmware" where
  "blink_command m f =
    (case m of
       SwitchCommandRequest r \<Rightarrow>
         if SwitchCmd_Key r \<noteq> BlinkSwitchKey then f
         else
           (let f1 = blink_push (led_switch (SwitchCmd_Key r) (SwitchCmd_State r)) (f\<lparr>bf_ledOn := SwitchCmd_State r\<rparr>)
            in if SwitchCmd_State r
               then blink_log ''LED turned on; waiting for mgmt to turn it off'' (mirror True (stopTimer f1))
               else resetTimer (stopTimer
                 (blink_log ''LED turned off; turning it back on in three seconds'' (mirror False f1))))
     | _ \<Rightarrow> f)"

definition blink_relit :: "blinkFirmware \<Rightarrow> blinkFirmware" where
  "blink_relit f =
    (let f1 = f\<lparr>bf_timer := None\<rparr>
     in if bf_ledOn f then f1
        else blink_log ''LED is still off; turning it on''
          (mirror True (blink_push (led_switch BlinkSwitchKey True) (f1\<lparr>bf_ledOn := True\<rparr>))))"

datatype blink_event = BlinkElapse int | BlinkCommand message | BlinkRelight

definition blink_step :: "blink_event \<Rightarrow> blinkFirmware \<Rightarrow> blinkFirmware option" where
  "blink_step e f =
    (case e of
       BlinkElapse dt \<Rightarrow> if 0 \<le> dt then Some (f\<lparr>bf_now := bf_now f + dt\<rparr>) else None
     | BlinkCommand m \<Rightarrow> Some (blink_command m f)
     | BlinkRelight \<Rightarrow>
         (case bf_timer f of
            Some at \<Rightarrow> if at \<le> bf_now f then Some (blink_relit f) else None
          | None \<Rightarrow> None))"

fun blink_run :: "blink_event list \<Rightarrow> blinkFirmware \<Rightarrow> blinkFirmware option" where
  "blink_run [] f = Some f"
| "blink_run (e # es) f = (case blink_step e f of None \<Rightarrow> None | Some f' \<Rightarrow> blink_run es f')"

section \<open>What the sensor shows\<close>

text \<open>A mirror value may be published only right after the switch state it reflects; \<open>mirrored\<close> is what an
  observer of the device knows: the last switch state and whether the mirror has caught up with it.\<close>

fun mirrored :: "bool \<Rightarrow> push list \<Rightarrow> bool" where
  "mirrored led [] \<longleftrightarrow> True"
| "mirrored led (PushedLog l # ps) \<longleftrightarrow> mirrored led ps"
| "mirrored led (PushedState m # ps) \<longleftrightarrow>
    (case m of
       SwitchStateResponse s \<Rightarrow> SwitchState_Key s = BlinkSwitchKey \<and> mirrored (SwitchState_State s) ps
     | BinarySensorStateResponse b \<Rightarrow>
         BinarySensorState_Key b = BlinkSensorKey \<and> BinarySensorState_State b = led \<and> mirrored led ps
     | _ \<Rightarrow> False)"

text \<open>The switch state an observer knows after the pushes.\<close>

fun known_led :: "bool \<Rightarrow> push list \<Rightarrow> bool" where
  "known_led led [] = led"
| "known_led led (PushedLog l # ps) = known_led led ps"
| "known_led led (PushedState m # ps) =
    known_led (case m of SwitchStateResponse s \<Rightarrow> SwitchState_State s | _ \<Rightarrow> led) ps"

lemma known_led_append [simp]: "known_led led (ps @ qs) = known_led (known_led led ps) qs"
  by (induction led ps rule: known_led.induct) simp_all

lemma mirrored_append [simp]: "mirrored led (ps @ qs) \<longleftrightarrow> mirrored led ps \<and> mirrored (known_led led ps) qs"
  by (induction led ps rule: known_led.induct) (auto split: message.splits)

definition blink_ok :: "blinkFirmware \<Rightarrow> bool" where
  "blink_ok f \<longleftrightarrow> mirrored True (bf_pushed f) \<and> known_led True (bf_pushed f) = bf_ledOn f \<and>
    (bf_ledOn f \<longleftrightarrow> bf_timer f = None) \<and>
    (case bf_timer f of None \<Rightarrow> True | Some at \<Rightarrow> at \<le> bf_now f + max 0 (bf_relight f))"

lemmas blink_defs = blink_push_def led_switch_def led_mirror_def mirror_def blink_log_def stopTimer_def resetTimer_def

lemma blink_command_ok: "blink_ok f \<Longrightarrow> blink_ok (blink_command m f)"
  by (cases m) (auto simp: blink_command_def blink_ok_def blink_defs Let_def)

lemma blink_step_ok:
  assumes "blink_ok f" "blink_step e f = Some f'"
  shows "blink_ok f' \<and> bf_relight f' = bf_relight f \<and> bf_now f \<le> bf_now f'"
proof (cases e)
  case (BlinkElapse dt)
  with assms show ?thesis by (auto simp: blink_step_def blink_ok_def split: if_splits option.splits)
next
  case (BlinkCommand m)
  have "bf_relight (blink_command m f) = bf_relight f \<and> bf_now (blink_command m f) = bf_now f"
    by (cases m) (auto simp: blink_command_def blink_defs Let_def)
  with assms BlinkCommand blink_command_ok show ?thesis by (auto simp: blink_step_def)
next
  case BlinkRelight
  with assms show ?thesis
    by (auto simp: blink_step_def blink_ok_def blink_relit_def blink_defs Let_def split: option.splits if_splits)
qed

lemma blink_run_ok:
  "blink_ok f \<Longrightarrow> blink_run es f = Some f' \<Longrightarrow>
    blink_ok f' \<and> bf_relight f' = bf_relight f \<and> bf_now f \<le> bf_now f'"
  by (induction es f rule: blink_run.induct) (fastforce dest: blink_step_ok split: option.splits)+

lemma start_blink_ok: "blink_ok (start_blink now relight)"
  by (simp add: blink_ok_def start_blink_def)

text \<open>The endless blink: in every run of the firmware the sensor is only ever published with the value of the
  last published switch state, never before it, and that state is the firmware's belief about the LED; and whenever
  the LED is off the timer that lights it again is armed, is due within the fixed delay, and when it fires the
  LED is on again and published so.\<close>

theorem blink_mirrors_and_relights:
  assumes "blink_run es (start_blink now relight) = Some f"
  shows "mirrored True (bf_pushed f) \<and> known_led True (bf_pushed f) = bf_ledOn f \<and>
    (if bf_ledOn f then bf_timer f = None
     else \<exists>at. bf_timer f = Some at \<and> at \<le> bf_now f + max 0 relight \<and>
       (\<forall>dt. 0 \<le> dt \<longrightarrow> at \<le> bf_now f + dt \<longrightarrow>
         (\<exists>f'. blink_run [BlinkElapse dt, BlinkRelight] f = Some f' \<and> bf_ledOn f' \<and>
           bf_pushed f' = bf_pushed f @ [PushedState (led_switch BlinkSwitchKey True), PushedState (led_mirror True),
             PushedLog (zero_SubscribeLogsResponse\<lparr>Log_Level := LOG_LEVEL_INFO,
               Log_Message := string_bytes ''LED is still off; turning it on'' @ [10]\<rparr>)])))"
proof -
  have ok: "blink_ok f" "bf_relight f = relight"
    using blink_run_ok[OF start_blink_ok assms] by (simp_all add: start_blink_def)
  then show ?thesis
    by (auto simp: blink_ok_def blink_step_def blink_relit_def blink_defs Let_def split: option.splits)
qed

definition blink_off :: message where
  "blink_off = SwitchCommandRequest (zero_SwitchCommandRequest\<lparr>SwitchCmd_Key := BlinkSwitchKey,
    SwitchCmd_State := False\<rparr>)"

lemma blink_mirrors_and_relights_witness:
  "\<exists>f. blink_run [BlinkCommand blink_off] (start_blink 0 blinkRelightDelay) = Some f \<and> \<not> bf_ledOn f \<and>
    bf_timer f \<noteq> None \<and> mirrored True (bf_pushed f)"
proof -
  let ?f = "blink_command blink_off (start_blink 0 blinkRelightDelay)"
  have r: "blink_run [BlinkCommand blink_off] (start_blink 0 blinkRelightDelay) = Some ?f"
    by (simp add: blink_step_def)
  have "\<not> bf_ledOn ?f" by (simp add: blink_command_def blink_off_def blink_defs Let_def)
  with blink_mirrors_and_relights[OF r] r show ?thesis by auto
qed

section \<open>Admission\<close>

definition namedScenario :: "string \<Rightarrow> Scenario result" where
  "namedScenario name =
    (if name = ''basic-io'' then Inr BasicIOScenario
     else if name = ''blink'' then Inr BlinkScenario
     else if name = ''blink-device'' then Inr BlinkScenario
     else Inl (Errorf ''unknown simulator scenario %q'' []))"

text \<open>\<open>loopback\<close> is \<open>net.ParseIP\<close> followed by \<open>IsLoopback\<close>: \<open>None\<close> for a text that is no address.\<close>

definition forwardAllowed :: "(string \<Rightarrow> bool option) \<Rightarrow> string \<Rightarrow> bool \<Rightarrow> bool" where
  "forwardAllowed loopback address privateNamespace =
    (case SplitHostPort address of
       None \<Rightarrow> False
     | Some (host, port) \<Rightarrow>
         if host = ''localhost'' \<or> loopback host = Some True then True else privateNamespace)"

definition namespaceIsPrivate :: "string \<Rightarrow> string \<Rightarrow> bool" where
  "namespaceIsPrivate self init \<longleftrightarrow> is_prefix ''net:['' self \<and> is_prefix ''net:['' init \<and> self \<noteq> init"

definition networkNamespaceIsPrivate :: "string result \<Rightarrow> string \<Rightarrow> bool" where
  "networkNamespaceIsPrivate readlink parent =
    (case readlink of Inl err \<Rightarrow> False | Inr self \<Rightarrow> namespaceIsPrivate self parent)"

text \<open>The program never forwards from a public address: an address is allowed only when it splits into a host and
  a port, and then only for the local host, for a loopback address, or when the process is certainly in another
  network namespace than its parent, both named as namespaces.\<close>

theorem forwarding_is_private:
  "forwardAllowed loopback address (networkNamespaceIsPrivate readlink parent) =
    (\<exists>host port. SplitHostPort address = Some (host, port) \<and>
      (host = ''localhost'' \<or> loopback host = Some True \<or>
       (\<exists>self. readlink = Inr self \<and> is_prefix ''net:['' self \<and> is_prefix ''net:['' parent \<and> self \<noteq> parent)))"
  by (auto simp: forwardAllowed_def networkNamespaceIsPrivate_def namespaceIsPrivate_def
      split: option.splits sum.splits if_splits)

end
