(* ===== verification/Inventory.thy ===== *)
theory Inventory
  imports Registry Dns "HOL-Library.Multiset" "HOL-Library.List_Lexorder" "HOL-Library.Char_ord"
begin

text \<open>
  The compatibility inventory (\<open>cmd/protocol-inventory/main.go\<close>): the checks of the curated annotations, the pass
  over the message descriptors of the pinned protocol, and the summary.

  A Go slice that may be nil is an optional list. A map that is only looked up is an association list; where the code
  ranges over a map, the list is in the order of the visit, which Go leaves open, and so for the two map literals the
  order is an argument. Reading and rendering JSON, the file system (\<open>os.Stat\<close>) and the lower case of
  non-ASCII text are arguments. Error texts are kept without the formatted names.
\<close>

section \<open>Data\<close>

record upstream =
  up_Release :: string
  up_Commit :: string

record versionGate =
  vg_Status :: string
  vg_KnownAt :: string
  vg_MinimumAPI :: "string option"

record evidence =
  evd_Known :: "string list option"
  evd_Typed :: "string list option"
  evd_Simulated :: "string list option"
  evd_MGMT :: "string list option"
  evd_Hardware :: "string list option"
  evd_Production :: "string list option"

record unknownValuePlan =
  uv_Status :: string
  uv_Behavior :: string
  uv_TestPlan :: string
  uv_Evidence :: "string list option"

record unknownValues =
  uv_MessageIDs :: unknownValuePlan
  uv_EnumValues :: unknownValuePlan
  uv_Fields :: unknownValuePlan

record messageAnnotation =
  an_Name :: string
  an_Milestone :: string
  an_EntityFamily :: string
  an_MGMTRequired :: bool
  an_ReferenceParity :: string
  an_PublicBehavior :: string
  an_EvidenceProfile :: string
  an_Notes :: string
  an_VersionGate :: "versionGate option"

record annotations =
  ac_SchemaVersion :: int
  ac_Upstream :: upstream
  ac_DefaultVersionGate :: versionGate
  ac_UnknownValues :: unknownValues
  ac_EvidenceProfiles :: "(string \<times> evidence) list"
  ac_Messages :: "messageAnnotation list"

record inventory_entry =
  en_ID :: u32
  en_Name :: string
  en_Direction :: string
  en_VersionGate :: versionGate
  en_FeatureGate :: string
  en_EntityFamily :: string
  en_Milestone :: string
  en_MGMTRequired :: bool
  en_ReferenceParity :: string
  en_PublicBehavior :: string
  en_Evidence :: evidence
  en_Notes :: string

record inventory =
  iv_SchemaVersion :: int
  iv_Upstream :: upstream
  iv_UnknownValues :: unknownValues
  iv_Messages :: "inventory_entry list"

text \<open>What the outside answers: \<open>os.Stat\<close> of a path under the repository root, the order of the visits, and
  \<open>strings.Map(unicode.ToLower)\<close>.\<close>

record inventory_env =
  ie_stat :: "string \<Rightarrow> goerror option"
  ie_levels :: "string \<Rightarrow> (string \<times> string list option) list \<Rightarrow> (string \<times> string list option) list"
  ie_plans :: "(string \<times> unknownValuePlan) list \<Rightarrow> (string \<times> unknownValuePlan) list"
  ie_unicode_lower :: "string \<Rightarrow> string"

definition refuse :: "string \<Rightarrow> goerror" where
  "refuse line = Errorf line []"

section \<open>Feature gates\<close>

definition ToLower :: "(string \<Rightarrow> string) \<Rightarrow> string \<Rightarrow> string" where
  "ToLower unicode_lower s = (if list_all (\<lambda>c. of_char c < (128 :: nat)) s then to_lower s else unicode_lower s)"

definition trim_prefix :: "string \<Rightarrow> string \<Rightarrow> string" where
  "trim_prefix p s = (if is_prefix p s then drop (length p) s else s)"

text \<open>The loop ranges over runes; every rune outside ASCII, and so every byte of its encoding, fails the test.\<close>

definition isEntityFamilyName :: "string \<Rightarrow> bool" where
  "isEntityFamilyName family \<longleftrightarrow> family \<noteq> [] \<and>
    list_all (\<lambda>c. CHR ''a'' \<le> c \<and> c \<le> CHR ''z'' \<or> CHR ''0'' \<le> c \<and> c \<le> CHR ''9'' \<or> c = CHR ''_'') family"

definition featureFamily :: "(string \<Rightarrow> string) \<Rightarrow> string \<Rightarrow> string result" where
  "featureFamily unicode_lower ifdef =
    (if ifdef = '''' then Inr ''protocol''
     else if ifdef = ''USE_IR_RF || USE_RADIO_FREQUENCY'' then Inr ''infrared_radio_frequency''
     else
       let family = ToLower unicode_lower (trim_prefix ''USE_'' ifdef)
       in if isEntityFamilyName family then Inr family
          else Inl (refuse ''feature gate %q derives invalid entity family %q''))"

section \<open>Plans and evidence\<close>

definition emptyEvidence :: evidence where
  "emptyEvidence = \<lparr>evd_Known = Some [''protocol/upstream.lock.json'', ''protocol/upstream/api.proto''],
    evd_Typed = Some [], evd_Simulated = Some [], evd_MGMT = Some [], evd_Hardware = Some [], evd_Production = Some []\<rparr>"

definition validatePlan :: "unknownValuePlan \<Rightarrow> goerror option" where
  "validatePlan plan =
    (if uv_Status plan = '''' \<or> uv_Behavior plan = '''' \<or> uv_TestPlan plan = '''' \<or> uv_Evidence plan = None
     then Some (refuse ''unknown-value plan %s must declare status, behavior, test_plan, and evidence'') else None)"

fun validate_paths :: "(string \<Rightarrow> goerror option) \<Rightarrow> string list \<Rightarrow> goerror option" where
  "validate_paths stat [] = None"
| "validate_paths stat (path # paths) =
    (if path = '''' then Some (refuse ''evidence profile %s has an empty %s reference'')
     else if is_prefix ''https://'' path then validate_paths stat paths
     else (case stat path of
         Some err \<Rightarrow> Some (Errorf ''evidence profile %s references %s: %w'' [err])
       | None \<Rightarrow> validate_paths stat paths))"

fun validate_levels :: "(string \<Rightarrow> goerror option) \<Rightarrow> (string \<times> string list option) list \<Rightarrow> goerror option" where
  "validate_levels stat [] = None"
| "validate_levels stat ((level, paths) # levels) =
    (case paths of
       None \<Rightarrow> Some (refuse ''evidence profile %s omits %s'')
     | Some ps \<Rightarrow> (case validate_paths stat ps of Some err \<Rightarrow> Some err | None \<Rightarrow> validate_levels stat levels))"

definition evidence_levels :: "evidence \<Rightarrow> (string \<times> string list option) list" where
  "evidence_levels e =
    [(''known'', evd_Known e), (''typed'', evd_Typed e), (''simulated'', evd_Simulated e),
     (''mgmt'', evd_MGMT e), (''hardware'', evd_Hardware e), (''production'', evd_Production e)]"

definition validateEvidencePaths :: "inventory_env \<Rightarrow> string \<Rightarrow> evidence \<Rightarrow> goerror option" where
  "validateEvidencePaths env owner e = validate_levels (ie_stat env) (ie_levels env owner (evidence_levels e))"

fun validate_plan_paths :: "(string \<Rightarrow> goerror option) \<Rightarrow> string list \<Rightarrow> goerror option" where
  "validate_plan_paths stat [] = None"
| "validate_plan_paths stat (path # paths) =
    (if path = '''' then Some (refuse ''unknown-value plan %s has an empty evidence reference'')
     else (case stat path of
         Some err \<Rightarrow> Some (Errorf ''unknown-value plan %s references %s: %w'' [err])
       | None \<Rightarrow> validate_plan_paths stat paths))"

definition validatePlanPaths :: "inventory_env \<Rightarrow> unknownValuePlan \<Rightarrow> goerror option" where
  "validatePlanPaths env plan =
    validate_plan_paths (ie_stat env) (case uv_Evidence plan of None \<Rightarrow> [] | Some ps \<Rightarrow> ps)"

fun check_plans :: "inventory_env \<Rightarrow> (string \<times> unknownValuePlan) list \<Rightarrow> goerror option" where
  "check_plans env [] = None"
| "check_plans env ((name, plan) # plans) =
    (case validatePlan plan of
       Some err \<Rightarrow> Some err
     | None \<Rightarrow> (case validatePlanPaths env plan of Some err \<Rightarrow> Some err | None \<Rightarrow> check_plans env plans))"

fun check_profiles :: "inventory_env \<Rightarrow> (string \<times> evidence) list \<Rightarrow> goerror option" where
  "check_profiles env [] = None"
| "check_profiles env ((name, profile) # profiles) =
    (case validateEvidencePaths env name profile of
       Some err \<Rightarrow> Some err
     | None \<Rightarrow> check_profiles env profiles)"

section \<open>Annotations\<close>

definition len :: "'a list option \<Rightarrow> nat" where
  "len xs = (case xs of None \<Rightarrow> 0 | Some ys \<Rightarrow> length ys)"

definition annotation_error :: "annotations \<Rightarrow> messageAnnotation list \<Rightarrow> messageAnnotation \<Rightarrow> goerror option" where
  "annotation_error config overrides a =
    (if an_Name a = '''' then Some (refuse ''message annotation has an empty name'')
     else if list_ex (\<lambda>b. an_Name b = an_Name a) overrides then Some (refuse ''duplicate annotation for %s'')
     else if an_Milestone a \<noteq> ''M1'' then Some (refuse ''annotation for %s must be an M1 message'')
     else if an_EntityFamily a = '''' \<or> an_ReferenceParity a = '''' \<or> an_PublicBehavior a = '''' \<or> an_Notes a = ''''
     then Some (refuse ''M1 annotation for %s is incomplete'')
     else (case map_of (ac_EvidenceProfiles config) (an_EvidenceProfile a) of
         None \<Rightarrow> Some (refuse ''M1 annotation for %s names unknown evidence profile %q'')
       | Some profile \<Rightarrow>
           if an_PublicBehavior a \<noteq> ''generated_only'' \<and> (len (evd_Typed profile) = 0 \<or> len (evd_Simulated profile) = 0)
           then Some (refuse ''M1 annotation for %s lacks typed or simulated evidence'') else None))"

text \<open>The map of overrides, in the order of the annotations.\<close>

fun collect_overrides ::
  "annotations \<Rightarrow> messageAnnotation list \<Rightarrow> messageAnnotation list \<Rightarrow> messageAnnotation list result" where
  "collect_overrides config overrides [] = Inr overrides"
| "collect_overrides config overrides (a # as) =
    (case annotation_error config overrides a of
       Some err \<Rightarrow> Inl err
     | None \<Rightarrow> collect_overrides config (overrides @ [a]) as)"

section \<open>The pass over the descriptors\<close>

fun source_name :: "api_source \<Rightarrow> string" where
  "source_name SOURCE_BOTH = ''SOURCE_BOTH''"
| "source_name SOURCE_SERVER = ''SOURCE_SERVER''"
| "source_name SOURCE_CLIENT = ''SOURCE_CLIENT''"

definition extension :: "'a option \<Rightarrow> 'a \<Rightarrow> 'a" where
  "extension value fallback = (case value of None \<Rightarrow> fallback | Some x \<Rightarrow> x)"

definition generated_entry :: "annotations \<Rightarrow> descriptor \<Rightarrow> string \<Rightarrow> inventory_entry" where
  "generated_entry config d family =
    \<lparr>en_ID = extension (desc_id d) 0, en_Name = desc_Name d,
      en_Direction = source_name (extension (desc_source d) SOURCE_BOTH),
      en_VersionGate = ac_DefaultVersionGate config,
      en_FeatureGate = (if extension (desc_ifdef d) '''' = '''' then ''always'' else extension (desc_ifdef d) ''''),
      en_EntityFamily = family, en_Milestone = ''not_scheduled'', en_MGMTRequired = False,
      en_ReferenceParity = ''not_assessed'', en_PublicBehavior = ''generated_only'', en_Evidence = emptyEvidence,
      en_Notes = ''Generated wire type only; no support claim beyond known.''\<rparr>"

definition apply_annotation :: "annotations \<Rightarrow> messageAnnotation \<Rightarrow> inventory_entry \<Rightarrow> inventory_entry" where
  "apply_annotation config a e =
    e\<lparr>en_Milestone := an_Milestone a, en_EntityFamily := an_EntityFamily a, en_MGMTRequired := an_MGMTRequired a,
      en_ReferenceParity := an_ReferenceParity a, en_PublicBehavior := an_PublicBehavior a,
      en_Evidence := (case map_of (ac_EvidenceProfiles config) (an_EvidenceProfile a) of
        None \<Rightarrow> \<lparr>evd_Known = None, evd_Typed = None, evd_Simulated = None, evd_MGMT = None, evd_Hardware = None,
          evd_Production = None\<rparr>
      | Some profile \<Rightarrow> profile),
      en_Notes := an_Notes a,
      en_VersionGate := (case an_VersionGate a of None \<Rightarrow> en_VersionGate e | Some g \<Rightarrow> g)\<rparr>"

fun scan_messages ::
  "(string \<Rightarrow> string) \<Rightarrow> annotations \<Rightarrow> descriptor list \<Rightarrow> messageAnnotation list \<Rightarrow> inventory_entry list \<Rightarrow> u32 list \<Rightarrow>
    string list \<Rightarrow> (messageAnnotation list \<times> inventory_entry list \<times> u32 list \<times> string list) result" where
  "scan_messages ul config [] overrides entries seenIDs seenNames = Inr (overrides, entries, seenIDs, seenNames)"
| "scan_messages ul config (d # ds) overrides entries seenIDs seenNames =
    (let mid = extension (desc_id d) 0 in
     if mid = 0 then scan_messages ul config ds overrides entries seenIDs seenNames
     else if mid \<in> set seenIDs then Inl (refuse ''duplicate message id %d: %s and %s'')
     else (case featureFamily ul (extension (desc_ifdef d) '''') of
         Inl err \<Rightarrow> Inl (Errorf ''message %s: %w'' [err])
       | Inr family \<Rightarrow>
           (case find (\<lambda>a. an_Name a = desc_Name d) overrides of
              None \<Rightarrow> scan_messages ul config ds overrides (entries @ [generated_entry config d family])
                (List.insert mid seenIDs) (List.insert (desc_Name d) seenNames)
            | Some a \<Rightarrow> scan_messages ul config ds (filter (\<lambda>b. an_Name b \<noteq> desc_Name d) overrides)
                (entries @ [apply_annotation config a (generated_entry config d family)])
                (List.insert mid seenIDs) (List.insert (desc_Name d) seenNames))))"

fun join :: "string \<Rightarrow> string list \<Rightarrow> string" where
  "join sep [] = []"
| "join sep [s] = s"
| "join sep (s # t # ss) = s @ sep @ join sep (t # ss)"

definition finish_inventory ::
  "annotations \<Rightarrow> upstream \<Rightarrow> messageAnnotation list \<times> inventory_entry list \<times> u32 list \<times> string list \<Rightarrow>
    inventory result" where
  "finish_inventory config lock st =
    (case st of (overrides, entries, seenIDs, seenNames) \<Rightarrow>
       if overrides \<noteq> [] then Inl (refuse (''annotations name messages absent from pinned protocol: '' @
         join '', '' (sort (map an_Name overrides))))
       else if entries = [] \<or> length seenIDs \<noteq> length entries \<or> length seenNames \<noteq> length entries
       then Inl (refuse ''pinned protocol inventory is empty or non-unique: %d messages'')
       else Inr \<lparr>iv_SchemaVersion = 2, iv_Upstream = lock, iv_UnknownValues = ac_UnknownValues config,
         iv_Messages = sort_key (\<lambda>e. unat (en_ID e)) entries\<rparr>)"

definition check_config :: "inventory_env \<Rightarrow> annotations \<Rightarrow> upstream \<Rightarrow> goerror option" where
  "check_config env config lock =
    (let u = ac_UnknownValues config in
     if ac_SchemaVersion config \<noteq> 1 then Some (refuse ''unsupported annotation schema %d'')
     else if ac_Upstream config \<noteq> lock then Some (refuse ''annotation upstream %s@%s does not match lock %s@%s'')
     else if vg_Status (ac_DefaultVersionGate config) = '''' \<or> vg_KnownAt (ac_DefaultVersionGate config) = ''''
     then Some (refuse ''default version gate must declare status and known_at'')
     else (case check_plans env (ie_plans env [(''message_ids'', uv_MessageIDs u), (''enum_values'', uv_EnumValues u),
           (''fields'', uv_Fields u)]) of
         Some err \<Rightarrow> Some err
       | None \<Rightarrow> check_profiles env (ac_EvidenceProfiles config)))"

definition buildInventory ::
  "inventory_env \<Rightarrow> annotations result \<Rightarrow> upstream result \<Rightarrow> descriptor list \<Rightarrow> inventory result" where
  "buildInventory env annotations lock ds =
    (case annotations of
       Inl err \<Rightarrow> Inl (Errorf ''read annotations: %w'' [err])
     | Inr config \<Rightarrow>
         (case lock of
            Inl err \<Rightarrow> Inl (Errorf ''read upstream lock: %w'' [err])
          | Inr l \<Rightarrow>
              (case check_config env config l of
                 Some err \<Rightarrow> Inl err
               | None \<Rightarrow>
                   (case collect_overrides config [] (ac_Messages config) of
                      Inl err \<Rightarrow> Inl err
                    | Inr overrides \<Rightarrow>
                        (case scan_messages (ie_unicode_lower env) config ds overrides [] [] [] of
                           Inl err \<Rightarrow> Inl err
                         | Inr st \<Rightarrow> finish_inventory config l st)))))"

text \<open>The counts of \<open>--summary\<close>: M1 messages, implemented ones, generated-only ones.\<close>

definition summarize :: "inventory_entry list \<Rightarrow> nat \<times> nat \<times> nat" where
  "summarize es = fold (\<lambda>e (m1, implemented, generatedOnly).
    (if en_Milestone e = ''M1'' then m1 + 1 else m1,
     if en_PublicBehavior e = ''generated_only'' then implemented else implemented + 1,
     if en_PublicBehavior e = ''generated_only'' then generatedOnly + 1 else generatedOnly)) es (0, 0, 0)"


section \<open>The inventory is the reference one\<close>

text \<open>The messages with an id, and the entry that each should get.\<close>

definition identified :: "descriptor list \<Rightarrow> descriptor list" where
  "identified ds = filter (\<lambda>d. extension (desc_id d) 0 \<noteq> 0) ds"

definition entry_of ::
  "(string \<Rightarrow> string) \<Rightarrow> annotations \<Rightarrow> messageAnnotation list \<Rightarrow> descriptor \<Rightarrow> inventory_entry" where
  "entry_of ul config as d =
    (let g = generated_entry config d
       (case featureFamily ul (extension (desc_ifdef d) '''') of Inl err \<Rightarrow> '''' | Inr family \<Rightarrow> family)
     in case find (\<lambda>a. an_Name a = desc_Name d) as of None \<Rightarrow> g | Some a \<Rightarrow> apply_annotation config a g)"

lemma entry_of_simps [simp]:
  "en_ID (entry_of ul config as d) = extension (desc_id d) 0" "en_Name (entry_of ul config as d) = desc_Name d"
  by (simp_all add: entry_of_def apply_annotation_def generated_entry_def Let_def split: option.split)

lemma find_filter: "(\<And>x. P x \<Longrightarrow> Q x) \<Longrightarrow> find P (filter Q xs) = find P xs"
  by (induction xs) auto

lemma entry_of_filter:
  "desc_Name e \<noteq> n \<Longrightarrow> entry_of ul config (filter (\<lambda>b. an_Name b \<noteq> n) as) e = entry_of ul config as e"
  by (simp add: entry_of_def find_filter)

lemma identified_simps [simp]:
  "identified [] = []"
  "identified (d # ds) = (if extension (desc_id d) 0 = 0 then identified ds else d # identified ds)"
  by (simp_all add: identified_def)

lemma scan_cons:
  assumes "scan_messages ul config (d # ds) ov es ids ns = Inr r" "extension (desc_id d) 0 \<noteq> 0"
  obtains family where "extension (desc_id d) 0 \<notin> set ids"
    "featureFamily ul (extension (desc_ifdef d) '''') = Inr family"
    "scan_messages ul config ds (filter (\<lambda>b. an_Name b \<noteq> desc_Name d) ov) (es @ [entry_of ul config ov d])
      (List.insert (extension (desc_id d) 0) ids) (List.insert (desc_Name d) ns) = Inr r"
proof -
  have none: "filter (\<lambda>b. an_Name b \<noteq> desc_Name d) ov = ov" if "find (\<lambda>a. an_Name a = desc_Name d) ov = None"
    using that by (auto simp: find_None_iff filter_id_conv)
  from assms show ?thesis
    by (auto simp: Let_def entry_of_def none intro: that split: if_splits sum.splits option.splits)
qed

lemma scan_keys:
  assumes "scan_messages ul config ds ov es ids ns = Inr (ov', es', ids', ns')" "distinct ns"
  shows "length es' = length es + length (identified ds) \<and>
    distinct (map (\<lambda>d. extension (desc_id d) 0) (identified ds)) \<and>
    set (map (\<lambda>d. extension (desc_id d) 0) (identified ds)) \<inter> set ids = {} \<and>
    distinct ns' \<and> set ns' = set ns \<union> set (map desc_Name (identified ds)) \<and>
    list_all (\<lambda>d. \<exists>f. featureFamily ul (extension (desc_ifdef d) '''') = Inr f) (identified ds)"
  using assms
proof (induction ds arbitrary: ov es ids ns)
  case (Cons d ds)
  show ?case
  proof (cases "extension (desc_id d) 0 = 0")
    case True
    with Cons show ?thesis by (simp add: Let_def)
  next
    case False
    obtain family where f: "extension (desc_id d) 0 \<notin> set ids"
      "featureFamily ul (extension (desc_ifdef d) '''') = Inr family"
      "scan_messages ul config ds (filter (\<lambda>b. an_Name b \<noteq> desc_Name d) ov) (es @ [entry_of ul config ov d])
        (List.insert (extension (desc_id d) 0) ids) (List.insert (desc_Name d) ns) = Inr (ov', es', ids', ns')"
      using scan_cons[OF Cons.prems(1) False] .
    from Cons.IH[OF f(3)] Cons.prems(2) f(1,2) False show ?thesis by auto
  qed
qed simp

lemma scan_entries:
  assumes "scan_messages ul config ds ov es ids ns = Inr (ov', es', ids', ns')" "distinct (map desc_Name (identified ds))"
  shows "es' = es @ map (entry_of ul config ov) (identified ds) \<and>
    ov' = filter (\<lambda>b. an_Name b \<notin> set (map desc_Name (identified ds))) ov"
  using assms
proof (induction ds arbitrary: ov es ids ns)
  case (Cons d ds)
  show ?case
  proof (cases "extension (desc_id d) 0 = 0")
    case True
    with Cons show ?thesis by (simp add: Let_def)
  next
    case False
    obtain family where f:
      "scan_messages ul config ds (filter (\<lambda>b. an_Name b \<noteq> desc_Name d) ov) (es @ [entry_of ul config ov d])
        (List.insert (extension (desc_id d) 0) ids) (List.insert (desc_Name d) ns) = Inr (ov', es', ids', ns')"
      using scan_cons[OF Cons.prems(1) False] .
    from Cons.prems(2) False have n: "desc_Name d \<notin> set (map desc_Name (identified ds))"
      "distinct (map desc_Name (identified ds))" by simp_all
    from n(1) have "map (entry_of ul config (filter (\<lambda>b. an_Name b \<noteq> desc_Name d) ov)) (identified ds) =
        map (entry_of ul config ov) (identified ds)"
      by (intro map_cong refl entry_of_filter) (metis image_eqI set_map)
    with Cons.IH[OF f n(2)] False show ?thesis by auto
  qed
qed simp

lemma collect_all:
  "collect_overrides config ov as = Inr ov' \<Longrightarrow> ov' = ov @ as \<and>
    list_all (\<lambda>a. \<exists>bs. annotation_error config bs a = None) as"
proof (induction as arbitrary: ov)
  case (Cons a as)
  from Cons.prems have "annotation_error config ov a = None" "collect_overrides config (ov @ [a]) as = Inr ov'"
    by (auto split: option.splits)
  with Cons.IH[OF this(2)] show ?case by auto
qed simp

lemma buildInventory_cases:
  assumes "buildInventory env (Inr config) (Inr lock) ds = Inr iv"
  shows "check_config env config lock = None"
    and "list_all (\<lambda>a. \<exists>bs. annotation_error config bs a = None) (ac_Messages config)"
    and "iv_Messages iv = sort_key (\<lambda>e. unat (en_ID e))
      (map (entry_of (ie_unicode_lower env) config (ac_Messages config)) (identified ds))"
    and "distinct (map (\<lambda>d. extension (desc_id d) 0) (identified ds))" "distinct (map desc_Name (identified ds))"
    and "identified ds \<noteq> []" "set (map an_Name (ac_Messages config)) \<subseteq> set (map desc_Name (identified ds))"
    and "list_all (\<lambda>d. \<exists>f. featureFamily (ie_unicode_lower env) (extension (desc_ifdef d) '''') = Inr f) (identified ds)"
    and "iv_SchemaVersion iv = 2" "iv_Upstream iv = lock"
proof -
  obtain ov ov' es ids ns where s: "check_config env config lock = None"
    "collect_overrides config [] (ac_Messages config) = Inr ov"
    "scan_messages (ie_unicode_lower env) config ds ov [] [] [] = Inr (ov', es, ids, ns)"
    "finish_inventory config lock (ov', es, ids, ns) = Inr iv"
    using assms by (auto simp: buildInventory_def split: option.splits sum.splits)
  have c: "ov = ac_Messages config" "list_all (\<lambda>a. \<exists>bs. annotation_error config bs a = None) (ac_Messages config)"
    using collect_all[OF s(2)] by simp_all
  have f: "ov' = []" "es \<noteq> []" "length ns = length es" "iv_Messages iv = sort_key (\<lambda>e. unat (en_ID e)) es"
    "iv_SchemaVersion iv = 2" "iv_Upstream iv = lock"
    using s(4) by (auto simp: finish_inventory_def split: if_splits)
  note k = scan_keys[OF s(3)]
  have d: "distinct (map desc_Name (identified ds))"
    using k f(3) distinct_card[of ns] by (intro card_distinct) simp
  note e = scan_entries[OF s(3) d]
  show "check_config env config lock = None" by (rule s(1))
  show "list_all (\<lambda>a. \<exists>bs. annotation_error config bs a = None) (ac_Messages config)" by (rule c(2))
  show "iv_Messages iv = sort_key (\<lambda>e. unat (en_ID e))
      (map (entry_of (ie_unicode_lower env) config (ac_Messages config)) (identified ds))"
    using e f(4) c(1) by simp
  show "distinct (map (\<lambda>d. extension (desc_id d) 0) (identified ds))" using k by simp
  show "distinct (map desc_Name (identified ds))" by (rule d)
  show "identified ds \<noteq> []" using e f(2) by auto
  show "set (map an_Name (ac_Messages config)) \<subseteq> set (map desc_Name (identified ds))"
  proof -
    have "filter (\<lambda>b. an_Name b \<notin> set (map desc_Name (identified ds))) (ac_Messages config) = []"
      using e f(1) c(1) by metis
    then show ?thesis by (auto simp: filter_empty_conv)
  qed
  show "list_all (\<lambda>d. \<exists>f. featureFamily (ie_unicode_lower env) (extension (desc_ifdef d) '''') = Inr f) (identified ds)"
    using k by simp
  show "iv_SchemaVersion iv = 2" "iv_Upstream iv = lock" by (rule f(5), rule f(6))
qed

section \<open>Claims have evidence\<close>

definition path_ok :: "(string \<Rightarrow> goerror option) \<Rightarrow> string \<Rightarrow> bool" where
  "path_ok stat path \<longleftrightarrow> path \<noteq> '''' \<and> (is_prefix ''https://'' path \<or> stat path = None)"

lemma validate_paths_None: "validate_paths stat ps = None \<longleftrightarrow> list_all (path_ok stat) ps"
  by (induction ps) (auto simp: path_ok_def split: option.split)

lemma validate_levels_None:
  "validate_levels stat ls = None \<longleftrightarrow> list_all (\<lambda>(l, ps). \<exists>qs. ps = Some qs \<and> list_all (path_ok stat) qs) ls"
  by (induction ls) (auto simp: validate_paths_None[symmetric] split: option.splits)

lemma check_profiles_None:
  "check_profiles env ps = None \<longleftrightarrow> list_all (\<lambda>(n, e). validateEvidencePaths env n e = None) ps"
  by (induction ps) (auto split: option.splits)

text \<open>Every level of the profile has a list of references, each of which exists or is a web address.\<close>

definition evidence_ok :: "(string \<Rightarrow> goerror option) \<Rightarrow> evidence \<Rightarrow> bool" where
  "evidence_ok stat e = list_all (\<lambda>(l, ps). \<exists>qs. ps = Some qs \<and> list_all (path_ok stat) qs) (evidence_levels e)"

lemma evidence_checked:
  assumes "validateEvidencePaths env n e = None" and "\<And>w xs. set (ie_levels env w xs) = set xs"
  shows "evidence_ok (ie_stat env) e"
  using assms by (simp add: validateEvidencePaths_def evidence_ok_def validate_levels_None list_all_iff)

text \<open>C40. No claim of support without evidence: in an inventory that is built, a message whose public behaviour is more
  than the generated type carries a milestone-one annotation whose evidence names at least one typed and one
  simulated reference, and every reference of every level exists in the repository or is a web address.\<close>

theorem claims_have_evidence:
  assumes "buildInventory env (Inr config) (Inr lock) ds = Inr iv" and "e \<in> set (iv_Messages iv)"
    and "en_PublicBehavior e \<noteq> ''generated_only''" and "\<And>w xs. set (ie_levels env w xs) = set xs"
  shows "en_Milestone e = ''M1'' \<and> len (evd_Typed (en_Evidence e)) > 0 \<and> len (evd_Simulated (en_Evidence e)) > 0 \<and>
    evidence_ok (ie_stat env) (en_Evidence e)"
proof -
  note b = buildInventory_cases[OF assms(1)]
  obtain d where d: "e = entry_of (ie_unicode_lower env) config (ac_Messages config) d"
    using assms(2) b(3) by auto
  have "\<exists>a. find (\<lambda>a. an_Name a = desc_Name d) (ac_Messages config) = Some a"
    using assms(3) by (simp add: d entry_of_def generated_entry_def Let_def split: option.splits)
  then obtain a where f: "find (\<lambda>a. an_Name a = desc_Name d) (ac_Messages config) = Some a" ..
  then have "a \<in> set (ac_Messages config)" by (auto simp: find_Some_iff)
  with b(2) obtain as where "annotation_error config as a = None" by (auto simp: list_all_iff)
  then obtain profile where p: "an_Milestone a = ''M1''"
    "map_of (ac_EvidenceProfiles config) (an_EvidenceProfile a) = Some profile"
    "an_PublicBehavior a = ''generated_only'' \<or> len (evd_Typed profile) \<noteq> 0 \<and> len (evd_Simulated profile) \<noteq> 0"
    by (auto simp: annotation_error_def split: if_splits option.splits)
  have e: "en_Milestone e = an_Milestone a" "en_Evidence e = profile" "en_PublicBehavior e = an_PublicBehavior a"
    using f p(2) by (simp_all add: d entry_of_def apply_annotation_def Let_def)
  have "check_profiles env (ac_EvidenceProfiles config) = None"
    using b(1) by (auto simp: check_config_def Let_def split: if_splits option.splits)
  with map_of_SomeD[OF p(2)] have "validateEvidencePaths env (an_EvidenceProfile a) profile = None"
    by (auto simp: check_profiles_None list_all_iff)
  from evidence_checked[OF this assms(4)] p e assms(3) show ?thesis by simp
qed

section \<open>The gates of the pinned protocol\<close>

lemma featureFamily_valid:
  "featureFamily ul g = Inr family \<Longrightarrow> isEntityFamilyName family"
  by (auto simp: featureFamily_def Let_def isEntityFamilyName_def split: if_splits)

lemma summarize_counts:
  "summarize es = (length (filter (\<lambda>e. en_Milestone e = ''M1'') es),
     length (filter (\<lambda>e. en_PublicBehavior e \<noteq> ''generated_only'') es),
     length (filter (\<lambda>e. en_PublicBehavior e = ''generated_only'') es))"
proof -
  have "fold (\<lambda>e (m1, implemented, generatedOnly).
    (if en_Milestone e = ''M1'' then m1 + 1 else m1,
     if en_PublicBehavior e = ''generated_only'' then implemented else implemented + 1,
     if en_PublicBehavior e = ''generated_only'' then generatedOnly + 1 else generatedOnly)) es (a, b, c) =
    (a + length (filter (\<lambda>e. en_Milestone e = ''M1'') es),
     b + length (filter (\<lambda>e. en_PublicBehavior e \<noteq> ''generated_only'') es),
     c + length (filter (\<lambda>e. en_PublicBehavior e = ''generated_only'') es))" for a b c
    by (induction es arbitrary: a b c) auto
  from this[of 0 0 0] show ?thesis by (simp only: summarize_def) simp
qed

section \<open>An inventory\<close>

definition some_evidence :: evidence where
  "some_evidence = \<lparr>evd_Known = Some [''protocol/upstream.lock.json''], evd_Typed = Some [''client.go''],
    evd_Simulated = Some [''https://example.org/run''], evd_MGMT = Some [], evd_Hardware = Some [], evd_Production = Some []\<rparr>"

definition some_plan :: unknownValuePlan where
  "some_plan = \<lparr>uv_Status = ''verified'', uv_Behavior = ''skip'', uv_TestPlan = ''send one'',
    uv_Evidence = Some [''client_integration_test.go'']\<rparr>"

definition some_config :: annotations where
  "some_config = \<lparr>ac_SchemaVersion = 1, ac_Upstream = \<lparr>up_Release = ''2025.7'', up_Commit = ''c''\<rparr>,
    ac_DefaultVersionGate = \<lparr>vg_Status = ''unknown'', vg_KnownAt = ''2025.7'', vg_MinimumAPI = None\<rparr>,
    ac_UnknownValues = \<lparr>uv_MessageIDs = some_plan, uv_EnumValues = some_plan, uv_Fields = some_plan\<rparr>,
    ac_EvidenceProfiles = [(''typed_simulated'', some_evidence)],
    ac_Messages = [\<lparr>an_Name = ''PingRequest'', an_Milestone = ''M1'', an_EntityFamily = ''session'', an_MGMTRequired = True,
      an_ReferenceParity = ''mgmt_reference_subset'', an_PublicBehavior = ''secure_session_ping'',
      an_EvidenceProfile = ''typed_simulated'', an_Notes = ''Probes the session.'', an_VersionGate = None\<rparr>]\<rparr>"

definition some_env :: inventory_env where
  "some_env = \<lparr>ie_stat = (\<lambda>path. None), ie_levels = (\<lambda>owner xs. xs), ie_plans = (\<lambda>xs. xs), ie_unicode_lower = (\<lambda>s. s)\<rparr>"

lemma some_built:
  "(case buildInventory some_env (Inr some_config) (Inr (ac_Upstream some_config)) api_descriptors_1 of
     Inl err \<Rightarrow> False
   | Inr iv \<Rightarrow> length (iv_Messages iv) = 11 \<and>
      list_ex (\<lambda>e. en_PublicBehavior e \<noteq> ''generated_only'') (iv_Messages iv))"
  by code_simp



lemma claims_have_evidence_witness:
  "\<exists>iv e. buildInventory some_env (Inr some_config) (Inr (ac_Upstream some_config)) api_descriptors_1 = Inr iv \<and>
    e \<in> set (iv_Messages iv) \<and> en_PublicBehavior e \<noteq> ''generated_only'' \<and> en_Milestone e = ''M1''"
proof -
  obtain iv e where iv:
    "buildInventory some_env (Inr some_config) (Inr (ac_Upstream some_config)) api_descriptors_1 = Inr iv"
    "e \<in> set (iv_Messages iv)" "en_PublicBehavior e \<noteq> ''generated_only''"
    using some_built by (auto simp: list_ex_iff split: sum.splits)
  have "set (ie_levels some_env w xs) = set xs" for w xs by (simp add: some_env_def)
  from claims_have_evidence[OF iv this] iv show ?thesis by blast
qed

end
